theory Spec2Isabelle
  imports Complex_Main "HOL-Library.Word"
begin

chapter \<open>The model of cgpdelib.c\<close>

section \<open>Values of the C program\<close>

text \<open>
  A C \<^verbatim>\<open>double\<close> is one of: not-a-number, plus or minus infinity, or a finite number.
  The classification (\<^verbatim>\<open>isnan\<close>, \<^verbatim>\<open>isinf\<close>), the comparisons and the constants
  \<^verbatim>\<open>DBL_MAX\<close> and \<^verbatim>\<open>DBL_MIN\<close> of \<^verbatim>\<open>float.h\<close> are modelled exactly. Arithmetic on
  finite values is the exact arithmetic of the reals (rounding and overflow are not
  modelled); the theorems below use it only structurally, and the concrete runs use
  it only on values where machine arithmetic is exact. The one place where a rounding
  decides how often a loop turns, the number of genes to mutate, is modelled with the
  roundings of IEEE 754 (\<open>double_product\<close>, \<open>double_to_float\<close> below).
\<close>

datatype double = NaN | PInf | NInf | Fin real

definition isnan :: "double \<Rightarrow> bool" where
  "isnan d = (d = NaN)"

definition isinf :: "double \<Rightarrow> bool" where
  "isinf d = (d = PInf \<or> d = NInf)"

text \<open>\<^verbatim>\<open>a < b\<close> on doubles: false as soon as one side is not a number.\<close>

fun dlt :: "double \<Rightarrow> double \<Rightarrow> bool" where
  "dlt NaN _ = False"
| "dlt _ NaN = False"
| "dlt PInf _ = False"
| "dlt _ NInf = False"
| "dlt NInf _ = True"
| "dlt (Fin a) PInf = True"
| "dlt (Fin a) (Fin b) = (a < b)"

text \<open>\<^verbatim>\<open>a <= b\<close>, \<^verbatim>\<open>a > b\<close> and \<^verbatim>\<open>a >= b\<close> on doubles.\<close>

fun dle :: "double \<Rightarrow> double \<Rightarrow> bool" where
  "dle NaN _ = False"
| "dle _ NaN = False"
| "dle NInf _ = True"
| "dle _ PInf = True"
| "dle PInf _ = False"
| "dle (Fin a) NInf = False"
| "dle (Fin a) (Fin b) = (a \<le> b)"

definition dgt :: "double \<Rightarrow> double \<Rightarrow> bool" where
  "dgt a b = dlt b a"

definition dge :: "double \<Rightarrow> double \<Rightarrow> bool" where
  "dge a b = dle b a"


text \<open>
  Arithmetic: the special values behave as IEEE 754 says; a zero divisor is taken
  as the positive zero.
\<close>

fun dneg :: "double \<Rightarrow> double" where
  "dneg NaN = NaN"
| "dneg PInf = NInf"
| "dneg NInf = PInf"
| "dneg (Fin a) = Fin (- a)"

fun dadd :: "double \<Rightarrow> double \<Rightarrow> double" where
  "dadd NaN _ = NaN"
| "dadd _ NaN = NaN"
| "dadd PInf NInf = NaN"
| "dadd NInf PInf = NaN"
| "dadd PInf _ = PInf"
| "dadd NInf _ = NInf"
| "dadd _ PInf = PInf"
| "dadd _ NInf = NInf"
| "dadd (Fin a) (Fin b) = Fin (a + b)"

fun dabs :: "double \<Rightarrow> double" where
  "dabs NaN = NaN"
| "dabs PInf = PInf"
| "dabs NInf = PInf"
| "dabs (Fin a) = Fin \<bar>a\<bar>"

definition dsub :: "double \<Rightarrow> double \<Rightarrow> double" where
  "dsub a b = dadd a (dneg b)"

fun dmul :: "double \<Rightarrow> double \<Rightarrow> double" where
  "dmul NaN _ = NaN"
| "dmul _ NaN = NaN"
| "dmul (Fin a) (Fin b) = Fin (a * b)"
| "dmul (Fin a) PInf = (if a = 0 then NaN else if 0 < a then PInf else NInf)"
| "dmul (Fin a) NInf = (if a = 0 then NaN else if 0 < a then NInf else PInf)"
| "dmul PInf (Fin b) = (if b = 0 then NaN else if 0 < b then PInf else NInf)"
| "dmul NInf (Fin b) = (if b = 0 then NaN else if 0 < b then NInf else PInf)"
| "dmul PInf PInf = PInf"
| "dmul PInf NInf = NInf"
| "dmul NInf PInf = NInf"
| "dmul NInf NInf = PInf"

fun ddiv :: "double \<Rightarrow> double \<Rightarrow> double" where
  "ddiv NaN _ = NaN"
| "ddiv _ NaN = NaN"
| "ddiv (Fin a) (Fin b) =
     (if b = 0 then (if a = 0 then NaN else if 0 < a then PInf else NInf) else Fin (a / b))"
| "ddiv (Fin a) PInf = Fin 0"
| "ddiv (Fin a) NInf = Fin 0"
| "ddiv PInf (Fin b) = (if 0 \<le> b then PInf else NInf)"
| "ddiv NInf (Fin b) = (if 0 \<le> b then NInf else PInf)"
| "ddiv PInf _ = NaN"
| "ddiv NInf _ = NaN"

text \<open>The conversion of an \<^verbatim>\<open>int\<close> to a \<^verbatim>\<open>double\<close>.\<close>

definition of_c_int :: "int \<Rightarrow> double" where
  "of_c_int i = Fin (real_of_int i)"

text \<open>\<^verbatim>\<open>float.h\<close>: the largest finite double, and the smallest positive normalised one.\<close>

definition DBL_MAX :: double where
  "DBL_MAX = Fin ((2 - 1 / 2 ^ 52) * 2 ^ 1023)"

definition DBL_MIN :: double where
  "DBL_MIN = Fin (1 / 2 ^ 1022)"

text \<open>
  Rounding to the nearest number of a binary format of IEEE 754 with \<open>p\<close> digits and
  the exponents from \<open>emin\<close> to \<open>emax\<close>, ties to the even digit; this is the rounding
  of the arithmetic and of the conversions of C in the default mode. The unit in the
  last place of \<open>x\<close> is \<open>2\<close> to its exponent, or to \<open>emin\<close> for a subnormal, less the
  \<open>p - 1\<close> digits behind the first; a result of which the magnitude reaches \<open>2\<close> to
  \<open>emax + 1\<close> is an infinity. The sign of a zero is not modelled.
\<close>

definition pow2 :: "int \<Rightarrow> real" where
  "pow2 k = (if 0 \<le> k then 2 ^ nat k else 1 / 2 ^ nat (- k))"

definition round_half_even :: "real \<Rightarrow> int" where
  "round_half_even q =
     (let f = \<lfloor>q\<rfloor>; d = q - real_of_int f in
      if d < 1 / 2 then f else if 1 / 2 < d then f + 1 else if even f then f else f + 1)"

definition ieee_round :: "nat \<Rightarrow> int \<Rightarrow> int \<Rightarrow> real \<Rightarrow> double" where
  "ieee_round p emin emax x =
     (if x = 0 then Fin 0
      else
        let e = max \<lfloor>log 2 \<bar>x\<bar>\<rfloor> emin;
            ulp = pow2 (e - int p + 1);
            r = real_of_int (round_half_even (x / ulp)) * ulp
        in if pow2 (emax + 1) \<le> \<bar>r\<bar> then (if 0 < x then PInf else NInf) else Fin r)"

text \<open>
  The product of two doubles as the machine computes it, in the format of 53 digits,
  and the conversion of a \<^verbatim>\<open>double\<close> to \<^verbatim>\<open>float\<close>, the format of 24 digits.
\<close>

definition double_product :: "double \<Rightarrow> double \<Rightarrow> double" where
  "double_product a b =
     (case dmul a b of Fin x \<Rightarrow> ieee_round 53 (- 1022) 1023 x | d \<Rightarrow> d)"

definition double_to_float :: "double \<Rightarrow> double" where
  "double_to_float d = (case d of Fin x \<Rightarrow> ieee_round 24 (- 126) 127 x | _ \<Rightarrow> d)"

text \<open>
  How a call ends when it does not return: \<^verbatim>\<open>exit(0)\<close> was called, an array was read
  or written outside its bounds (undefined behaviour in C), a loop never ended, or the
  recursion budget of the model was used up.
\<close>

datatype error = Exit | Fault | Diverge | OutOfFuel

text \<open>An array is a list; an access outside it is a fault.\<close>

definition arr_get :: "'a list \<Rightarrow> int \<Rightarrow> error + 'a" where
  "arr_get xs i = (if 0 \<le> i \<and> i < int (length xs) then Inr (xs ! nat i) else Inl Fault)"

definition arr_set :: "'a list \<Rightarrow> int \<Rightarrow> 'a \<Rightarrow> error + 'a list" where
  "arr_set xs i v = (if 0 \<le> i \<and> i < int (length xs) then Inr (xs[nat i := v]) else Inl Fault)"


section \<open>The C library\<close>

text \<open>
  The random number generators are the C library's, not this program's: \<^verbatim>\<open>rand_r\<close>
  works on the \<^verbatim>\<open>unsigned int\<close> its caller owns, \<^verbatim>\<open>rand\<close> on a state hidden in the
  process; both return an \<^verbatim>\<open>int\<close> between 0 and \<^verbatim>\<open>RAND_MAX\<close>. They are a parameter
  of the model.
\<close>

type_synonym seed = "32 word"

record 'g libc =
  RAND_MAX :: int
  rand_r :: "seed \<Rightarrow> int \<times> seed"
  rand :: "'g \<Rightarrow> int \<times> 'g"


section \<open>Structures\<close>

text \<open>
  A node function is a C function pointer
  \<^verbatim>\<open>double f(const int numInputs, const double *inputs, const double *connectionWeights)\<close>.
  Besides its arguments it can read and write the state of the process that is global
  (the hidden state of \<^verbatim>\<open>rand()\<close>, for one), which is the type \<open>'g\<close>.
\<close>

type_synonym 'g node_function = "int \<Rightarrow> double list \<Rightarrow> double list \<Rightarrow> 'g \<Rightarrow> error + (double \<times> 'g)"

record 'g functionSet =
  numFunctions :: int
  functionNames :: "string list"
  maxNumInputs :: "int list"
  "functions" :: "'g node_function list"

record node =
  func :: int
  inputs :: "int list"
  weights :: "double list"
  active :: int
  "output" :: double
  maxArity :: int
  actArity :: int

text \<open>
  The pointer \<^verbatim>\<open>mutationType\<close> of the parameters is only ever set by
  \<^verbatim>\<open>initialiseParameters\<close> and \<^verbatim>\<open>setMutationType\<close>, to one of five functions.
\<close>

datatype mutation_type =
  ProbabilisticMutation | PointMutation | PointMutationANN
  | ProbabilisticMutationOnlyActive | SingleMutation

text \<open>
  The parameters, without the pointers to the fitness function, the selection scheme
  and the reproduction scheme: these are the record \<open>schemes\<close> further down, passed next
  to the parameters.
\<close>

record 'g parameters =
  mu :: int
  lambda :: int
  evolutionaryStrategy :: char
  mutationRate :: double
  recurrentConnectionProbability :: double
  connectionWeightRange :: double
  numInputs :: int
  numNodes :: int
  numOutputs :: int
  arity :: int
  targetFitness :: double
  funcSet :: "'g functionSet"
  shortcutConnections :: int
  mutationType :: mutation_type
  mutationTypeName :: string
  fitnessFunctionName :: string
  selectionSchemeName :: string
  reproductionSchemeName :: string
  numThreads :: int
  NP_IN :: int
  NP_OUT :: int
  maxIter_IN :: int
  maxIter_OUT :: int
  CR :: double
  F :: double

record dataSet =
  numSamples :: int
  numInputs :: int
  numOutputs :: int
  inputData :: "double list list"
  outputData :: "double list list"

record 'g chromosome =
  numInputs :: int
  numOutputs :: int
  numNodes :: int
  numActiveNodes :: int
  arity :: int
  nodes :: "node list"
  outputNodes :: "int list"
  activeNodes :: "int list"
  fitness :: double
  fitnessValidation :: double
  outputValues :: "double list"
  funcSet :: "'g functionSet"
  nodeInputsHold :: "double list"
  generation :: int



text \<open>Sequencing: the second step runs on the result of the first, unless that ended the program.\<close>

definition bnd :: "error + 'a \<Rightarrow> ('a \<Rightarrow> error + 'b) \<Rightarrow> error + 'b" where
  "bnd m f = (case m of Inl e \<Rightarrow> Inl e | Inr x \<Rightarrow> f x)"

lemma bnd_simps [simp]:
  "bnd (Inl e) f = Inl e"
  "bnd (Inr x) f = f x"
  by (simp_all add: bnd_def)

lemma bnd_cong [fundef_cong]:
  "m = m' \<Longrightarrow> (\<And>x. m' = Inr x \<Longrightarrow> f x = f' x) \<Longrightarrow> bnd m f = bnd m' f'"
  by (cases m') (simp_all add: bnd_def)


text \<open>
  \<^verbatim>\<open>struct DEChromosome\<close>; its field \<^verbatim>\<open>chromo\<close> is \<open>dechromo\<close> here, since the chromosome
  at hand is called \<open>chromo\<close> throughout.
\<close>

record 'g DEChromosome =
  dechromo :: "'g chromosome"
  weightsVector :: "double list"

text \<open>
  The three pointers to functions of the parameters that a caller can set to
  functions of its own: the fitness function, the selection scheme and the
  reproduction scheme. A fitness function executes the chromosome, so it returns the
  chromosome and the global state as it leaves them.
\<close>

record 'g schemes =
  fitnessFunction ::
    "'g parameters \<Rightarrow> 'g chromosome \<Rightarrow> dataSet \<Rightarrow> 'g \<Rightarrow> error + (double \<times> 'g chromosome \<times> 'g)"
  selectionScheme ::
    "'g parameters \<Rightarrow> 'g chromosome list \<Rightarrow> 'g chromosome list \<Rightarrow> int \<Rightarrow> int
       \<Rightarrow> error + ('g chromosome list \<times> 'g chromosome list)"
  reproductionScheme ::
    "'g parameters \<Rightarrow> 'g chromosome list \<Rightarrow> 'g chromosome list \<Rightarrow> int \<Rightarrow> int \<Rightarrow> int \<Rightarrow> seed
       \<Rightarrow> error + ('g chromosome list \<times> seed)"

section \<open>Loops\<close>

text \<open>
  \<^verbatim>\<open>for (i = a; i < n; i++) body\<close>, for a bound \<open>n\<close> that the body does not change.
  The body gets the counter and the state and returns the new state, or the way the
  program ended.
\<close>

function for_loop :: "int \<Rightarrow> int \<Rightarrow> (int \<Rightarrow> 's \<Rightarrow> error + 's) \<Rightarrow> 's \<Rightarrow> error + 's" where
  "for_loop i n body s =
     (if i < n then
        (case body i s of
           Inl e \<Rightarrow> Inl e
         | Inr s' \<Rightarrow> for_loop (i + 1) n body s')
      else Inr s)"
  by pat_completeness auto
termination
  by (relation "measure (\<lambda>(i, n, body, s). nat (n - i))") auto

declare for_loop.simps [simp del]


text \<open>
  \<^verbatim>\<open>while (cond) body\<close> and \<^verbatim>\<open>do body while (cond)\<close>. Such a loop may never end:
  the first function is then undefined (\<open>None\<close>), which the second reports as
  \<open>Diverge\<close>.
\<close>

partial_function (option) while_loop ::
  "('s \<Rightarrow> bool) \<Rightarrow> ('s \<Rightarrow> error + 's) \<Rightarrow> 's \<Rightarrow> (error + 's) option" where
  "while_loop cond body s =
     (if cond s then
        (case body s of
           Inl e \<Rightarrow> Some (Inl e)
         | Inr s' \<Rightarrow> while_loop cond body s')
      else Some (Inr s))"

definition while_do :: "('s \<Rightarrow> bool) \<Rightarrow> ('s \<Rightarrow> error + 's) \<Rightarrow> 's \<Rightarrow> error + 's" where
  "while_do cond body s = (case while_loop cond body s of None \<Rightarrow> Inl Diverge | Some r \<Rightarrow> r)"

definition do_while :: "('s \<Rightarrow> error + 's) \<Rightarrow> ('s \<Rightarrow> bool) \<Rightarrow> 's \<Rightarrow> error + 's" where
  "do_while body cond s = bnd (body s) (while_do cond body)"

text \<open>The division and the remainder of C on \<^verbatim>\<open>int\<close>: towards zero; by zero, undefined.\<close>

definition c_div :: "int \<Rightarrow> int \<Rightarrow> error + int" where
  "c_div a b = (if b = 0 then Inl Fault else Inr (sgn a * sgn b * (\<bar>a\<bar> div \<bar>b\<bar>)))"

definition c_rem :: "int \<Rightarrow> int \<Rightarrow> error + int" where
  "c_rem a b = (if b = 0 then Inl Fault else Inr (sgn a * (\<bar>a\<bar> mod \<bar>b\<bar>)))"

section \<open>Setters of the parameters\<close>

text \<open>
  A setter returns what it printed (the format strings, conversions left as written)
  and then either the parameters after the call or the way the program ended.
\<close>

definition setMutationRate :: "'g parameters \<Rightarrow> double \<Rightarrow> string list \<times> (error + 'g parameters)" where
  "setMutationRate params rate =
     (if dge rate (Fin 0) \<and> dle rate (Fin 1) then
        ([], Inr (params\<lparr>mutationRate := rate\<rparr>))
      else
        ([''Warning: mutation rate %f is invalid. The mutation rate must be in the range [0,1]. The mutation rate has been left unchanged as %f.''],
         Inr params))"

definition setNumThreads :: "'g parameters \<Rightarrow> int \<Rightarrow> string list \<times> (error + 'g parameters)" where
  "setNumThreads params n =
     ((if n \<le> 0 then
         [''Error: number threads cannot be less than one; %d is invalid. The number threads is left unchanged as %d.'']
       else []),
      Inr (params\<lparr>numThreads := n\<rparr>))"

definition setCR :: "'g parameters \<Rightarrow> double \<Rightarrow> string list \<times> (error + 'g parameters)" where
  "setCR params cr =
     (if dlt cr (Fin 0) \<or> dgt cr (Fin 1) then
        ([''Warning: de crossover rate must be in the [0,1] range; %f is invalid. Terminating CGP-Library.''],
         Inl Exit)
      else ([], Inr (params\<lparr>CR := cr\<rparr>)))"

definition setF :: "'g parameters \<Rightarrow> double \<Rightarrow> string list \<times> (error + 'g parameters)" where
  "setF params f =
     (if dlt f (Fin 0) \<or> dgt f (Fin 2) then
        ([''Warning: de rential scale factor must be in the [0,2] range; %f is invalid. Terminating CGP-Library.''],
         Inl Exit)
      else ([], Inr (params\<lparr>F := f\<rparr>)))"

definition setNP_OUT :: "'g parameters \<Rightarrow> int \<Rightarrow> string list \<times> (error + 'g parameters)" where
  "setNP_OUT params np =
     (if np < 4 then
        ([''Warning: de population size cannot be less than four; %d is invalid. Terminating CGP-Library.''],
         Inl Exit)
      else ([], Inr (params\<lparr>NP_OUT := np\<rparr>)))"

text \<open>The parameters as \<^verbatim>\<open>initialiseParameters\<close> leaves them, for the given sizes.\<close>

definition default_parameters :: "int \<Rightarrow> int \<Rightarrow> int \<Rightarrow> int \<Rightarrow> 'g parameters" where
  "default_parameters ni nn no ar =
     \<lparr>mu = 1, lambda = 4, evolutionaryStrategy = CHR ''+'', mutationRate = Fin (5 / 100),
      recurrentConnectionProbability = Fin 0, connectionWeightRange = Fin 1,
      numInputs = ni, numNodes = nn, numOutputs = no, arity = ar,
      targetFitness = Fin 0,
      funcSet = \<lparr>numFunctions = 0, functionNames = [], maxNumInputs = [], functions = []\<rparr>,
      shortcutConnections = 1,
      mutationType = ProbabilisticMutation, mutationTypeName = ''probabilistic'',
      fitnessFunctionName = ''supervisedLearning'', selectionSchemeName = ''selectFittest'',
      reproductionSchemeName = ''mutateRandomParent'', numThreads = 1,
      NP_IN = 10, NP_OUT = 10, maxIter_IN = 100, maxIter_OUT = 100,
      CR = Fin (1 / 2), F = Fin 1\<rparr>"

definition params0 :: "unit parameters" where
  "params0 = default_parameters 2 1 1 2"


section \<open>Copying\<close>

definition copyNode :: "node \<Rightarrow> node \<Rightarrow> error + node" where
  "copyNode nodeDest nodeSrc =
     for_loop 0 (maxArity nodeSrc)
       (\<lambda>i d.
          bnd (arr_get (inputs nodeSrc) i) (\<lambda>v.
          bnd (arr_set (inputs d) i v) (\<lambda>ins.
          bnd (arr_get (weights nodeSrc) i) (\<lambda>w.
          bnd (arr_set (weights d) i w) (\<lambda>ws.
          Inr (d\<lparr>inputs := ins, weights := ws\<rparr>))))))
       (nodeDest\<lparr>func := func nodeSrc, active := active nodeSrc,
                 maxArity := maxArity nodeSrc, actArity := actArity nodeSrc\<rparr>)"

text \<open>
  The arrays of a function set have the fixed capacity \<^verbatim>\<open>FUNCTIONSETSIZE\<close>, of which
  the lists are the part in use: copying the first \<^verbatim>\<open>numFunctions\<close> entries stays
  inside the arrays.
\<close>

definition copyFunctionSet :: "'g functionSet \<Rightarrow> 'g functionSet \<Rightarrow> 'g functionSet" where
  "copyFunctionSet funcSetDest funcSetSrc =
     (let n = nat (numFunctions funcSetSrc) in
      funcSetDest\<lparr>numFunctions := numFunctions funcSetSrc,
        functionNames := take n (functionNames funcSetSrc) @ drop n (functionNames funcSetDest),
        functions := take n (functions funcSetSrc) @ drop n (functions funcSetDest),
        maxNumInputs := take n (maxNumInputs funcSetSrc) @ drop n (maxNumInputs funcSetDest)\<rparr>)"

definition copyChromosome :: "'g chromosome \<Rightarrow> 'g chromosome \<Rightarrow> error + 'g chromosome" where
  "copyChromosome chromoDest chromoSrc =
     (if numInputs chromoDest \<noteq> numInputs chromoSrc then Inl Exit
      else if numNodes chromoDest \<noteq> numNodes chromoSrc then Inl Exit
      else if numOutputs chromoDest \<noteq> numOutputs chromoSrc then Inl Exit
      else if arity chromoDest \<noteq> arity chromoSrc then Inl Exit
      else
        bnd (for_loop 0 (numNodes chromoSrc)
               (\<lambda>i d.
                  bnd (arr_get (nodes d) i) (\<lambda>nd.
                  bnd (arr_get (nodes chromoSrc) i) (\<lambda>ns.
                  bnd (copyNode nd ns) (\<lambda>nd'.
                  bnd (arr_set (nodes d) i nd') (\<lambda>nds.
                  bnd (arr_get (activeNodes chromoSrc) i) (\<lambda>a.
                  bnd (arr_set (activeNodes d) i a) (\<lambda>acts.
                  Inr (d\<lparr>nodes := nds, activeNodes := acts\<rparr>))))))))
               chromoDest) (\<lambda>d1.
        bnd (for_loop 0 (numOutputs chromoSrc)
               (\<lambda>i d.
                  bnd (arr_get (outputNodes chromoSrc) i) (\<lambda>out.
                  bnd (arr_set (outputNodes d) i out) (\<lambda>outs.
                  Inr (d\<lparr>outputNodes := outs\<rparr>))))
               (d1\<lparr>chromosome.funcSet := copyFunctionSet (chromosome.funcSet d1) (chromosome.funcSet chromoSrc)\<rparr>)) (\<lambda>d2.
        Inr (d2\<lparr>numActiveNodes := numActiveNodes chromoSrc,
                 fitness := fitness chromoSrc,
                 fitnessValidation := fitnessValidation chromoSrc,
                 generation := generation chromoSrc\<rparr>))))"

section \<open>Selection\<close>

text \<open>
  \<^verbatim>\<open>sortChromosomeArray\<close>: for every \<open>i\<close>, every \<open>j\<close> from \<open>i\<close> on; the two pointers
  are exchanged when the fitness at \<open>i\<close> is greater than the fitness at \<open>j\<close>.
\<close>

definition sortChromosomeArray :: "'g chromosome list \<Rightarrow> int \<Rightarrow> error + 'g chromosome list" where
  "sortChromosomeArray chromoArray numChromos =
     for_loop 0 numChromos
       (\<lambda>i arr.
          for_loop i numChromos
            (\<lambda>j arr.
               bnd (arr_get arr i) (\<lambda>ci.
               bnd (arr_get arr j) (\<lambda>cj.
               if dgt (fitness ci) (fitness cj) then
                 bnd (arr_set arr i cj) (\<lambda>arr'. arr_set arr' j ci)
               else Inr arr)))
            arr)
       chromoArray"

definition selectFittest ::
  "'g parameters \<Rightarrow> 'g chromosome list \<Rightarrow> 'g chromosome list \<Rightarrow> int \<Rightarrow> int
     \<Rightarrow> error + ('g chromosome list \<times> 'g chromosome list)" where
  "selectFittest params parents candidateChromos numParents numCandidateChromos =
     bnd (sortChromosomeArray candidateChromos numCandidateChromos) (\<lambda>cands.
     bnd (for_loop 0 numParents
            (\<lambda>i ps.
               bnd (arr_get ps i) (\<lambda>p.
               bnd (arr_get cands i) (\<lambda>c.
               bnd (copyChromosome p c) (\<lambda>p'.
               arr_set ps i p'))))
            parents) (\<lambda>ps. Inr (ps, cands)))"

text \<open>A chromosome without nodes, whose output reads the input, to fill populations with.\<close>

definition bare :: "double \<Rightarrow> int \<Rightarrow> unit chromosome" where
  "bare fit gen = \<lparr>numInputs = 1, numOutputs = 1, numNodes = 0, numActiveNodes = 0, arity = 2,
     nodes = [], outputNodes = [0], activeNodes = [],
     fitness = fit, fitnessValidation = Fin 0, outputValues = [Fin 0],
     funcSet = \<lparr>numFunctions = 0, functionNames = [], maxNumInputs = [], functions = []\<rparr>,
     nodeInputsHold = [Fin 0, Fin 0], generation = gen\<rparr>"



section \<open>Active nodes\<close>

definition getChromosomeNodeArity :: "'g chromosome \<Rightarrow> int \<Rightarrow> error + int" where
  "getChromosomeNodeArity chromo index =
     (let chromoArity = arity chromo in
      bnd (arr_get (nodes chromo) index) (\<lambda>n.
      bnd (arr_get (maxNumInputs (chromosome.funcSet chromo)) (func n)) (\<lambda>maxArity'.
      if maxArity' = - 1 then Inr chromoArity
      else if maxArity' < chromoArity then Inr maxArity'
      else Inr chromoArity)))"

text \<open>
  \<^verbatim>\<open>recursivelySetActiveNodes\<close> calls itself inside its loop over the inputs of the
  node. The first argument of the model is a budget: one unit is used by each call and
  by each turn of the loop, along every path of the recursion. The second function
  is the loop, from input \<open>i\<close> on; it reads the arity and the input of the node again
  at every turn, as the source does.
\<close>

fun recursivelySetActiveNodes :: "nat \<Rightarrow> 'g chromosome \<Rightarrow> int \<Rightarrow> error + 'g chromosome"
  and recursivelySetActiveNodes_inputs ::
    "nat \<Rightarrow> 'g chromosome \<Rightarrow> int \<Rightarrow> int \<Rightarrow> error + 'g chromosome" where
  "recursivelySetActiveNodes 0 chromo nodeIndex = Inl OutOfFuel"
| "recursivelySetActiveNodes (Suc fuel) chromo nodeIndex =
     (if nodeIndex < numInputs chromo then Inr chromo
      else
        bnd (arr_get (nodes chromo) (nodeIndex - numInputs chromo)) (\<lambda>n.
        if active n = 1 then Inr chromo
        else
          bnd (arr_set (nodes chromo) (nodeIndex - numInputs chromo) (n\<lparr>active := 1\<rparr>)) (\<lambda>nds.
          bnd (arr_set (activeNodes chromo) (numActiveNodes chromo)
                 (nodeIndex - numInputs chromo)) (\<lambda>acts.
          let c1 = chromo\<lparr>nodes := nds, activeNodes := acts,
                          numActiveNodes := numActiveNodes chromo + 1\<rparr> in
          bnd (getChromosomeNodeArity c1 (nodeIndex - numInputs c1)) (\<lambda>ar.
          bnd (arr_get (nodes c1) (nodeIndex - numInputs c1)) (\<lambda>n1.
          bnd (arr_set (nodes c1) (nodeIndex - numInputs c1) (n1\<lparr>actArity := ar\<rparr>)) (\<lambda>nds1.
          recursivelySetActiveNodes_inputs fuel (c1\<lparr>nodes := nds1\<rparr>) nodeIndex 0)))))))"
| "recursivelySetActiveNodes_inputs 0 chromo nodeIndex i = Inl OutOfFuel"
| "recursivelySetActiveNodes_inputs (Suc fuel) chromo nodeIndex i =
     bnd (arr_get (nodes chromo) (nodeIndex - numInputs chromo)) (\<lambda>n.
     if i < actArity n then
       bnd (arr_get (inputs n) i) (\<lambda>a.
       bnd (recursivelySetActiveNodes fuel chromo a) (\<lambda>c'.
       recursivelySetActiveNodes_inputs fuel c' nodeIndex (i + 1)))
     else Inr chromo)"

text \<open>
  \<^verbatim>\<open>sortIntArray\<close> is \<^verbatim>\<open>qsort\<close> of the C library on the first \<open>len\<close> elements, with
  the comparison \<^verbatim>\<open>cmpInt\<close>: the elements in ascending order.
\<close>

definition sortIntArray :: "int list \<Rightarrow> int \<Rightarrow> error + int list" where
  "sortIntArray array len =
     (if 0 \<le> len \<and> len \<le> int (length array)
      then Inr (sort (take (nat len) array) @ drop (nat len) array)
      else Inl Fault)"

text \<open>
  The budget for the recursion: a call marks a node that was not active or returns
  at once, and the loop of a node takes at most \<^verbatim>\<open>arity\<close> turns and one more to
  leave. It is shown below that it is never used up on a well-formed chromosome.
\<close>

definition recursion_budget :: "'g chromosome \<Rightarrow> nat" where
  "recursion_budget chromo = Suc (length (nodes chromo) * Suc (nat (arity chromo)))"

definition setChromosomeActiveNodes :: "'g chromosome \<Rightarrow> error + 'g chromosome" where
  "setChromosomeActiveNodes chromo =
     bnd (for_loop 0 (numNodes chromo)
            (\<lambda>i c.
               bnd (arr_get (nodes c) i) (\<lambda>n.
               bnd (arr_set (nodes c) i (n\<lparr>active := 0\<rparr>)) (\<lambda>nds.
               Inr (c\<lparr>nodes := nds\<rparr>))))
            (chromo\<lparr>numActiveNodes := 0\<rparr>)) (\<lambda>c1.
     bnd (for_loop 0 (numOutputs chromo)
            (\<lambda>i c.
               bnd (arr_get (outputNodes c) i) (\<lambda>out.
               if out < numInputs c then Inr c
               else recursivelySetActiveNodes (recursion_budget c) c out))
            c1) (\<lambda>c2.
     bnd (sortIntArray (activeNodes c2) (numActiveNodes c2)) (\<lambda>acts.
     Inr (c2\<lparr>activeNodes := acts\<rparr>))))"

text \<open>
  The actual arity of a node as the specification gives it: the declared arity of
  the function of the node, clamped to the arity of the chromosome, where the declared
  arity \<open>-1\<close> stands for the arity of the chromosome.
\<close>

definition actual_arity :: "'g chromosome \<Rightarrow> node \<Rightarrow> int" where
  "actual_arity chromo n =
     (let declared = maxNumInputs (chromosome.funcSet chromo) ! nat (func n) in
      if declared = - 1 then arity chromo else min declared (arity chromo))"

text \<open>
  The addresses of nodes reachable from the output genes, as the specification gives
  them: an address of a node that an output gene holds, and an address of a node that
  a reachable node holds in one of its first inputs, as many of them as its actual
  arity.
\<close>

inductive_set reach :: "'g chromosome \<Rightarrow> int set" for chromo :: "'g chromosome" where
  reach_output:
    "0 \<le> i \<Longrightarrow> i < numOutputs chromo \<Longrightarrow> a = outputNodes chromo ! nat i \<Longrightarrow>
     numInputs chromo \<le> a \<Longrightarrow> a \<in> reach chromo"
| reach_input:
    "a \<in> reach chromo \<Longrightarrow> n = nodes chromo ! nat (a - numInputs chromo) \<Longrightarrow>
     0 \<le> j \<Longrightarrow> j < actual_arity chromo n \<Longrightarrow> b = inputs n ! nat j \<Longrightarrow>
     numInputs chromo \<le> b \<Longrightarrow> b \<in> reach chromo"

text \<open>
  What the search of \<^verbatim>\<open>recursivelySetActiveNodes\<close> can visit, for the proofs about it: the
  closure read with the array accesses of the code and with the arity that
  \<^verbatim>\<open>getChromosomeNodeArity\<close> returns.
\<close>

inductive_set visits :: "'g chromosome \<Rightarrow> int set" for chromo :: "'g chromosome" where
  visits_output:
    "0 \<le> i \<Longrightarrow> i < numOutputs chromo \<Longrightarrow> arr_get (outputNodes chromo) i = Inr a \<Longrightarrow>
     numInputs chromo \<le> a \<Longrightarrow> a \<in> visits chromo"
| visits_input:
    "a \<in> visits chromo \<Longrightarrow> arr_get (nodes chromo) (a - numInputs chromo) = Inr n \<Longrightarrow>
     getChromosomeNodeArity chromo (a - numInputs chromo) = Inr ar \<Longrightarrow>
     0 \<le> j \<Longrightarrow> j < ar \<Longrightarrow> arr_get (inputs n) j = Inr b \<Longrightarrow>
     numInputs chromo \<le> b \<Longrightarrow> b \<in> visits chromo"

text \<open>
  A well-formed chromosome: the arrays have the sizes the counters give, every
  function gene is an index of the function set, and every input gene and output
  gene is an address: of an input, or of a node.
\<close>

definition wf_chromosome :: "'g chromosome \<Rightarrow> bool" where
  "wf_chromosome chromo \<longleftrightarrow>
     0 \<le> numInputs chromo \<and> 0 \<le> arity chromo \<and>
     int (length (nodes chromo)) = numNodes chromo \<and>
     int (length (activeNodes chromo)) = numNodes chromo \<and>
     int (length (outputNodes chromo)) = numOutputs chromo \<and>
     (\<forall>a \<in> set (outputNodes chromo). 0 \<le> a \<and> a < numInputs chromo + numNodes chromo) \<and>
     (\<forall>n \<in> set (nodes chromo).
        int (length (inputs n)) = arity chromo \<and>
        0 \<le> func n \<and> func n < int (length (maxNumInputs (chromosome.funcSet chromo))) \<and>
        (\<forall>a \<in> set (inputs n). 0 \<le> a \<and> a < numInputs chromo + numNodes chromo))"

text \<open>The active nodes of a chromosome, as the list of their addresses.\<close>

definition active_addresses :: "'g chromosome \<Rightarrow> int list" where
  "active_addresses chromo =
     map (\<lambda>k. k + numInputs chromo) (take (nat (numActiveNodes chromo)) (activeNodes chromo))"

section \<open>Execution\<close>

definition executeChromosome ::
  "'g chromosome \<Rightarrow> double list \<Rightarrow> 'g \<Rightarrow> error + ('g chromosome \<times> 'g)" where
  "executeChromosome chromo ins g0 =
     (let numInputs' = numInputs chromo;
          numActiveNodes' = numActiveNodes chromo;
          numOutputs' = numOutputs chromo
      in
      bnd (for_loop 0 numActiveNodes'
             (\<lambda>i (c, g).
                bnd (arr_get (activeNodes c) i) (\<lambda>currentActiveNode.
                bnd (arr_get (nodes c) currentActiveNode) (\<lambda>n0.
                let nodeArity = actArity n0 in
                bnd (for_loop 0 nodeArity
                       (\<lambda>j c.
                          bnd (arr_get (nodes c) currentActiveNode) (\<lambda>n.
                          bnd (arr_get (inputs n) j) (\<lambda>nodeInputLocation.
                          bnd (if nodeInputLocation < numInputs' then arr_get ins nodeInputLocation
                               else bnd (arr_get (nodes c) (nodeInputLocation - numInputs'))
                                      (\<lambda>m. Inr (output m))) (\<lambda>v.
                          bnd (arr_set (nodeInputsHold c) j v) (\<lambda>hold.
                          Inr (c\<lparr>nodeInputsHold := hold\<rparr>))))))
                       c) (\<lambda>c.
                bnd (arr_get (nodes c) currentActiveNode) (\<lambda>n.
                let currentActiveNodeFunction = func n in
                bnd (arr_get (functions (chromosome.funcSet c)) currentActiveNodeFunction) (\<lambda>f.
                bnd (f nodeArity (nodeInputsHold c) (weights n) g) (\<lambda>(v, g').
                let v' = (if isnan v then Fin 0
                          else if isinf v then (if dgt v (Fin 0) then DBL_MAX else DBL_MIN)
                          else v)
                in
                bnd (arr_set (nodes c) currentActiveNode (n\<lparr>output := v'\<rparr>)) (\<lambda>nds.
                Inr (c\<lparr>nodes := nds\<rparr>, g')))))))))
             (chromo, g0)) (\<lambda>(c1, g1).
      bnd (for_loop 0 numOutputs'
             (\<lambda>i c.
                bnd (arr_get (outputNodes c) i) (\<lambda>out.
                bnd (if out < numInputs' then arr_get ins out
                     else bnd (arr_get (nodes c) (out - numInputs')) (\<lambda>m. Inr (output m))) (\<lambda>v.
                bnd (arr_set (outputValues c) i v) (\<lambda>ovs.
                Inr (c\<lparr>outputValues := ovs\<rparr>)))))
             c1) (\<lambda>c2. Inr (c2, g1))))"

section \<open>Node functions\<close>


text \<open>
  A node function that divides its first input by its second, as \<^verbatim>\<open>_divide\<close> does
  for two inputs.
\<close>

definition divide2 :: "'g node_function" where
  "divide2 n ins ws g =
     (case ins of
        a # b # _ \<Rightarrow> Inr (ddiv a b, g)
      | _ \<Rightarrow> Inl Fault)"

text \<open>
  The generator that the C standard gives as a portable implementation of
  \<^verbatim>\<open>rand\<close>, with \<^verbatim>\<open>RAND_MAX\<close> 32767; \<^verbatim>\<open>rand_r\<close> the same on the caller's word.
\<close>

definition lcg_next :: "32 word \<Rightarrow> 32 word" where
  "lcg_next x = x * 1103515245 + 12345"

definition lcg_draw :: "32 word \<Rightarrow> int \<times> 32 word" where
  "lcg_draw x = (int (unat (lcg_next x) div 65536 mod 32768), lcg_next x)"



text \<open>Two inputs, one node dividing the first by the second, one output reading the node.\<close>

definition div_chromo :: "unit chromosome" where
  "div_chromo = \<lparr>numInputs = 2, numOutputs = 1, numNodes = 1, numActiveNodes = 1, arity = 2,
     nodes = [\<lparr>func = 0, inputs = [0, 1], weights = [Fin 0, Fin 0], active = 1,
               output = Fin 0, maxArity = 2, actArity = 2\<rparr>],
     outputNodes = [2], activeNodes = [0],
     fitness = Fin 0, fitnessValidation = Fin 0, outputValues = [Fin 0],
     funcSet = \<lparr>numFunctions = 1, functionNames = [''div''], maxNumInputs = [-1],
                functions = [divide2]\<rparr>,
     nodeInputsHold = [Fin 0, Fin 0], generation = 0\<rparr>"


section \<open>Random genes\<close>

definition randInt :: "'g libc \<Rightarrow> int \<Rightarrow> seed \<Rightarrow> error + (int \<times> seed)" where
  "randInt L n s =
     (if n = 0 then Inr (0, s)
      else
        bnd (c_rem (RAND_MAX L) n) (\<lambda>r.
        let randExcess = r + 1;
            randLimit = RAND_MAX L - randExcess
        in
        bnd (do_while (\<lambda>(x, s). Inr (rand_r L s)) (\<lambda>(x, s). x > randLimit) (0, s)) (\<lambda>(x, s').
        bnd (c_rem x n) (\<lambda>y. Inr (y, s')))))"

definition randDecimal :: "'g libc \<Rightarrow> seed \<Rightarrow> error + (double \<times> seed)" where
  "randDecimal L s =
     (case rand_r L s of
        (x, s') \<Rightarrow> bnd (c_rem x 1000000) (\<lambda>y. Inr (ddiv (of_c_int y) (Fin 1000000), s')))"

definition getRandomConnectionWeight :: "'g libc \<Rightarrow> double \<Rightarrow> seed \<Rightarrow> error + (double \<times> seed)" where
  "getRandomConnectionWeight L weightRange s =
     bnd (randDecimal L s) (\<lambda>(r, s').
     Inr (dsub (dmul (dmul r (Fin 2)) weightRange) weightRange, s'))"

definition getRandomFunction :: "'g libc \<Rightarrow> int \<Rightarrow> seed \<Rightarrow> error + (int \<times> seed)" where
  "getRandomFunction L numFunctions' s =
     (if numFunctions' < 1 then Inl Exit else randInt L numFunctions' s)"

definition getRandomNodeInput ::
  "'g libc \<Rightarrow> int \<Rightarrow> int \<Rightarrow> int \<Rightarrow> double \<Rightarrow> seed \<Rightarrow> error + (int \<times> seed)" where
  "getRandomNodeInput L numChromoInputs numNodes' nodePosition recurrentConnectionProbability' s =
     bnd (randDecimal L s) (\<lambda>(r, s1).
     if dlt r recurrentConnectionProbability' then
       bnd (randInt L (numNodes' - nodePosition) s1) (\<lambda>(x, s2).
       Inr (x + nodePosition + numChromoInputs, s2))
     else randInt L (numChromoInputs + nodePosition) s1)"

definition getRandomChromosomeOutput ::
  "'g libc \<Rightarrow> int \<Rightarrow> int \<Rightarrow> int \<Rightarrow> seed \<Rightarrow> error + (int \<times> seed)" where
  "getRandomChromosomeOutput L numInputs' numNodes' shortcutConnections' s =
     (if shortcutConnections' = 1 then randInt L (numInputs' + numNodes') s
      else bnd (randInt L numNodes' s) (\<lambda>(x, s'). Inr (x + numInputs', s')))"

section \<open>Mutation\<close>

text \<open>
  The four assignments to a gene: \<^verbatim>\<open>chromo->nodes[i]->function = v\<close>,
  \<^verbatim>\<open>chromo->nodes[i]->inputs[j] = v\<close>, \<^verbatim>\<open>chromo->nodes[i]->weights[j] = v\<close> and
  \<^verbatim>\<open>chromo->outputNodes[i] = v\<close>.
\<close>

definition set_function_gene :: "'g chromosome \<Rightarrow> int \<Rightarrow> int \<Rightarrow> error + 'g chromosome" where
  "set_function_gene c i v =
     bnd (arr_get (nodes c) i) (\<lambda>n.
     bnd (arr_set (nodes c) i (n\<lparr>func := v\<rparr>)) (\<lambda>nds.
     Inr (c\<lparr>nodes := nds\<rparr>)))"

definition set_input_gene :: "'g chromosome \<Rightarrow> int \<Rightarrow> int \<Rightarrow> int \<Rightarrow> error + 'g chromosome" where
  "set_input_gene c i j v =
     bnd (arr_get (nodes c) i) (\<lambda>n.
     bnd (arr_set (inputs n) j v) (\<lambda>ins.
     bnd (arr_set (nodes c) i (n\<lparr>inputs := ins\<rparr>)) (\<lambda>nds.
     Inr (c\<lparr>nodes := nds\<rparr>))))"

definition set_weight_gene :: "'g chromosome \<Rightarrow> int \<Rightarrow> int \<Rightarrow> double \<Rightarrow> error + 'g chromosome" where
  "set_weight_gene c i j v =
     bnd (arr_get (nodes c) i) (\<lambda>n.
     bnd (arr_set (weights n) j v) (\<lambda>ws.
     bnd (arr_set (nodes c) i (n\<lparr>weights := ws\<rparr>)) (\<lambda>nds.
     Inr (c\<lparr>nodes := nds\<rparr>))))"

definition set_output_gene :: "'g chromosome \<Rightarrow> int \<Rightarrow> int \<Rightarrow> error + 'g chromosome" where
  "set_output_gene c i v =
     bnd (arr_set (outputNodes c) i v) (\<lambda>outs. Inr (c\<lparr>outputNodes := outs\<rparr>))"

text \<open>
  \<^verbatim>\<open>(int)roundf(x)\<close> for a \<^verbatim>\<open>float\<close> \<open>x\<close>: to the nearest integer, halves away from zero,
  which a \<^verbatim>\<open>float\<close> holds exactly; the conversion to \<^verbatim>\<open>int\<close> is undefined when the
  value is not finite or is outside the range of \<^verbatim>\<open>int\<close>, of 32 bits.
\<close>

definition roundf_int :: "double \<Rightarrow> error + int" where
  "roundf_int d =
     (case d of
        Fin x \<Rightarrow>
          (let r = (if 0 \<le> x then \<lfloor>x + 1 / 2\<rfloor> else - \<lfloor>- x + 1 / 2\<rfloor>) in
           if - 2147483648 \<le> r \<and> r \<le> 2147483647 then Inr r else Inl Fault)
      | _ \<Rightarrow> Inl Fault)"

text \<open>One turn of the loop of \<^verbatim>\<open>pointMutation\<close>: a gene is drawn and given a new value.\<close>

definition pointMutation_redraw ::
  "'g libc \<Rightarrow> 'g parameters \<Rightarrow> 'g chromosome \<times> seed \<Rightarrow> error + ('g chromosome \<times> seed)" where
  "pointMutation_redraw L params cs =
     (case cs of (c, s) \<Rightarrow>
      let numFunctionGenes = parameters.numNodes params;
          numInputGenes = parameters.numNodes params * parameters.arity params;
          numOutputGenes = parameters.numOutputs params;
          numGenes = numFunctionGenes + numInputGenes + numOutputGenes
      in
      bnd (randInt L numGenes s) (\<lambda>(geneToMutate, s1).
      if geneToMutate < numFunctionGenes then
        (let nodeIndex = geneToMutate in
         bnd (getRandomFunction L (numFunctions (chromosome.funcSet c)) s1) (\<lambda>(v, s2).
         bnd (set_function_gene c nodeIndex v) (\<lambda>c'. Inr (c', s2))))
      else if geneToMutate < numFunctionGenes + numInputGenes then
        bnd (c_div (geneToMutate - numFunctionGenes) (arity c)) (\<lambda>nodeIndex.
        bnd (c_rem (geneToMutate - numFunctionGenes) (arity c)) (\<lambda>nodeInputIndex.
        bnd (getRandomNodeInput L (numInputs c) (numNodes c) nodeIndex
               (recurrentConnectionProbability params) s1) (\<lambda>(v, s2).
        bnd (set_input_gene c nodeIndex nodeInputIndex v) (\<lambda>c'. Inr (c', s2)))))
      else
        (let nodeIndex = geneToMutate - numFunctionGenes - numInputGenes in
         bnd (getRandomChromosomeOutput L (numInputs c) (numNodes c)
                (shortcutConnections params) s1) (\<lambda>(v, s2).
         bnd (set_output_gene c nodeIndex v) (\<lambda>c'. Inr (c', s2))))))"

text \<open>
  The number of turns, \<^verbatim>\<open>(int)roundf(numGenes * params->mutationRate)\<close>: the product is a
  product of doubles, \<^verbatim>\<open>roundf\<close> takes it converted to \<^verbatim>\<open>float\<close>.
\<close>

definition numGenesToMutate :: "'g parameters \<Rightarrow> error + int" where
  "numGenesToMutate params =
     roundf_int (double_to_float
       (double_product (of_c_int (parameters.numNodes params
                                  + parameters.numNodes params * parameters.arity params
                                  + parameters.numOutputs params))
                       (mutationRate params)))"

definition pointMutation ::
  "'g libc \<Rightarrow> 'g parameters \<Rightarrow> 'g chromosome \<Rightarrow> int \<Rightarrow> seed \<Rightarrow> error + ('g chromosome \<times> seed)" where
  "pointMutation L params chromo type s0 =
     bnd (numGenesToMutate params) (\<lambda>n.
     for_loop 0 n (\<lambda>i cs. pointMutation_redraw L params cs) (chromo, s0))"


definition probabilisticMutation ::
  "'g libc \<Rightarrow> 'g parameters \<Rightarrow> 'g chromosome \<Rightarrow> int \<Rightarrow> seed \<Rightarrow> error + ('g chromosome \<times> seed)" where
  "probabilisticMutation L params chromo type s0 =
     bnd (for_loop 0 (parameters.numNodes params)
            (\<lambda>i (c, s).
               bnd (if numFunctions (chromosome.funcSet c) > 1 then
                      bnd (randDecimal L s) (\<lambda>(r, s1).
                      if dle r (mutationRate params) then
                        bnd (getRandomFunction L (numFunctions (chromosome.funcSet c)) s1) (\<lambda>(v, s2).
                        bnd (set_function_gene c i v) (\<lambda>c'. Inr (c', s2)))
                      else Inr (c, s1))
                    else Inr (c, s)) (\<lambda>(c, s).
               for_loop 0 (parameters.arity params)
                 (\<lambda>j (c, s).
                    bnd (randDecimal L s) (\<lambda>(r, s1).
                    bnd (if dle r (mutationRate params) then
                           bnd (getRandomNodeInput L (numInputs c) (numNodes c) i
                                  (recurrentConnectionProbability params) s1) (\<lambda>(v, s2).
                           bnd (set_input_gene c i j v) (\<lambda>c'. Inr (c', s2)))
                         else Inr (c, s1)) (\<lambda>(c, s).
                    if type = 0 then
                      bnd (randDecimal L s) (\<lambda>(r, s1).
                      if dle r (mutationRate params) then
                        bnd (getRandomConnectionWeight L (connectionWeightRange params) s1) (\<lambda>(w, s2).
                        bnd (set_weight_gene c i j w) (\<lambda>c'. Inr (c', s2)))
                      else Inr (c, s1))
                    else Inr (c, s))))
                 (c, s)))
            (chromo, s0)) (\<lambda>(c, s).
     for_loop 0 (parameters.numOutputs params)
       (\<lambda>i (c, s).
          bnd (randDecimal L s) (\<lambda>(r, s1).
          if dle r (mutationRate params) then
            bnd (getRandomChromosomeOutput L (numInputs c) (numNodes c)
                   (shortcutConnections params) s1) (\<lambda>(v, s2).
            bnd (set_output_gene c i v) (\<lambda>c'. Inr (c', s2)))
          else Inr (c, s1)))
       (c, s))"

definition probabilisticMutationOnlyActive ::
  "'g libc \<Rightarrow> 'g parameters \<Rightarrow> 'g chromosome \<Rightarrow> int \<Rightarrow> seed \<Rightarrow> error + ('g chromosome \<times> seed)" where
  "probabilisticMutationOnlyActive L params chromo type s0 =
     bnd (for_loop 0 (numActiveNodes chromo)
            (\<lambda>i (c, s).
               bnd (arr_get (activeNodes c) i) (\<lambda>activeNode.
               bnd (randDecimal L s) (\<lambda>(r, s1).
               bnd (if dle r (mutationRate params) then
                      bnd (getRandomFunction L (numFunctions (chromosome.funcSet c)) s1) (\<lambda>(v, s2).
                      bnd (set_function_gene c activeNode v) (\<lambda>c'. Inr (c', s2)))
                    else Inr (c, s1)) (\<lambda>(c, s).
               for_loop 0 (parameters.arity params)
                 (\<lambda>j (c, s).
                    bnd (randDecimal L s) (\<lambda>(r, s1).
                    bnd (if dle r (mutationRate params) then
                           bnd (getRandomNodeInput L (numInputs c) (numNodes c) activeNode
                                  (recurrentConnectionProbability params) s1) (\<lambda>(v, s2).
                           bnd (set_input_gene c activeNode j v) (\<lambda>c'. Inr (c', s2)))
                         else Inr (c, s1)) (\<lambda>(c, s).
                    if type = 0 then
                      bnd (randDecimal L s) (\<lambda>(r, s1).
                      if dle r (mutationRate params) then
                        bnd (getRandomConnectionWeight L (connectionWeightRange params) s1) (\<lambda>(w, s2).
                        bnd (set_weight_gene c activeNode j w) (\<lambda>c'. Inr (c', s2)))
                      else Inr (c, s1))
                    else Inr (c, s))))
                 (c, s)))))
            (chromo, s0)) (\<lambda>(c, s).
     for_loop 0 (parameters.numOutputs params)
       (\<lambda>i (c, s).
          bnd (randDecimal L s) (\<lambda>(r, s1).
          if dle r (mutationRate params) then
            bnd (getRandomChromosomeOutput L (numInputs c) (numNodes c)
                   (shortcutConnections params) s1) (\<lambda>(v, s2).
            bnd (set_output_gene c i v) (\<lambda>c'. Inr (c', s2)))
          else Inr (c, s1)))
       (c, s))"

text \<open>The number of turns of \<^verbatim>\<open>pointMutationANN\<close>, which counts the weight genes too.\<close>

definition numGenesToMutateANN :: "'g parameters \<Rightarrow> error + int" where
  "numGenesToMutateANN params =
     roundf_int (double_to_float
       (double_product (of_c_int (parameters.numNodes params
                                  + parameters.numNodes params * parameters.arity params
                                  + parameters.numNodes params * parameters.arity params
                                  + parameters.numOutputs params))
                       (mutationRate params)))"

definition pointMutationANN ::
  "'g libc \<Rightarrow> 'g parameters \<Rightarrow> 'g chromosome \<Rightarrow> int \<Rightarrow> seed \<Rightarrow> error + ('g chromosome \<times> seed)" where
  "pointMutationANN L params chromo type s0 =
     (let numFunctionGenes = parameters.numNodes params;
          numInputGenes = parameters.numNodes params * parameters.arity params;
          numWeightGenes = parameters.numNodes params * parameters.arity params;
          numOutputGenes = parameters.numOutputs params;
          numGenes = numFunctionGenes + numInputGenes + numWeightGenes + numOutputGenes
      in
      bnd (numGenesToMutateANN params) (\<lambda>n.
      bnd (while_do (\<lambda>(c, s, counter). counter < n)
             (\<lambda>(c, s, counter).
                bnd (randInt L numGenes s) (\<lambda>(geneToMutate, s1).
                if geneToMutate < numFunctionGenes then
                  (let nodeIndex = geneToMutate in
                   bnd (arr_get (nodes c) nodeIndex) (\<lambda>nd.
                   let counter' = (if active nd = 1 then counter + 1 else counter) in
                   bnd (getRandomFunction L (numFunctions (chromosome.funcSet c)) s1) (\<lambda>(v, s2).
                   bnd (set_function_gene c nodeIndex v) (\<lambda>c'. Inr (c', s2, counter')))))
                else if geneToMutate < numFunctionGenes + numInputGenes then
                  bnd (c_div (geneToMutate - numFunctionGenes) (arity c)) (\<lambda>nodeIndex.
                  bnd (c_rem (geneToMutate - numFunctionGenes) (arity c)) (\<lambda>nodeInputIndex.
                  bnd (arr_get (nodes c) nodeIndex) (\<lambda>nd.
                  let counter' = (if active nd = 1 then counter + 1 else counter) in
                  bnd (getRandomNodeInput L (numInputs c) (numNodes c) nodeIndex
                         (recurrentConnectionProbability params) s1) (\<lambda>(v, s2).
                  bnd (set_input_gene c nodeIndex nodeInputIndex v) (\<lambda>c'.
                  Inr (c', s2, counter'))))))
                else if geneToMutate < numFunctionGenes + numInputGenes + numWeightGenes then
                  bnd (c_div (geneToMutate - numFunctionGenes - numInputGenes) (arity c)) (\<lambda>nodeIndex.
                  bnd (c_rem (geneToMutate - numFunctionGenes - numInputGenes) (arity c)) (\<lambda>nodeInputIndex.
                  bnd (arr_get (nodes c) nodeIndex) (\<lambda>nd.
                  let counter' = (if active nd = 1 then counter + 1 else counter) in
                  bnd (getRandomConnectionWeight L (connectionWeightRange params) s1) (\<lambda>(w, s2).
                  bnd (set_weight_gene c nodeIndex nodeInputIndex w) (\<lambda>c'.
                  Inr (c', s2, counter'))))))
                else
                  (let nodeIndex = geneToMutate - numFunctionGenes - numInputGenes - numWeightGenes in
                   bnd (getRandomChromosomeOutput L (numInputs c) (numNodes c)
                          (shortcutConnections params) s1) (\<lambda>(v, s2).
                   bnd (set_output_gene c nodeIndex v) (\<lambda>c'. Inr (c', s2, counter + 1))))))
             (chromo, s0, 0)) (\<lambda>(c, s, counter). Inr (c, s))))"

definition singleMutation ::
  "'g libc \<Rightarrow> 'g parameters \<Rightarrow> 'g chromosome \<Rightarrow> int \<Rightarrow> seed \<Rightarrow> error + ('g chromosome \<times> seed)" where
  "singleMutation L params chromo type s0 =
     (let numFunctionGenes = parameters.numNodes params;
          numInputGenes = parameters.numNodes params * parameters.arity params;
          numOutputGenes = parameters.numOutputs params;
          numGenes = numFunctionGenes + numInputGenes + numOutputGenes
      in
      bnd (while_do (\<lambda>(c, s, mutatedActive). mutatedActive = (0 :: int))
             (\<lambda>(c, s, mutatedActive).
                bnd (randInt L numGenes s) (\<lambda>(geneToMutate, s1).
                if geneToMutate < numFunctionGenes then
                  (let nodeIndex = geneToMutate in
                   bnd (arr_get (nodes c) nodeIndex) (\<lambda>nd.
                   let previousGeneValue = func nd in
                   bnd (getRandomFunction L (numFunctions (chromosome.funcSet c)) s1) (\<lambda>(v, s2).
                   bnd (set_function_gene c nodeIndex v) (\<lambda>c'.
                   Inr (c', s2, if previousGeneValue \<noteq> v \<and> active nd = 1 then 1
                                else mutatedActive)))))
                else if geneToMutate < numFunctionGenes + numInputGenes then
                  bnd (c_div (geneToMutate - numFunctionGenes) (arity c)) (\<lambda>nodeIndex.
                  bnd (c_rem (geneToMutate - numFunctionGenes) (arity c)) (\<lambda>nodeInputIndex.
                  bnd (arr_get (nodes c) nodeIndex) (\<lambda>nd.
                  bnd (arr_get (inputs nd) nodeInputIndex) (\<lambda>previousGeneValue.
                  bnd (getRandomNodeInput L (numInputs c) (numNodes c) nodeIndex
                         (recurrentConnectionProbability params) s1) (\<lambda>(v, s2).
                  bnd (set_input_gene c nodeIndex nodeInputIndex v) (\<lambda>c'.
                  Inr (c', s2, if previousGeneValue \<noteq> v \<and> active nd = 1 then 1
                               else mutatedActive)))))))
                else
                  (let nodeIndex = geneToMutate - numFunctionGenes - numInputGenes in
                   bnd (arr_get (outputNodes c) nodeIndex) (\<lambda>previousGeneValue.
                   bnd (getRandomChromosomeOutput L (numInputs c) (numNodes c)
                          (shortcutConnections params) s1) (\<lambda>(v, s2).
                   bnd (set_output_gene c nodeIndex v) (\<lambda>c'.
                   Inr (c', s2, if previousGeneValue \<noteq> v then 1 else mutatedActive)))))))
             (chromo, s0, 0)) (\<lambda>(c, s, mutatedActive). Inr (c, s)))"

definition mutateChromosome ::
  "'g libc \<Rightarrow> 'g parameters \<Rightarrow> 'g chromosome \<Rightarrow> int \<Rightarrow> seed \<Rightarrow> error + ('g chromosome \<times> seed)" where
  "mutateChromosome L params chromo type s =
     bnd (case mutationType params of
            ProbabilisticMutation \<Rightarrow> probabilisticMutation L params chromo type s
          | PointMutation \<Rightarrow> pointMutation L params chromo type s
          | PointMutationANN \<Rightarrow> pointMutationANN L params chromo type s
          | ProbabilisticMutationOnlyActive \<Rightarrow> probabilisticMutationOnlyActive L params chromo type s
          | SingleMutation \<Rightarrow> singleMutation L params chromo type s) (\<lambda>(c, s').
     bnd (setChromosomeActiveNodes c) (\<lambda>c'. Inr (c', s')))"

section \<open>Reproduction\<close>

definition mutateRandomParent ::
  "'g libc \<Rightarrow> 'g parameters \<Rightarrow> 'g chromosome list \<Rightarrow> 'g chromosome list \<Rightarrow> int \<Rightarrow> int \<Rightarrow> int \<Rightarrow> seed
     \<Rightarrow> error + ('g chromosome list \<times> seed)" where
  "mutateRandomParent L params parents children numParents numChildren type s0 =
     for_loop 0 numChildren
       (\<lambda>i (children, s).
          bnd (randInt L numParents s) (\<lambda>(r, s1).
          bnd (arr_get parents r) (\<lambda>parent.
          bnd (arr_get children i) (\<lambda>child.
          bnd (copyChromosome child parent) (\<lambda>clone.
          bnd (mutateChromosome L params clone type s1) (\<lambda>(child', s2).
          bnd (arr_set children i child') (\<lambda>children'.
          Inr (children', s2))))))))
       (children, s0)"

text \<open>
  The structural genes of a chromosome: the function gene of a node, an input gene
  of a node, an output gene; and the value of each.
\<close>

datatype gene = FunctionGene nat | InputGene nat nat | OutputGene nat

definition gene_slots :: "'g chromosome \<Rightarrow> gene set" where
  "gene_slots c =
     FunctionGene ` {i. i < length (nodes c)}
     \<union> (\<lambda>(i, j). InputGene i j) ` {(i, j). i < length (nodes c) \<and> j < length (inputs (nodes c ! i))}
     \<union> OutputGene ` {i. i < length (outputNodes c)}"

fun gene_value :: "'g chromosome \<Rightarrow> gene \<Rightarrow> int" where
  "gene_value c (FunctionGene i) = func (nodes c ! i)"
| "gene_value c (InputGene i j) = inputs (nodes c ! i) ! j"
| "gene_value c (OutputGene i) = outputNodes c ! i"

definition changed_genes :: "'g chromosome \<Rightarrow> 'g chromosome \<Rightarrow> gene set" where
  "changed_genes c c' = {g \<in> gene_slots c. gene_value c' g \<noteq> gene_value c g}"

text \<open>A step that leaves every gene but one as it was, and every weight.\<close>

definition one_gene :: "'g chromosome \<Rightarrow> 'g chromosome \<Rightarrow> bool" where
  "one_gene c c' \<longleftrightarrow>
     gene_slots c' = gene_slots c \<and> map weights (nodes c') = map weights (nodes c) \<and>
     (\<exists>g. \<forall>h. h \<noteq> g \<longrightarrow> gene_value c' h = gene_value c h)"

text \<open>
  The gene that a number drawn from \<open>[0, numGenes)\<close> stands for: the function genes come
  first, one for each node; then the input genes, node after node, as many for each
  node as the arity; then the output genes.
\<close>

definition slot_of_index :: "'g parameters \<Rightarrow> 'g chromosome \<Rightarrow> int \<Rightarrow> gene \<Rightarrow> bool" where
  "slot_of_index params c g slot \<longleftrightarrow>
     (let numFunctionGenes = parameters.numNodes params;
          numInputGenes = parameters.numNodes params * parameters.arity params
      in
      (g < numFunctionGenes \<and> slot = FunctionGene (nat g)) \<or>
      (numFunctionGenes \<le> g \<and> g < numFunctionGenes + numInputGenes \<and>
         (\<exists>i j. slot = InputGene i j \<and> int j < \<bar>arity c\<bar> \<and>
                int i * arity c + int j = g - numFunctionGenes)) \<or>
      (numFunctionGenes + numInputGenes \<le> g \<and>
         slot = OutputGene (nat (g - numFunctionGenes - numInputGenes))))"

text \<open>The draw of a new value for a gene, by the kind of the gene.\<close>

definition redraw_value ::
  "'g libc \<Rightarrow> 'g parameters \<Rightarrow> 'g chromosome \<Rightarrow> gene \<Rightarrow> seed \<Rightarrow> error + (int \<times> seed)" where
  "redraw_value L params c slot s =
     (case slot of
        FunctionGene i \<Rightarrow> getRandomFunction L (numFunctions (chromosome.funcSet c)) s
      | InputGene i j \<Rightarrow>
          getRandomNodeInput L (numInputs c) (numNodes c) (int i)
            (recurrentConnectionProbability params) s
      | OutputGene i \<Rightarrow>
          getRandomChromosomeOutput L (numInputs c) (numNodes c) (shortcutConnections params) s)"

text \<open>
  One redraw, as a relation between the chromosome and the seed before and after: a
  number is drawn by \<^verbatim>\<open>randInt(numGenes)\<close> from the seed, whatever was drawn before; the
  gene it stands for is a gene of the chromosome and takes the value drawn for it next;
  every other gene and every weight stay as they are.
\<close>

definition one_redraw ::
  "'g libc \<Rightarrow> 'g parameters \<Rightarrow> 'g chromosome \<times> seed \<Rightarrow> 'g chromosome \<times> seed \<Rightarrow> bool" where
  "one_redraw L params cs cs' \<longleftrightarrow>
     (\<exists>g s1 slot v.
        randInt L (parameters.numNodes params
                   + parameters.numNodes params * parameters.arity params
                   + parameters.numOutputs params) (snd cs) = Inr (g, s1) \<and>
        slot_of_index params (fst cs) g slot \<and> slot \<in> gene_slots (fst cs) \<and>
        redraw_value L params (fst cs) slot s1 = Inr (v, snd cs') \<and>
        gene_value (fst cs') slot = v \<and>
        (\<forall>h. h \<noteq> slot \<longrightarrow> gene_value (fst cs') h = gene_value (fst cs) h) \<and>
        gene_slots (fst cs') = gene_slots (fst cs) \<and>
        map weights (nodes (fst cs')) = map weights (nodes (fst cs)))"

section \<open>Accessors\<close>

definition getChromosomeOutput :: "'g chromosome \<Rightarrow> int \<Rightarrow> error + double" where
  "getChromosomeOutput chromo out =
     (if out < 0 \<or> out > numOutputs chromo then Inl Exit
      else arr_get (outputValues chromo) out)"

definition getChromosomeNodeValue :: "'g chromosome \<Rightarrow> int \<Rightarrow> error + double" where
  "getChromosomeNodeValue chromo nd =
     (if nd < 0 \<or> nd > numNodes chromo then Inl Exit
      else case arr_get (nodes chromo) nd of
             Inl e \<Rightarrow> Inl e
           | Inr n \<Rightarrow> Inr (output n))"


section \<open>Fitness\<close>

definition resetChromosome :: "'g chromosome \<Rightarrow> error + 'g chromosome" where
  "resetChromosome chromo =
     for_loop 0 (numNodes chromo)
       (\<lambda>i c.
          bnd (arr_get (nodes c) i) (\<lambda>n.
          bnd (arr_set (nodes c) i (n\<lparr>output := Fin 0\<rparr>)) (\<lambda>nds.
          Inr (c\<lparr>nodes := nds\<rparr>))))
       chromo"

definition setChromosomeFitness ::
  "'g schemes \<Rightarrow> 'g parameters \<Rightarrow> 'g chromosome \<Rightarrow> dataSet \<Rightarrow> 'g \<Rightarrow> error + ('g chromosome \<times> 'g)" where
  "setChromosomeFitness fp params chromo data g =
     bnd (setChromosomeActiveNodes chromo) (\<lambda>c1.
     bnd (resetChromosome c1) (\<lambda>c2.
     bnd (fitnessFunction fp params c2 data g) (\<lambda>(fit, c3, g').
     Inr (c3\<lparr>fitness := fit\<rparr>, g'))))"

definition setChromosomeFitnessValidation ::
  "'g schemes \<Rightarrow> 'g parameters \<Rightarrow> 'g chromosome \<Rightarrow> dataSet \<Rightarrow> 'g \<Rightarrow> error + ('g chromosome \<times> 'g)" where
  "setChromosomeFitnessValidation fp params chromo data g =
     bnd (setChromosomeActiveNodes chromo) (\<lambda>c1.
     bnd (resetChromosome c1) (\<lambda>c2.
     bnd (fitnessFunction fp params c2 data g) (\<lambda>(fit, c3, g').
     Inr (c3\<lparr>fitnessValidation := fit\<rparr>, g'))))"

definition supervisedLearning ::
  "'g parameters \<Rightarrow> 'g chromosome \<Rightarrow> dataSet \<Rightarrow> 'g \<Rightarrow> error + (double \<times> 'g chromosome \<times> 'g)" where
  "supervisedLearning params chromo data g0 =
     (if numInputs chromo \<noteq> dataSet.numInputs data then Inl Exit
      else if numOutputs chromo \<noteq> dataSet.numOutputs data then Inl Exit
      else
        for_loop 0 (numSamples data)
          (\<lambda>i (err, c, g).
             bnd (arr_get (inputData data) i) (\<lambda>ins.
             bnd (executeChromosome c ins g) (\<lambda>(c', g').
             bnd (for_loop 0 (numOutputs c')
                    (\<lambda>j err.
                       bnd (getChromosomeOutput c' j) (\<lambda>out.
                       bnd (arr_get (outputData data) i) (\<lambda>row.
                       bnd (arr_get row j) (\<lambda>target.
                       Inr (dadd err (dabs (dsub out target)))))))
                    err) (\<lambda>err'.
             Inr (err', c', g')))))
          (Fin 0, chromo, g0))"

section \<open>Creating chromosomes\<close>

text \<open>
  Memory from \<^verbatim>\<open>malloc\<close> that the source does not set before it is read or copied
  (the actual arity of a new node, the generation of a new chromosome, the arrays
  before they are filled) is zero in the model.
\<close>

definition initialiseNode ::
  "'g libc \<Rightarrow> int \<Rightarrow> int \<Rightarrow> int \<Rightarrow> int \<Rightarrow> double \<Rightarrow> double \<Rightarrow> int \<Rightarrow> seed \<Rightarrow> error + (node \<times> seed)" where
  "initialiseNode L numInputs' numNodes' arity' numFunctions' connectionWeightRange'
       recurrentConnectionProbability' nodePosition s0 =
     bnd (getRandomFunction L numFunctions' s0) (\<lambda>(f, s1).
     bnd (for_loop 0 arity'
            (\<lambda>i (n, s).
               bnd (getRandomNodeInput L numInputs' numNodes' nodePosition
                      recurrentConnectionProbability' s) (\<lambda>(v, s').
               bnd (arr_set (inputs n) i v) (\<lambda>ins.
               bnd (getRandomConnectionWeight L connectionWeightRange' s') (\<lambda>(w, s'').
               bnd (arr_set (weights n) i w) (\<lambda>ws.
               Inr (n\<lparr>inputs := ins, weights := ws\<rparr>, s''))))))
            (\<lparr>func = f, inputs = replicate (nat arity') 0,
              weights = replicate (nat arity') (Fin 0), active = 1, output = Fin 0,
              maxArity = 0, actArity = 0\<rparr>, s1)) (\<lambda>(n, s2).
     Inr (n\<lparr>output := Fin 0, maxArity := arity'\<rparr>, s2)))"

definition initialiseChromosome :: "'g libc \<Rightarrow> 'g parameters \<Rightarrow> seed \<Rightarrow> error + ('g chromosome \<times> seed)" where
  "initialiseChromosome L params s0 =
     (if numFunctions (parameters.funcSet params) < 1 then Inl Exit
      else
        bnd (for_loop 0 (parameters.numNodes params)
               (\<lambda>i (nds, s).
                  bnd (initialiseNode L (parameters.numInputs params) (parameters.numNodes params)
                         (parameters.arity params) (numFunctions (parameters.funcSet params))
                         (connectionWeightRange params) (recurrentConnectionProbability params)
                         i s) (\<lambda>(n, s').
                  Inr (nds @ [n], s')))
               ([], s0)) (\<lambda>(nds, s1).
        bnd (for_loop 0 (parameters.numOutputs params)
               (\<lambda>i (outs, s).
                  bnd (getRandomChromosomeOutput L (parameters.numInputs params)
                         (parameters.numNodes params) (shortcutConnections params) s) (\<lambda>(v, s').
                  Inr (outs @ [v], s')))
               ([], s1)) (\<lambda>(outs, s2).
        bnd (setChromosomeActiveNodes
               \<lparr>numInputs = parameters.numInputs params,
                numOutputs = parameters.numOutputs params,
                numNodes = parameters.numNodes params,
                numActiveNodes = parameters.numNodes params,
                arity = parameters.arity params,
                nodes = nds, outputNodes = outs,
                activeNodes = replicate (nat (parameters.numNodes params)) 0,
                fitness = Fin 0, fitnessValidation = Fin 0,
                outputValues = replicate (nat (parameters.numOutputs params)) (Fin 0),
                funcSet = copyFunctionSet
                  \<lparr>numFunctions = 0, functionNames = [], maxNumInputs = [], functions = []\<rparr>
                  (parameters.funcSet params),
                nodeInputsHold = replicate (nat (parameters.arity params)) (Fin 0),
                generation = 0\<rparr>) (\<lambda>c. Inr (c, s2)))))"

definition initialiseChromosomeFromChromosome ::
  "'g libc \<Rightarrow> 'g chromosome \<Rightarrow> seed \<Rightarrow> error + ('g chromosome \<times> seed)" where
  "initialiseChromosomeFromChromosome L chromo s0 =
     bnd (for_loop 0 (numNodes chromo)
            (\<lambda>i (nds, s).
               bnd (initialiseNode L (numInputs chromo) (numNodes chromo) (arity chromo)
                      (numFunctions (chromosome.funcSet chromo)) (Fin 0) (Fin 0) i s) (\<lambda>(n, s').
               bnd (arr_get (nodes chromo) i) (\<lambda>src.
               bnd (copyNode n src) (\<lambda>n'.
               Inr (nds @ [n'], s')))))
            ([], s0)) (\<lambda>(nds, s1).
     bnd (for_loop 0 (numOutputs chromo)
            (\<lambda>i outs.
               bnd (arr_get (outputNodes chromo) i) (\<lambda>v. Inr (outs @ [v])))
            []) (\<lambda>outs.
     bnd (setChromosomeActiveNodes
            \<lparr>numInputs = numInputs chromo, numOutputs = numOutputs chromo,
             numNodes = numNodes chromo, numActiveNodes = 0, arity = arity chromo,
             nodes = nds, outputNodes = outs,
             activeNodes = replicate (nat (numNodes chromo)) 0,
             fitness = fitness chromo, fitnessValidation = fitnessValidation chromo,
             outputValues = replicate (nat (numOutputs chromo)) (Fin 0),
             funcSet = copyFunctionSet
               \<lparr>numFunctions = 0, functionNames = [], maxNumInputs = [], functions = []\<rparr>
               (chromosome.funcSet chromo),
             nodeInputsHold = replicate (nat (arity chromo)) (Fin 0),
             generation = generation chromo\<rparr>) (\<lambda>c. Inr (c, s1))))"


section \<open>The generations of the evolution\<close>

definition getBestChromosome ::
  "'g chromosome list \<Rightarrow> 'g chromosome list \<Rightarrow> int \<Rightarrow> int \<Rightarrow> 'g chromosome \<Rightarrow> error + 'g chromosome" where
  "getBestChromosome parents children numParents numChildren best =
     bnd (for_loop 0 numParents
            (\<lambda>i (bestChromoSoFar, flag).
               bnd (arr_get parents i) (\<lambda>p.
               if dle (fitnessValidation p) (fitnessValidation bestChromoSoFar)
               then Inr (p, 1 :: int) else Inr (bestChromoSoFar, flag)))
            (best, 0)) (\<lambda>(b1, flag1).
     bnd (for_loop 0 numChildren
            (\<lambda>i (bestChromoSoFar, flag).
               bnd (arr_get children i) (\<lambda>c.
               if dle (fitnessValidation c) (fitnessValidation bestChromoSoFar)
               then Inr (c, 1) else Inr (bestChromoSoFar, flag)))
            (b1, flag1)) (\<lambda>(b2, flag2).
     if flag2 = 1 then copyChromosome best b2 else Inr best))"

text \<open>
  What the loop over the generations works on: the parents, the children, the
  candidates of the selection, the best chromosome so far, the seed and the global
  state.
\<close>

record 'g population =
  parentChromos :: "'g chromosome list"
  childrenChromos :: "'g chromosome list"
  candidateChromos :: "'g chromosome list"
  bestChromo :: "'g chromosome"
  seedOf :: seed
  globalOf :: 'g

text \<open>
  One generation. The loops over the generations of \<^verbatim>\<open>runCGP\<close> and of \<^verbatim>\<open>runCGPDE_OUT\<close>
  have the same body but for the argument \<^verbatim>\<open>type\<close> that they give to the reproduction
  scheme, which is the argument \<open>type\<close> here.
\<close>

definition generation_step ::
  "'g schemes \<Rightarrow> 'g parameters \<Rightarrow> dataSet \<Rightarrow> dataSet \<Rightarrow> int \<Rightarrow> int \<Rightarrow> 'g population
     \<Rightarrow> error + 'g population" where
  "generation_step fp params dataTrain dataValid numCandidateChromos type pop =
     bnd (for_loop 0 (lambda params)
            (\<lambda>i (children, g).
               bnd (arr_get children i) (\<lambda>c.
               bnd (setChromosomeFitness fp params c dataTrain g) (\<lambda>(c1, g1).
               bnd (setChromosomeFitnessValidation fp params c1 dataValid g1) (\<lambda>(c2, g2).
               bnd (arr_set children i c2) (\<lambda>children'.
               Inr (children', g2))))))
            (childrenChromos pop, globalOf pop)) (\<lambda>(children, g).
     bnd (getBestChromosome (parentChromos pop) children (mu params) (lambda params)
            (bestChromo pop)) (\<lambda>best.
     bnd (if evolutionaryStrategy params = CHR ''+'' then
            for_loop 0 numCandidateChromos
              (\<lambda>i cands.
                 bnd (arr_get cands i) (\<lambda>cand.
                 bnd (if i < lambda params then arr_get children i
                      else arr_get (parentChromos pop) (i - lambda params)) (\<lambda>src.
                 bnd (copyChromosome cand src) (\<lambda>cand'.
                 arr_set cands i cand'))))
              (candidateChromos pop)
          else if evolutionaryStrategy params = CHR '','' then
            for_loop 0 numCandidateChromos
              (\<lambda>i cands.
                 bnd (arr_get cands i) (\<lambda>cand.
                 bnd (arr_get children i) (\<lambda>src.
                 bnd (copyChromosome cand src) (\<lambda>cand'.
                 arr_set cands i cand'))))
              (candidateChromos pop)
          else Inr (candidateChromos pop)) (\<lambda>cands.
     bnd (selectionScheme fp params (parentChromos pop) cands (mu params) numCandidateChromos)
       (\<lambda>(parents, cands').
     bnd (reproductionScheme fp params parents children (mu params) (lambda params) type
            (seedOf pop)) (\<lambda>(children', s').
     Inr (pop\<lparr>parentChromos := parents, childrenChromos := children',
              candidateChromos := cands', bestChromo := best, seedOf := s',
              globalOf := g\<rparr>))))))"

section \<open>Differential evolution\<close>

definition getNumChromosomeWeights :: "'g chromosome \<Rightarrow> int" where
  "getNumChromosomeWeights chromo = numNodes chromo * arity chromo"

definition transferWeightsVectorToChromo ::
  "'g parameters \<Rightarrow> 'g DEChromosome \<Rightarrow> error + 'g DEChromosome" where
  "transferWeightsVectorToChromo params DEChromo =
     bnd (for_loop 0 (numNodes (dechromo DEChromo))
            (\<lambda>i (c, counter).
               for_loop 0 (arity c)
                 (\<lambda>j (c, counter).
                    bnd (arr_get (weightsVector DEChromo) counter) (\<lambda>w.
                    bnd (set_weight_gene c i j w) (\<lambda>c'.
                    Inr (c', counter + 1))))
                 (c, counter))
            (dechromo DEChromo, 0)) (\<lambda>(c, counter).
     Inr (DEChromo\<lparr>dechromo := c\<rparr>))"

definition initialiseDEChromosome ::
  "'g libc \<Rightarrow> 'g schemes \<Rightarrow> 'g parameters \<Rightarrow> 'g chromosome \<Rightarrow> dataSet \<Rightarrow> seed \<Rightarrow> 'g
     \<Rightarrow> error + ('g DEChromosome \<times> seed \<times> 'g)" where
  "initialiseDEChromosome L fp params chromo data s0 g0 =
     (let numWeights = getNumChromosomeWeights chromo in
      bnd (initialiseChromosomeFromChromosome L chromo s0) (\<lambda>(c, s1).
      bnd (for_loop 0 numWeights
             (\<lambda>i (wv, s).
                bnd (getRandomConnectionWeight L (connectionWeightRange params) s) (\<lambda>(w, s').
                bnd (arr_set wv i w) (\<lambda>wv'. Inr (wv', s'))))
             (replicate (nat numWeights) (Fin 0), s1)) (\<lambda>(wv, s2).
      bnd (transferWeightsVectorToChromo params \<lparr>dechromo = c, weightsVector = wv\<rparr>) (\<lambda>d.
      bnd (setChromosomeFitness fp params (dechromo d) data g0) (\<lambda>(c', g1).
      Inr (d\<lparr>dechromo := c'\<rparr>, s2, g1))))))"

text \<open>The population size and the number of iterations that \<^verbatim>\<open>type\<close> selects.\<close>

definition NP_of :: "'g parameters \<Rightarrow> int \<Rightarrow> int" where
  "NP_of params type = (if type = 1 then NP_IN params else if type = 2 then NP_OUT params else 0)"

definition maxIter_of :: "'g parameters \<Rightarrow> int \<Rightarrow> int" where
  "maxIter_of params type =
     (if type = 1 then maxIter_IN params else if type = 2 then maxIter_OUT params else 0)"

definition initialiseDEPopulation ::
  "'g libc \<Rightarrow> 'g schemes \<Rightarrow> 'g parameters \<Rightarrow> 'g chromosome \<Rightarrow> dataSet \<Rightarrow> int \<Rightarrow> seed \<Rightarrow> 'g
     \<Rightarrow> error + ('g DEChromosome list \<times> seed \<times> 'g)" where
  "initialiseDEPopulation L fp params chromo data type s0 g0 =
     (let NP = NP_of params type;
          numWeights = getNumChromosomeWeights chromo
      in
      bnd (for_loop 0 NP
             (\<lambda>i (ds, s).
                bnd (initialiseChromosomeFromChromosome L chromo s) (\<lambda>(c, s').
                Inr (ds @ [\<lparr>dechromo = c, weightsVector = replicate (nat numWeights) (Fin 0)\<rparr>], s')))
             ([], s0)) (\<lambda>(ds, s1).
      bnd (arr_get ds 0) (\<lambda>d0.
      bnd (for_loop 0 (numNodes (dechromo d0))
             (\<lambda>i (wv, counter).
                for_loop 0 (arity (dechromo d0))
                  (\<lambda>j (wv, counter).
                     bnd (arr_get (nodes chromo) i) (\<lambda>n.
                     bnd (arr_get (weights n) j) (\<lambda>w.
                     bnd (arr_set wv counter w) (\<lambda>wv'.
                     Inr (wv', counter + 1)))))
                  (wv, counter))
             (weightsVector d0, 0)) (\<lambda>(wv0, counter).
      bnd (setChromosomeFitness fp params (dechromo d0) data g0) (\<lambda>(c0, g1).
      bnd (arr_set ds 0 (d0\<lparr>dechromo := c0, weightsVector := wv0\<rparr>)) (\<lambda>ds1.
      bnd (for_loop 1 NP
             (\<lambda>i (ds, s).
                bnd (arr_get ds i) (\<lambda>d.
                bnd (for_loop 0 numWeights
                       (\<lambda>j (wv, s).
                          bnd (getRandomConnectionWeight L (connectionWeightRange params) s) (\<lambda>(w, s').
                          bnd (arr_set wv j w) (\<lambda>wv'. Inr (wv', s'))))
                       (weightsVector d, s)) (\<lambda>(wv, s').
                bnd (arr_set ds i (d\<lparr>weightsVector := wv\<rparr>)) (\<lambda>ds'. Inr (ds', s')))))
             (ds1, s1)) (\<lambda>(ds2, s2).
      bnd (for_loop 1 NP
             (\<lambda>i (ds, g).
                bnd (arr_get ds i) (\<lambda>d.
                bnd (transferWeightsVectorToChromo params d) (\<lambda>d'.
                bnd (setChromosomeFitness fp params (dechromo d') data g) (\<lambda>(c', g').
                bnd (arr_set ds i (d'\<lparr>dechromo := c'\<rparr>)) (\<lambda>ds'. Inr (ds', g'))))))
             (ds2, g1)) (\<lambda>(ds3, g2).
      Inr (ds3, s2, g2)))))))))"

text \<open>
  The three donors and the forced coordinate, and the trial vector built from them
  in \<^verbatim>\<open>DEChromo_u\<close>: the first part of the body of the loop over the individuals.
\<close>

definition runDE_trial ::
  "'g libc \<Rightarrow> 'g parameters \<Rightarrow> 'g DEChromosome list \<Rightarrow> 'g DEChromosome \<Rightarrow> int \<Rightarrow> int \<Rightarrow> int \<Rightarrow> seed
     \<Rightarrow> error + ('g DEChromosome \<times> seed)" where
  "runDE_trial L params DEChromos DEChromo_u i NP numWeights s0 =
     bnd (do_while (\<lambda>(r, s). randInt L NP s) (\<lambda>(r, s). r = i) (0, s0)) (\<lambda>(r1, s1).
     bnd (do_while (\<lambda>(r, s). randInt L NP s) (\<lambda>(r, s). r = i \<or> r = r1) (0, s1)) (\<lambda>(r2, s2).
     bnd (do_while (\<lambda>(r, s). randInt L NP s) (\<lambda>(r, s). r = i \<or> r = r1 \<or> r = r2) (0, s2))
       (\<lambda>(r3, s3).
     bnd (randInt L numWeights s3) (\<lambda>(jr, s4).
     for_loop 0 numWeights
       (\<lambda>j (u, s).
          bnd (randDecimal L s) (\<lambda>(rj, s').
          if dlt rj (CR params) \<or> j = jr then
            bnd (arr_get DEChromos r3) (\<lambda>d3.
            bnd (arr_get (weightsVector d3) j) (\<lambda>w3.
            bnd (arr_get DEChromos r1) (\<lambda>d1.
            bnd (arr_get (weightsVector d1) j) (\<lambda>w1.
            bnd (arr_get DEChromos r2) (\<lambda>d2.
            bnd (arr_get (weightsVector d2) j) (\<lambda>w2.
            bnd (arr_set (weightsVector u) j (dadd w3 (dmul (F params) (dsub w1 w2)))) (\<lambda>wv.
            Inr (u\<lparr>weightsVector := wv\<rparr>, s'))))))))
          else
            bnd (arr_get DEChromos i) (\<lambda>di.
            bnd (arr_get (weightsVector di) j) (\<lambda>wi.
            bnd (arr_set (weightsVector u) j wi) (\<lambda>wv.
            Inr (u\<lparr>weightsVector := wv\<rparr>, s'))))))
       (DEChromo_u, s4)))))"


text \<open>A fitness after a step is not worse than before: it is the same, or less or equal.\<close>

definition not_worse :: "double \<Rightarrow> double \<Rightarrow> bool" where
  "not_worse before after \<longleftrightarrow> after = before \<or> dle after before"

text \<open>\<^verbatim>\<open>memcpy\<close> of \<open>n\<close> doubles.\<close>

definition memcpy_doubles :: "double list \<Rightarrow> double list \<Rightarrow> int \<Rightarrow> error + double list" where
  "memcpy_doubles dst src n =
     (if 0 \<le> n \<and> n \<le> int (length src) \<and> n \<le> int (length dst)
      then Inr (take (nat n) src @ drop (nat n) dst) else Inl Fault)"

text \<open>
  What the sweeps of \<^verbatim>\<open>runDE\<close> work on: the population, the trial individual, the seed
  and the global state.
\<close>

record 'g DEstate =
  DEChromos :: "'g DEChromosome list"
  DEChromo_u :: "'g DEChromosome"
  DEseed :: seed
  DEglobal :: 'g

text \<open>The body of the loop over the individuals, for the target \<open>i\<close>.\<close>

definition runDE_target ::
  "'g libc \<Rightarrow> 'g schemes \<Rightarrow> 'g parameters \<Rightarrow> dataSet \<Rightarrow> int \<Rightarrow> int \<Rightarrow> int \<Rightarrow> 'g DEstate
     \<Rightarrow> error + 'g DEstate" where
  "runDE_target L fp params dataTrain NP numWeights i st =
     bnd (runDE_trial L params (DEChromos st) (DEChromo_u st) i NP numWeights (DEseed st))
       (\<lambda>(u1, s1).
     bnd (transferWeightsVectorToChromo params u1) (\<lambda>u2.
     bnd (setChromosomeFitness fp params (dechromo u2) dataTrain (DEglobal st)) (\<lambda>(cu, g1).
     let u3 = u2\<lparr>dechromo := cu\<rparr>;
         fit_u = fitness cu
     in
     bnd (arr_get (DEChromos st) i) (\<lambda>di.
     let fit_s = fitness (dechromo di) in
     if dle fit_u fit_s then
       bnd (copyChromosome (dechromo di) cu) (\<lambda>ci.
       bnd (memcpy_doubles (weightsVector di) (weightsVector u3) numWeights) (\<lambda>wv.
       bnd (arr_set (DEChromos st) i (di\<lparr>dechromo := ci, weightsVector := wv\<rparr>)) (\<lambda>ds.
       Inr (st\<lparr>DEChromos := ds, DEChromo_u := u3, DEseed := s1, DEglobal := g1\<rparr>))))
     else Inr (st\<lparr>DEChromo_u := u3, DEseed := s1, DEglobal := g1\<rparr>)))))"

text \<open>The loop over the iterations and, inside, over the individuals.\<close>

definition runDE_sweeps ::
  "'g libc \<Rightarrow> 'g schemes \<Rightarrow> 'g parameters \<Rightarrow> dataSet \<Rightarrow> int \<Rightarrow> int \<Rightarrow> int \<Rightarrow> 'g DEstate
     \<Rightarrow> error + 'g DEstate" where
  "runDE_sweeps L fp params dataTrain maxIter NP numWeights st0 =
     for_loop 0 maxIter
       (\<lambda>t st. for_loop 0 NP (\<lambda>i st. runDE_target L fp params dataTrain NP numWeights i st) st)
       st0"

definition runDE ::
  "'g libc \<Rightarrow> 'g schemes \<Rightarrow> 'g parameters \<Rightarrow> 'g chromosome \<Rightarrow> dataSet \<Rightarrow> dataSet \<Rightarrow> int \<Rightarrow> seed \<Rightarrow> 'g
     \<Rightarrow> error + ('g chromosome list \<times> seed \<times> 'g)" where
  "runDE L fp params chromo dataTrain dataValid type s0 g0 =
     (let maxIter = maxIter_of params type;
          NP = NP_of params type
      in
      bnd (initialiseDEPopulation L fp params chromo dataTrain type s0 g0) (\<lambda>(ds, s1, g1).
      let numWeights = getNumChromosomeWeights chromo in
      bnd (initialiseDEChromosome L fp params chromo dataTrain s1 g1) (\<lambda>(u, s2, g2).
      bnd (runDE_sweeps L fp params dataTrain maxIter NP numWeights
             \<lparr>DEChromos = ds, DEChromo_u = u, DEseed = s2, DEglobal = g2\<rparr>) (\<lambda>st.
      bnd (for_loop 0 NP
             (\<lambda>i (cs, s).
                bnd (arr_get (DEChromos st) i) (\<lambda>d.
                bnd (initialiseChromosomeFromChromosome L (dechromo d) s) (\<lambda>(c, s').
                Inr (cs @ [c], s'))))
             ([], DEseed st)) (\<lambda>(populationChromos, s3).
      Inr (populationChromos, s3, DEglobal st))))))"

section \<open>The hybrid with the differential evolution after the generations\<close>

text \<open>The loop over the generations of \<^verbatim>\<open>runCGP\<close>, from the populations it has set up.\<close>

definition runCGP_generations ::
  "'g schemes \<Rightarrow> 'g parameters \<Rightarrow> dataSet \<Rightarrow> dataSet \<Rightarrow> int \<Rightarrow> int \<Rightarrow> 'g population
     \<Rightarrow> error + 'g population" where
  "runCGP_generations fp params dataTrain dataValid numCandidateChromos numGens pop0 =
     for_loop 0 numGens
       (\<lambda>gen pop. generation_step fp params dataTrain dataValid numCandidateChromos 0 pop)
       pop0"

text \<open>The loop over the generations of \<^verbatim>\<open>runCGPDE_OUT\<close>, from the populations it has set up.\<close>

definition runCGPDE_OUT_generations ::
  "'g schemes \<Rightarrow> 'g parameters \<Rightarrow> dataSet \<Rightarrow> dataSet \<Rightarrow> int \<Rightarrow> int \<Rightarrow> 'g population
     \<Rightarrow> error + 'g population" where
  "runCGPDE_OUT_generations fp params dataTrain dataValid numCandidateChromos numGens pop0 =
     for_loop 0 numGens
       (\<lambda>gen pop. generation_step fp params dataTrain dataValid numCandidateChromos 1 pop)
       pop0"

definition runCGPDE_OUT ::
  "'g libc \<Rightarrow> 'g schemes \<Rightarrow> 'g parameters \<Rightarrow> dataSet \<Rightarrow> dataSet \<Rightarrow> int \<Rightarrow> seed \<Rightarrow> 'g
     \<Rightarrow> error + ('g chromosome list \<times> seed \<times> 'g)" where
  "runCGPDE_OUT L fp params dataTrain dataValid numGens s0 g0 =
     (if numGens < 0 then Inl Exit
      else if parameters.numInputs params \<noteq> dataSet.numInputs dataTrain then Inl Exit
      else if parameters.numOutputs params \<noteq> dataSet.numOutputs dataTrain then Inl Exit
      else if parameters.numInputs params \<noteq> dataSet.numInputs dataValid then Inl Exit
      else if parameters.numOutputs params \<noteq> dataSet.numOutputs dataValid then Inl Exit
      else
        bnd (for_loop 0 (mu params)
               (\<lambda>i (ps, s, g).
                  bnd (initialiseChromosome L params s) (\<lambda>(c, s').
                  bnd (setChromosomeFitness fp params c dataTrain g) (\<lambda>(c1, g1).
                  bnd (setChromosomeFitnessValidation fp params c1 dataValid g1) (\<lambda>(c2, g2).
                  Inr (ps @ [c2], s', g2)))))
               ([], s0, g0)) (\<lambda>(parents, s1, g1).
        bnd (for_loop 0 (lambda params)
               (\<lambda>i (cs, s).
                  bnd (initialiseChromosome L params s) (\<lambda>(c, s'). Inr (cs @ [c], s')))
               ([], s1)) (\<lambda>(children, s2).
        bnd (arr_get parents 0) (\<lambda>p0.
        bnd (initialiseChromosomeFromChromosome L p0 s2) (\<lambda>(b0, s3).
        bnd (setChromosomeFitnessValidation fp params b0 dataValid g1) (\<lambda>(best, g2).
        bnd (if evolutionaryStrategy params = CHR ''+'' then Inr (mu params + lambda params)
             else if evolutionaryStrategy params = CHR '','' then Inr (lambda params)
             else Inl Exit) (\<lambda>numCandidateChromos.
        bnd (for_loop 0 numCandidateChromos
               (\<lambda>i (cs, s).
                  bnd (initialiseChromosome L params s) (\<lambda>(c, s'). Inr (cs @ [c], s')))
               ([], s3)) (\<lambda>(cands, s4).
        bnd (runCGPDE_OUT_generations fp params dataTrain dataValid numCandidateChromos numGens
               \<lparr>parentChromos = parents, childrenChromos = children,
                candidateChromos = cands, bestChromo = best, seedOf = s4, globalOf = g2\<rparr>)
          (\<lambda>pop.
        runDE L fp params (bestChromo pop) dataTrain dataValid 2 (seedOf pop) (globalOf pop))))))))))"

text \<open>The schemes that \<^verbatim>\<open>initialiseParameters\<close> installs.\<close>

definition default_schemes :: "'g libc \<Rightarrow> 'g schemes" where
  "default_schemes L =
     \<lparr>fitnessFunction = supervisedLearning, selectionScheme = selectFittest,
      reproductionScheme = mutateRandomParent L\<rparr>"

section \<open>The state of the search for active nodes\<close>

text \<open>
  What the proofs about \<^verbatim>\<open>recursivelySetActiveNodes\<close> speak of. Two chromosomes have
  the same genes when they differ at most in the active flags, the actual arities and
  the list of active nodes. The active set is the set of the addresses of the nodes
  flagged active. A node reads an address when one of its first inputs, as many as its
  arity, holds it.
\<close>

definition without_marks :: "node \<Rightarrow> node" where
  "without_marks n = n\<lparr>active := 0, actArity := 0\<rparr>"

definition same_genes :: "'g chromosome \<Rightarrow> 'g chromosome \<Rightarrow> bool" where
  "same_genes c c' \<longleftrightarrow>
     c'\<lparr>nodes := [], activeNodes := [], numActiveNodes := 0\<rparr>
       = c\<lparr>nodes := [], activeNodes := [], numActiveNodes := 0\<rparr> \<and>
     length (activeNodes c') = length (activeNodes c) \<and>
     map without_marks (nodes c') = map without_marks (nodes c)"

definition active_set :: "'g chromosome \<Rightarrow> int set" where
  "active_set c =
     {a. numInputs c \<le> a \<and> a < numInputs c + int (length (nodes c)) \<and>
         active (nodes c ! nat (a - numInputs c)) = 1}"

definition node_reads :: "'g chromosome \<Rightarrow> int \<Rightarrow> int \<Rightarrow> int \<Rightarrow> bool" where
  "node_reads c a j b \<longleftrightarrow>
     (\<exists>n ar. arr_get (nodes c) (a - numInputs c) = Inr n \<and>
             getChromosomeNodeArity c (a - numInputs c) = Inr ar \<and>
             0 \<le> j \<and> j < ar \<and> arr_get (inputs n) j = Inr b)"

definition closed_in :: "'g chromosome \<Rightarrow> int set \<Rightarrow> int set \<Rightarrow> bool" where
  "closed_in c S T \<longleftrightarrow>
     (\<forall>a \<in> S. \<forall>j b. node_reads c a j b \<longrightarrow> numInputs c \<le> b \<longrightarrow> b \<in> T)"

definition act_inv :: "'g chromosome \<Rightarrow> bool" where
  "act_inv c \<longleftrightarrow>
     0 \<le> numActiveNodes c \<and> numActiveNodes c \<le> int (length (activeNodes c)) \<and>
     distinct (active_addresses c) \<and> set (active_addresses c) = active_set c"

definition arity_inv :: "'g chromosome \<Rightarrow> bool" where
  "arity_inv c \<longleftrightarrow>
     (\<forall>a \<in> active_set c.
        getChromosomeNodeArity c (a - numInputs c)
          = Inr (actArity (nodes c ! nat (a - numInputs c))))"

definition dfs_state :: "'g chromosome \<Rightarrow> bool" where
  "dfs_state c \<longleftrightarrow> wf_chromosome c \<and> act_inv c \<and> arity_inv c \<and> active_set c \<subseteq> visits c"

definition inactive :: "'g chromosome \<Rightarrow> nat" where
  "inactive c = length (nodes c) - nat (numActiveNodes c)"

definition dfs_post :: "'g chromosome \<Rightarrow> 'g chromosome \<Rightarrow> bool" where
  "dfs_post c c' \<longleftrightarrow>
     same_genes c c' \<and> dfs_state c' \<and> active_set c \<subseteq> active_set c' \<and>
     numActiveNodes c \<le> numActiveNodes c' \<and>
     closed_in c' (active_set c' - active_set c) (active_set c')"

section \<open>The connection weights of the children\<close>

text \<open>
  The connection weights of a chromosome, node by node. A child has its weights from
  a parent when, for every node of the parent and every input below the node's
  \<^verbatim>\<open>maxArity\<close>, the weight of the child is the weight of the parent, both in the arrays.
  A population inherits its weights when each of its \<^verbatim>\<open>lambda\<close> children has its
  weights from one of its parents.
\<close>

definition weights_of :: "'g chromosome \<Rightarrow> double list list" where
  "weights_of c = map weights (nodes c)"

definition weights_from :: "'g chromosome \<Rightarrow> 'g chromosome \<Rightarrow> bool" where
  "weights_from parent child \<longleftrightarrow>
     (\<forall>n j. 0 \<le> n \<and> n < numNodes parent \<and> 0 \<le> j \<and> j < maxArity (nodes parent ! nat n) \<longrightarrow>
        nat n < length (nodes parent) \<and> nat n < length (weights_of child) \<and>
        nat j < length (weights (nodes parent ! nat n)) \<and>
        nat j < length (weights_of child ! nat n) \<and>
        weights_of child ! nat n ! nat j = weights (nodes parent ! nat n) ! nat j)"

definition inherits_weights :: "'g parameters \<Rightarrow> 'g population \<Rightarrow> bool" where
  "inherits_weights params pop \<longleftrightarrow>
     (\<forall>i. 0 \<le> i \<and> i < lambda params \<longrightarrow>
        (\<exists>r. 0 \<le> r \<and> r < int (length (parentChromos pop)) \<and>
           weights_from (parentChromos pop ! nat r) (childrenChromos pop ! nat i)))"

section \<open>The turns of the execution\<close>







section \<open>Example chromosomes\<close>

text \<open>A small chromosome: two inputs, one node adding them, one output reading the node.\<close>

definition add_fn :: "'g node_function" where
  "add_fn n ins ws g =
     (case ins of
        Fin a # Fin b # _ \<Rightarrow> Inr (Fin (a + b), g)
      | _ \<Rightarrow> Inl Fault)"

definition node0 :: node where
  "node0 = \<lparr>func = 0, inputs = [0, 1], weights = [Fin 0, Fin 0], active = 1,
            output = Fin 0, maxArity = 2, actArity = 2\<rparr>"

definition chromo0 :: "unit chromosome" where
  "chromo0 = \<lparr>numInputs = 2, numOutputs = 1, numNodes = 1, numActiveNodes = 1, arity = 2,
     nodes = [node0], outputNodes = [2], activeNodes = [0],
     fitness = Fin 0, fitnessValidation = Fin 0, outputValues = [Fin 0],
     funcSet = \<lparr>numFunctions = 1, functionNames = [''add''], maxNumInputs = [-1],
                functions = [add_fn]\<rparr>,
     nodeInputsHold = [Fin 0, Fin 0], generation = 0\<rparr>"

text \<open>
  Three nodes behind two inputs and three functions with the declared arities \<open>-1\<close>, 1
  and 3. The output reads the last node, whose function has the declared arity 1 and
  whose inputs are the first node and the node in the middle: only the first of the
  two is followed, so the node in the middle is not reached.
\<close>

definition chromo_clamp :: "unit chromosome" where
  "chromo_clamp = \<lparr>numInputs = 2, numOutputs = 1, numNodes = 3, numActiveNodes = 0, arity = 2,
     nodes = [\<lparr>func = 2, inputs = [0, 1], weights = [Fin 0, Fin 0], active = 0,
               output = Fin 0, maxArity = 2, actArity = 0\<rparr>,
              \<lparr>func = 0, inputs = [2, 2], weights = [Fin 0, Fin 0], active = 0,
               output = Fin 0, maxArity = 2, actArity = 0\<rparr>,
              \<lparr>func = 1, inputs = [2, 3], weights = [Fin 0, Fin 0], active = 0,
               output = Fin 0, maxArity = 2, actArity = 0\<rparr>],
     outputNodes = [4], activeNodes = [0, 0, 0],
     fitness = Fin 0, fitnessValidation = Fin 0, outputValues = [Fin 0],
     funcSet = \<lparr>numFunctions = 3, functionNames = [''add'', ''one'', ''three''],
                maxNumInputs = [-1, 1, 3], functions = [add_fn, add_fn, add_fn]\<rparr>,
     nodeInputsHold = [Fin 0, Fin 0], generation = 0\<rparr>"

text \<open>
  Parameters for the chromosome \<open>chromo0\<close>: the defaults, the function set with the one
  function of \<open>chromo0\<close>, and the mutation rate one half.
\<close>

definition params_half :: "unit parameters" where
  "params_half = (default_parameters 2 1 1 2)
     \<lparr>mutationRate := Fin (1 / 2),
      parameters.funcSet := chromosome.funcSet chromo0\<rparr>"

definition unit_libc :: "unit libc" where
  "unit_libc = \<lparr>RAND_MAX = 32767, rand_r = lcg_draw, rand = (\<lambda>g. (0, g))\<rparr>"


text \<open>
  A data set of one sample, a population of four individuals for the differential
  evolution, all with the weights 0, and a state of the sweeps made of them.
\<close>

definition data1 :: dataSet where
  "data1 = \<lparr>numSamples = 1, numInputs = 2, numOutputs = 1,
     inputData = [[Fin 1, Fin 2]], outputData = [[Fin 3]]\<rparr>"

definition pop4 :: "unit DEChromosome list" where
  "pop4 = [\<lparr>dechromo = chromo0\<lparr>fitness := Fin 7\<rparr>, weightsVector = [Fin 0, Fin 0]\<rparr>,
           \<lparr>dechromo = chromo0\<lparr>fitness := Fin 0\<rparr>, weightsVector = [Fin 0, Fin 0]\<rparr>,
           \<lparr>dechromo = chromo0\<lparr>fitness := Fin (- 1)\<rparr>, weightsVector = [Fin 0, Fin 0]\<rparr>,
           \<lparr>dechromo = chromo0\<lparr>fitness := Fin 3\<rparr>, weightsVector = [Fin 0, Fin 0]\<rparr>]"

definition de_st0 :: "unit DEstate" where
  "de_st0 = \<lparr>DEChromos = pop4,
     DEChromo_u = \<lparr>dechromo = chromo0, weightsVector = [Fin 5, Fin 5]\<rparr>,
     DEseed = 1, DEglobal = ()\<rparr>"



text \<open>
  A population for one generation, with one parent and one child, and the parameters
  for it: the mutation rate is 1, so that every gene that a mutation can redraw is
  redrawn. The parent computes the output of \<open>data1\<close>, the child does not.
\<close>

definition params_gp :: "unit parameters" where
  "params_gp = (default_parameters 2 1 1 2)
     \<lparr>lambda := 1, mutationRate := Fin 1, parameters.funcSet := chromosome.funcSet chromo0\<rparr>"

definition parent_gp :: "unit chromosome" where
  "parent_gp = chromo0\<lparr>nodes := [node0\<lparr>weights := [Fin 3, Fin 4]\<rparr>]\<rparr>"

definition child_gp :: "unit chromosome" where
  "child_gp = chromo0\<lparr>nodes := [node0\<lparr>inputs := [0, 0], weights := [Fin 5, Fin 6]\<rparr>]\<rparr>"

definition pop_gp :: "unit population" where
  "pop_gp = \<lparr>parentChromos = [parent_gp], childrenChromos = [child_gp],
     candidateChromos = [chromo0, chromo0], bestChromo = chromo0, seedOf = 1, globalOf = ()\<rparr>"

text \<open>The same parameters with a final differential evolution of four individuals and one iteration.\<close>

definition params_out :: "unit parameters" where
  "params_out = params_gp\<lparr>NP_OUT := 4, maxIter_OUT := 1\<rparr>"


chapter \<open>Properties\<close>

section \<open>Arrays, sequencing and loops\<close>

lemma arr_get_Inr: "arr_get xs i = Inr x \<longleftrightarrow> 0 \<le> i \<and> i < int (length xs) \<and> xs ! nat i = x"
  by (auto simp: arr_get_def)

lemma arr_set_Inr: "arr_set xs i v = Inr ys \<longleftrightarrow> 0 \<le> i \<and> i < int (length xs) \<and> ys = xs[nat i := v]"
  by (auto simp: arr_set_def)

lemma map_update_same: "(map f xs)[k := f (xs ! k)] = map f xs"
  by (metis list_update_id map_update)

lemma map_update_other: "f v = f (xs ! k) \<Longrightarrow> map f (xs[k := v]) = map f xs"
  by (metis list_update_id map_update)

lemma bnd_Inr: "bnd m f = Inr y \<longleftrightarrow> (\<exists>x. m = Inr x \<and> f x = Inr y)"
  by (cases m) auto

lemma for_loop_rule:
  assumes "P i s" and "i \<le> n"
    and step: "\<And>j t. i \<le> j \<Longrightarrow> j < n \<Longrightarrow> P j t \<Longrightarrow> \<exists>t'. body j t = Inr t' \<and> P (j + 1) t'"
  shows "\<exists>s'. for_loop i n body s = Inr s' \<and> P n s'"
  using assms
proof (induction i n body s rule: for_loop.induct)
  case (1 i n body s)
  show ?case
  proof (cases "i < n")
    case True
    from "1.prems"(3)[of i s] True "1.prems"(1) obtain t' where t': "body i s = Inr t'" "P (i + 1) t'"
      by auto
    have "\<exists>s'. for_loop (i + 1) n body t' = Inr s' \<and> P n s'"
    proof (rule "1.IH"[OF True t'(1) t'(2)])
      show "i + 1 \<le> n" using True by simp
      fix j t assume "i + 1 \<le> j" "j < n" "P j t"
      then show "\<exists>t'. body j t = Inr t' \<and> P (j + 1) t'"
        using "1.prems"(3)[of j t] by auto
    qed
    then show ?thesis using True t'(1) by (subst for_loop.simps) simp
  next
    case False
    then have "i = n" using "1.prems"(2) by simp
    then show ?thesis using "1.prems"(1) by (subst for_loop.simps) simp
  qed
qed


lemma for_loop_inv:
  assumes "for_loop i n body s = Inr s'" and "P i s" and "i \<le> n"
    and step: "\<And>j t t'. i \<le> j \<Longrightarrow> j < n \<Longrightarrow> P j t \<Longrightarrow> body j t = Inr t' \<Longrightarrow> P (j + 1) t'"
  shows "P n s'"
  using assms
proof (induction i n body s rule: for_loop.induct)
  case (1 i n body s)
  show ?case
  proof (cases "i < n")
    case True
    from "1.prems"(1) True obtain t where t: "body i s = Inr t" "for_loop (i + 1) n body t = Inr s'"
      by (subst (asm) for_loop.simps) (auto split: sum.splits)
    have Pt: "P (i + 1) t" using "1.prems"(4)[of i s t] True "1.prems"(2) t(1) by simp
    show ?thesis
    proof (rule "1.IH"[OF True t(1) t(2) Pt])
      show "i + 1 \<le> n" using True by simp
      fix j u u' assume "i + 1 \<le> j" "j < n" "P j u" "body j u = Inr u'"
      then show "P (j + 1) u'" using "1.prems"(4)[of j u u'] by simp
    qed
  next
    case False
    then have "i = n" using "1.prems"(3) by simp
    moreover have "s' = s" using "1.prems"(1) False by (subst (asm) for_loop.simps) simp
    ultimately show ?thesis using "1.prems"(2) by simp
  qed
qed

lemma for_loop_empty: "n \<le> i \<Longrightarrow> for_loop i n body s = Inr s"
  by (subst for_loop.simps) simp

text \<open>
  A loop that returns kept every invariant of its body, and its condition is false at
  the end.
\<close>

lemma while_loop_inv_aux:
  assumes "while_loop c b s = Some r"
  shows "\<forall>I s'. (\<forall>t t'. I t \<longrightarrow> c t \<longrightarrow> b t = Inr t' \<longrightarrow> I t') \<longrightarrow> I s \<longrightarrow> r = Inr s' \<longrightarrow>
        I s' \<and> \<not> c s'"
  using assms
proof (induction c b s r rule: while_loop.raw_induct)
  case (1 wl c b s r)
  show ?case
  proof (intro allI impI)
    fix I s'
    assume step: "\<forall>t t'. I t \<longrightarrow> c t \<longrightarrow> b t = Inr t' \<longrightarrow> I t'" and Is: "I s" and r: "r = Inr s'"
    show "I s' \<and> \<not> c s'"
    proof (cases "c s")
      case True
      with "1"(2) r obtain t' where t': "b s = Inr t'" "wl c b t' = Some (Inr s')"
        by (auto split: sum.splits)
      have It: "I t'" using step Is True t'(1) by blast
      have wl2: "while_loop c b t' = Some (Inr s')"
        using "1"(3) r True t'(1) by (subst (asm) while_loop.simps) simp
      note ih = "1"(1)[OF t'(2) wl2]
      from ih[rule_format, of I s'] step It show ?thesis by simp
    next
      case False
      with "1"(2) r have "s = s'" by simp
      with Is False show ?thesis by simp
    qed
  qed
qed (rule assms)

lemma while_loop_inv:
  assumes run: "while_loop c b s = Some (Inr s')"
    and step: "\<And>t t'. I t \<Longrightarrow> c t \<Longrightarrow> b t = Inr t' \<Longrightarrow> I t'"
    and init: "I s"
  shows "I s' \<and> \<not> c s'"
  using while_loop_inv_aux[OF run] step init by blast



text \<open>A loop that returns has returned after each smaller number of turns.\<close>

lemma for_loop_prefix:
  assumes "for_loop i n body s = Inr s'" and "i \<le> k" and "k \<le> n"
  shows "\<exists>t. for_loop i k body s = Inr t"
  using assms
proof (induction i n body s rule: for_loop.induct)
  case (1 i n body s)
  show ?case
  proof (cases "i < k")
    case False
    then show ?thesis by (simp add: for_loop_empty)
  next
    case True
    with "1.prems"(3) have lt: "i < n" by simp
    from "1.prems"(1) lt obtain t where t: "body i s = Inr t" "for_loop (i + 1) n body t = Inr s'"
      by (subst (asm) for_loop.simps) (auto split: sum.splits)
    have "\<exists>u. for_loop (i + 1) k body t = Inr u"
      using "1.IH"[OF lt t(1) t(2)] True "1.prems"(3) by simp
    then show ?thesis using True t(1) by (subst for_loop.simps) simp
  qed
qed

text \<open>What every turn of a loop keeps holds when the loop returns.\<close>

lemma for_loop_keep:
  assumes run: "for_loop i n body s = Inr s'"
    and init: "Q s"
    and step: "\<And>j t t'. i \<le> j \<Longrightarrow> j < n \<Longrightarrow> body j t = Inr t' \<Longrightarrow> Q t \<Longrightarrow> Q t'"
  shows "Q s'"
proof (cases "i \<le> n")
  case True
  show ?thesis
    by (rule for_loop_inv[OF run, where P = "\<lambda>_. Q", OF init True]) (rule step)
next
  case False
  then have "for_loop i n body s = Inr s" by (intro for_loop_empty) simp
  with run init show ?thesis by simp
qed

lemma for_loop_keepE:
  assumes "for_loop i n body s = Inr s'" and "Q s"
    and "\<And>j t t'. i \<le> j \<Longrightarrow> j < n \<Longrightarrow> body j t = Inr t' \<Longrightarrow> Q t \<Longrightarrow> Q t'"
    and "Q s' \<Longrightarrow> R"
  shows R
  using for_loop_keep[of i n body s s' Q] assms by blast

lemma bnd_keep:
  "bnd m f = Inr y \<Longrightarrow> (\<And>x. m = Inr x \<Longrightarrow> Q x) \<Longrightarrow> (\<And>x. Q x \<Longrightarrow> f x = Inr y \<Longrightarrow> R) \<Longrightarrow> R"
  by (auto simp: bnd_Inr)

lemma while_do_keepE:
  assumes "while_do c b s = Inr s'" and "Q s"
    and "\<And>t t'. b t = Inr t' \<Longrightarrow> Q t \<Longrightarrow> Q t'"
    and "Q s' \<Longrightarrow> R"
  shows R
proof -
  from assms(1) have "while_loop c b s = Some (Inr s')"
    by (auto simp: while_do_def split: option.splits)
  from while_loop_inv[OF this, of Q] assms(2,3,4) show R by blast
qed

section \<open>Evaluating concrete runs\<close>

text \<open>
  Rules for running the model on concrete inputs with the simplifier: a step is
  evaluated before what follows it, and the recursion with a budget unfolds on
  numerals.
\<close>

lemma bnd_weak_cong: "m = m' \<Longrightarrow> bnd m f = bnd m' f"
  by simp

lemma for_loop_weak_cong:
  "i = i' \<Longrightarrow> n = n' \<Longrightarrow> s = s' \<Longrightarrow> for_loop i n body s = for_loop i' n' body s'"
  by simp

lemma while_loop_weak_cong: "s = s' \<Longrightarrow> while_loop c b s = while_loop c b s'"
  by simp

lemma while_do_weak_cong: "s = s' \<Longrightarrow> while_do c b s = while_do c b s'"
  by simp

lemma do_while_weak_cong: "s = s' \<Longrightarrow> do_while b c s = do_while b c s'"
  by simp

lemmas eval_congs = bnd_weak_cong for_loop_weak_cong while_loop_weak_cong while_do_weak_cong
  do_while_weak_cong

lemma rec_unfold:
  "recursivelySetActiveNodes f chromo nodeIndex =
     (if f = 0 then Inl OutOfFuel
      else if nodeIndex < numInputs chromo then Inr chromo
      else
        bnd (arr_get (nodes chromo) (nodeIndex - numInputs chromo)) (\<lambda>n.
        if active n = 1 then Inr chromo
        else
          bnd (arr_set (nodes chromo) (nodeIndex - numInputs chromo) (n\<lparr>active := 1\<rparr>)) (\<lambda>nds.
          bnd (arr_set (activeNodes chromo) (numActiveNodes chromo)
                 (nodeIndex - numInputs chromo)) (\<lambda>acts.
          let c1 = chromo\<lparr>nodes := nds, activeNodes := acts,
                          numActiveNodes := numActiveNodes chromo + 1\<rparr> in
          bnd (getChromosomeNodeArity c1 (nodeIndex - numInputs c1)) (\<lambda>ar.
          bnd (arr_get (nodes c1) (nodeIndex - numInputs c1)) (\<lambda>n1.
          bnd (arr_set (nodes c1) (nodeIndex - numInputs c1) (n1\<lparr>actArity := ar\<rparr>)) (\<lambda>nds1.
          recursivelySetActiveNodes_inputs (f - 1) (c1\<lparr>nodes := nds1\<rparr>) nodeIndex 0)))))))"
  by (cases f) (simp_all cong: if_cong)

lemma rec_inputs_unfold:
  "recursivelySetActiveNodes_inputs f chromo nodeIndex i =
     (if f = 0 then Inl OutOfFuel
      else
        bnd (arr_get (nodes chromo) (nodeIndex - numInputs chromo)) (\<lambda>n.
        if i < actArity n then
          bnd (arr_get (inputs n) i) (\<lambda>a.
          bnd (recursivelySetActiveNodes (f - 1) chromo a) (\<lambda>c'.
          recursivelySetActiveNodes_inputs (f - 1) c' nodeIndex (i + 1)))
        else Inr chromo))"
  by (cases f) (simp_all cong: if_cong)

lemmas draw_simps = randInt_def do_while_def while_do_def while_loop.simps c_rem_def c_div_def
  lcg_draw_def lcg_next_def getRandomFunction_def getRandomNodeInput_def
  getRandomChromosomeOutput_def getRandomConnectionWeight_def randDecimal_def of_c_int_def
  set_function_gene_def set_input_gene_def set_output_gene_def set_weight_gene_def
  arr_get_def arr_set_def

text \<open>
  The same draws with the seed reduced modulo \<open>2^32\<close> after every step, for the long
  runs, and the unfolding of \<open>replicate\<close> on a numeral.
\<close>

lemma word32_of_nat_mod: "(word_of_nat (n mod 4294967296) :: 32 word) = word_of_nat n"
  by (simp add: word_of_nat_eq_iff take_bit_eq_mod)

lemma lcg_next_numeral:
  "lcg_next (numeral k) = word_of_nat ((numeral k * 1103515245 + 12345) mod 4294967296)"
  unfolding word32_of_nat_mod by (simp add: lcg_next_def)

lemma lcg_next_one: "lcg_next 1 = 1103527590"
  by (simp add: lcg_next_def)

lemmas draw_norm = randInt_def do_while_def while_do_def while_loop.simps c_rem_def c_div_def
  lcg_draw_def lcg_next_numeral lcg_next_one getRandomFunction_def getRandomNodeInput_def
  getRandomChromosomeOutput_def getRandomConnectionWeight_def randDecimal_def of_c_int_def
  set_function_gene_def set_input_gene_def set_output_gene_def set_weight_gene_def
  arr_get_def arr_set_def

lemma replicate_numeral_unfold: "replicate (numeral k) x = x # replicate (pred_numeral k) x"
  by (simp add: numeral_eq_Suc)

lemmas run_simps = for_loop.simps executeChromosome_def setChromosomeActiveNodes_def
  recursion_budget_def getChromosomeNodeArity_def sortIntArray_def resetChromosome_def
  setChromosomeFitness_def setChromosomeFitnessValidation_def supervisedLearning_def
  getChromosomeOutput_def copyChromosome_def copyNode_def copyFunctionSet_def
  transferWeightsVectorToChromo_def memcpy_doubles_def isnan_def isinf_def dgt_def dsub_def
  rec_unfold rec_inputs_unfold

lemmas example_defs = chromo0_def node0_def add_fn_def params0_def default_parameters_def
  unit_libc_def default_schemes_def data1_def pop4_def de_st0_def

section \<open>The bounds guard of the accessors\<close>

text \<open>
  C10. The guard of \<^verbatim>\<open>getChromosomeOutput\<close> ends the program exactly when the index is
  negative or strictly greater than the number of outputs, and the guard of
  \<^verbatim>\<open>getChromosomeNodeValue\<close> exactly when it is negative or strictly greater than the
  number of nodes. An index equal to that number passes the guard; the arrays hold
  that many elements, so the access that follows is one element past the end.
\<close>

theorem accessor_guard_admits_upper_boundary:
  "(getChromosomeOutput chromo i = Inl Exit \<longleftrightarrow> i < 0 \<or> i > numOutputs chromo) \<and>
   (getChromosomeNodeValue chromo i = Inl Exit \<longleftrightarrow> i < 0 \<or> i > numNodes chromo) \<and>
   (int (length (outputValues chromo)) = numOutputs chromo \<longrightarrow>
      getChromosomeOutput chromo (numOutputs chromo) = Inl Fault) \<and>
   (int (length (nodes chromo)) = numNodes chromo \<longrightarrow>
      getChromosomeNodeValue chromo (numNodes chromo) = Inl Fault)"
  by (auto simp: getChromosomeOutput_def getChromosomeNodeValue_def arr_get_def
           split: sum.splits)

theorem accessor_guard_admits_upper_boundary_witness:
  "int (length (outputValues chromo0)) = numOutputs chromo0 \<and>
   int (length (nodes chromo0)) = numNodes chromo0 \<and>
   getChromosomeOutput chromo0 1 = Inl Fault \<and>
   getChromosomeNodeValue chromo0 1 = Inl Fault \<and>
   getChromosomeOutput chromo0 0 = Inr (Fin 0) \<and>
   getChromosomeOutput chromo0 2 = Inl Exit"
  using accessor_guard_admits_upper_boundary [of chromo0 1]
    accessor_guard_admits_upper_boundary [of chromo0 2]
  by (simp add: chromo0_def getChromosomeOutput_def arr_get_def)

section \<open>Out-of-range values given to the setters\<close>

lemma not_in_unit_interval_cases:
  "\<not> (dge r (Fin 0) \<and> dle r (Fin 1)) \<longleftrightarrow>
     r = NaN \<or> r = PInf \<or> r = NInf \<or> (\<exists>x. r = Fin x \<and> (x < 0 \<or> 1 < x))"
  by (cases r) (auto simp: dge_def)

text \<open>
  C9, as the code has it. A mutation rate outside \<open>[0,1]\<close> makes \<^verbatim>\<open>setMutationRate\<close>
  print a warning, keep the parameters as they were and return. A crossover rate
  below 0 or above 1 makes \<^verbatim>\<open>setCR\<close> print a warning and end the program.
\<close>

theorem setters_out_of_range:
  "(\<not> (dge r (Fin 0) \<and> dle r (Fin 1)) \<longrightarrow>
      fst (setMutationRate params r) \<noteq> [] \<and> snd (setMutationRate params r) = Inr params) \<and>
   (dlt cr (Fin 0) \<or> dgt cr (Fin 1) \<longrightarrow>
      fst (setCR params cr) \<noteq> [] \<and> snd (setCR params cr) = Inl Exit)"
  by (simp add: setMutationRate_def setCR_def)

theorem setters_out_of_range_witness:
  "\<not> (dge (Fin 2) (Fin 0) \<and> dle (Fin 2) (Fin 1)) \<and>
   (dlt (Fin 2) (Fin 0) \<or> dgt (Fin 2) (Fin 1)) \<and>
   fst (setMutationRate params0 (Fin 2)) \<noteq> [] \<and>
   snd (setMutationRate params0 (Fin 2)) = Inr params0 \<and>
   fst (setCR params0 (Fin 2)) \<noteq> [] \<and>
   snd (setCR params0 (Fin 2)) = Inl Exit"
  using setters_out_of_range [of "Fin 2" params0 "Fin 2"]
  by (simp add: dge_def dgt_def)

text \<open>
  The claim as written fails for the crossover rate: the call ends the program
  instead of returning with the old value.
\<close>

theorem setCR_out_of_range_terminates:
  "snd (setCR params0 (Fin 2)) = Inl Exit \<and> snd (setCR params0 (Fin 2)) \<noteq> Inr params0"
  by (simp add: setCR_def dgt_def)

text \<open>
  The thread count: the message says that the value is left unchanged, and the value
  is stored all the same.
\<close>

lemma setNumThreads_stores_invalid_value:
  "fst (setNumThreads params0 0) \<noteq> [] \<and>
   snd (setNumThreads params0 0) = Inr (params0\<lparr>numThreads := 0\<rparr>) \<and>
   numThreads params0 = 1"
  by (simp add: setNumThreads_def params0_def default_parameters_def)

section \<open>The ordering used by the selection\<close>

text \<open>
  C7. \<^verbatim>\<open>sortChromosomeArray\<close> is documented as stable and is not. Three candidates in
  the order child (fitness 2), parent (fitness 2), parent (fitness 1): the first
  exchange moves the child behind the parent of equal fitness, and
  \<^verbatim>\<open>selectFittest\<close> with two parents to pick keeps the two old parents.
\<close>

theorem sortChromosomeArray_not_stable:
  "sortChromosomeArray [bare (Fin 2) 7, bare (Fin 2) 3, bare (Fin 1) 3] 3
     = Inr [bare (Fin 1) 3, bare (Fin 2) 3, bare (Fin 2) 7] \<and>
   selectFittest params0 [bare (Fin 9) 0, bare (Fin 9) 0]
       [bare (Fin 2) 7, bare (Fin 2) 3, bare (Fin 1) 3] 2 3
     = Inr ([bare (Fin 1) 3, bare (Fin 2) 3],
            [bare (Fin 1) 3, bare (Fin 2) 3, bare (Fin 2) 7])"
  by (simp add: selectFittest_def sortChromosomeArray_def copyChromosome_def
        copyFunctionSet_def for_loop.simps arr_get_def arr_set_def dgt_def bare_def)

section \<open>What the execution stores for a node\<close>

text \<open>
  C1 at a node whose function returns minus infinity: -1 divided by 0. The value
  stored for the node is \<^verbatim>\<open>DBL_MIN\<close>, which is the smallest positive normalised double,
  2 to the power -1022: a number above zero, far from the most negative finite
  double, which is \<^verbatim>\<open>-DBL_MAX\<close>.
\<close>

theorem executeChromosome_stores_DBL_MIN_for_minus_infinity:
  "ddiv (Fin (- 1)) (Fin 0) = NInf \<and>
   bnd (executeChromosome div_chromo [Fin (- 1), Fin 0] ())
       (\<lambda>(c, g). getChromosomeNodeValue c 0) = Inr DBL_MIN \<and>
   bnd (executeChromosome div_chromo [Fin (- 1), Fin 0] ())
       (\<lambda>(c, g). getChromosomeOutput c 0) = Inr DBL_MIN \<and>
   DBL_MIN = Fin (1 / 2 ^ 1022) \<and>
   dlt (Fin 0) DBL_MIN \<and>
   dlt (dneg DBL_MAX) DBL_MIN"
  by (simp add: executeChromosome_def for_loop.simps arr_get_def arr_set_def isnan_def
        isinf_def dgt_def div_chromo_def divide2_def getChromosomeNodeValue_def
        getChromosomeOutput_def DBL_MIN_def DBL_MAX_def)

section \<open>Random draws and the repetition of an execution\<close>













































section \<open>The active nodes are the reachable nodes\<close>

lemma without_marks_simps [simp]:
  "func (without_marks n) = func n" "inputs (without_marks n) = inputs n"
  "without_marks (n\<lparr>active := x\<rparr>) = without_marks n"
  "without_marks (n\<lparr>actArity := y\<rparr>) = without_marks n"
  by (simp_all add: without_marks_def)

lemma same_genes_refl: "same_genes c c"
  by (simp add: same_genes_def)

lemma same_genes_fields:
  assumes "same_genes c c'"
  shows "numInputs c' = numInputs c" "numNodes c' = numNodes c" "numOutputs c' = numOutputs c"
    "arity c' = arity c" "chromosome.funcSet c' = chromosome.funcSet c"
    "outputNodes c' = outputNodes c" "length (nodes c') = length (nodes c)"
    "length (activeNodes c') = length (activeNodes c)"
proof -
  from assms have e: "c'\<lparr>nodes := [], activeNodes := [], numActiveNodes := 0\<rparr>
       = c\<lparr>nodes := [], activeNodes := [], numActiveNodes := 0\<rparr>"
    and m: "map without_marks (nodes c') = map without_marks (nodes c)"
    and l: "length (activeNodes c') = length (activeNodes c)"
    by (simp_all add: same_genes_def)
  from arg_cong[OF e, of numInputs] show "numInputs c' = numInputs c" by simp
  from arg_cong[OF e, of numNodes] show "numNodes c' = numNodes c" by simp
  from arg_cong[OF e, of numOutputs] show "numOutputs c' = numOutputs c" by simp
  from arg_cong[OF e, of arity] show "arity c' = arity c" by simp
  from arg_cong[OF e, of chromosome.funcSet] show "chromosome.funcSet c' = chromosome.funcSet c" by simp
  from arg_cong[OF e, of outputNodes] show "outputNodes c' = outputNodes c" by simp
  from arg_cong[OF m, of length] show "length (nodes c') = length (nodes c)" by simp
  from l show "length (activeNodes c') = length (activeNodes c)" .
qed

lemma same_genes_node:
  assumes "same_genes c c'" "k < length (nodes c)"
  shows "func (nodes c' ! k) = func (nodes c ! k)" "inputs (nodes c' ! k) = inputs (nodes c ! k)"
proof -
  from assms(1) have m: "map without_marks (nodes c') = map without_marks (nodes c)"
    by (simp add: same_genes_def)
  have l: "length (nodes c') = length (nodes c)" using same_genes_fields(7)[OF assms(1)] .
  from arg_cong[OF m, of "\<lambda>xs. xs ! k"] assms(2) l
  have w: "without_marks (nodes c' ! k) = without_marks (nodes c ! k)" by simp
  from arg_cong[OF w, of func] show "func (nodes c' ! k) = func (nodes c ! k)" by simp
  from arg_cong[OF w, of inputs] show "inputs (nodes c' ! k) = inputs (nodes c ! k)" by simp
qed

lemma same_genes_trans: "same_genes a b \<Longrightarrow> same_genes b c \<Longrightarrow> same_genes a c"
  by (simp add: same_genes_def)

lemma same_genes_sym: "same_genes a b \<Longrightarrow> same_genes b a"
  by (simp add: same_genes_def)

lemma same_genes_arity:
  assumes "same_genes c c'"
  shows "getChromosomeNodeArity c' k = getChromosomeNodeArity c k"
proof (cases "0 \<le> k \<and> k < int (length (nodes c))")
  case True
  then have "nat k < length (nodes c)" by linarith
  from same_genes_node(1)[OF assms this] show ?thesis
    using True same_genes_fields[OF assms]
    by (simp add: getChromosomeNodeArity_def arr_get_def)
next
  case False
  then show ?thesis using same_genes_fields[OF assms]
    by (auto simp: getChromosomeNodeArity_def arr_get_def)
qed

lemma same_genes_reads:
  assumes "same_genes c c'"
  shows "node_reads c' a j b = node_reads c a j b"
proof -
  have ni: "numInputs c' = numInputs c" and l: "length (nodes c') = length (nodes c)"
    using same_genes_fields[OF assms] by simp_all
  show ?thesis
    unfolding node_reads_def same_genes_arity[OF assms] ni
    using same_genes_node(2)[OF assms] l
    by (auto simp: arr_get_Inr)
qed

lemma visits_mono_genes:
  assumes "same_genes c c'" "a \<in> visits c"
  shows "a \<in> visits c'"
  using assms(2)
proof (induction rule: visits.induct)
  case (visits_output i a)
  then show ?case using same_genes_fields[OF assms(1)]
    by (auto intro: visits.visits_output)
next
  case (visits_input a n ar j b)
  then have "node_reads c a j b" by (auto simp: node_reads_def)
  then have "node_reads c' a j b" using same_genes_reads[OF assms(1)] by simp
  then obtain n' ar' where "arr_get (nodes c') (a - numInputs c') = Inr n'"
    "getChromosomeNodeArity c' (a - numInputs c') = Inr ar'" "0 \<le> j" "j < ar'"
    "arr_get (inputs n') j = Inr b"
    by (auto simp: node_reads_def)
  then show ?case using visits_input.IH visits_input.hyps same_genes_fields(1)[OF assms(1)]
    by (auto intro: visits.visits_input)
qed

lemma same_genes_visits: "same_genes c c' \<Longrightarrow> visits c' = visits c"
  using visits_mono_genes same_genes_sym by blast

lemma same_genes_wf:
  assumes "same_genes c c'" "wf_chromosome c"
  shows "wf_chromosome c'"
proof -
  note f = same_genes_fields[OF assms(1)]
  have "\<And>n'. n' \<in> set (nodes c') \<Longrightarrow> \<exists>n \<in> set (nodes c). func n' = func n \<and> inputs n' = inputs n"
  proof -
    fix n' assume "n' \<in> set (nodes c')"
    then obtain k where k: "k < length (nodes c')" "n' = nodes c' ! k" by (auto simp: in_set_conv_nth)
    then have "k < length (nodes c)" using f by simp
    from same_genes_node[OF assms(1) this] k this
    show "\<exists>n \<in> set (nodes c). func n' = func n \<and> inputs n' = inputs n"
      by (auto intro!: bexI[of _ "nodes c ! k"])
  qed
  then show ?thesis using assms(2) f unfolding wf_chromosome_def
    by (metis (no_types, lifting))
qed

lemma wf_node:
  assumes "wf_chromosome c" "k < length (nodes c)"
  shows "int (length (inputs (nodes c ! k))) = arity c"
    "0 \<le> func (nodes c ! k)" "func (nodes c ! k) < int (length (maxNumInputs (chromosome.funcSet c)))"
    "\<And>j. j < length (inputs (nodes c ! k)) \<Longrightarrow>
        0 \<le> inputs (nodes c ! k) ! j \<and> inputs (nodes c ! k) ! j < numInputs c + numNodes c"
  using assms unfolding wf_chromosome_def by (auto simp: all_set_conv_all_nth)

lemma arity_wf:
  assumes "wf_chromosome c" "0 \<le> k" "k < numNodes c"
  shows "\<exists>ar. getChromosomeNodeArity c k = Inr ar \<and> ar \<le> arity c"
proof -
  have l: "int (length (nodes c)) = numNodes c" using assms(1) by (simp add: wf_chromosome_def)
  then have "nat k < length (nodes c)" using assms by linarith
  from wf_node(2,3)[OF assms(1) this] l assms(2,3) show ?thesis
    by (auto simp: getChromosomeNodeArity_def arr_get_def Let_def)
qed

lemma active_set_bounds:
  "a \<in> active_set c \<Longrightarrow> numInputs c \<le> a \<and> a < numInputs c + int (length (nodes c))"
  by (simp add: active_set_def)

lemma finite_active_set: "finite (active_set c)"
proof -
  have "active_set c \<subseteq> {numInputs c ..< numInputs c + int (length (nodes c))}"
    by (auto simp: active_set_def)
  then show ?thesis using finite_subset by blast
qed

lemma act_inv_card:
  assumes "act_inv c"
  shows "card (active_set c) = nat (numActiveNodes c)"
proof -
  from assms have d: "distinct (active_addresses c)" and s: "set (active_addresses c) = active_set c"
    and b: "0 \<le> numActiveNodes c" "numActiveNodes c \<le> int (length (activeNodes c))"
    by (simp_all add: act_inv_def)
  have "card (active_set c) = length (active_addresses c)"
    using distinct_card[OF d] s by simp
  also have "\<dots> = nat (numActiveNodes c)" using b by (simp add: active_addresses_def)
  finally show ?thesis .
qed

lemma room_for_inactive:
  assumes "act_inv c" "numInputs c \<le> a" "a < numInputs c + int (length (nodes c))"
    "a \<notin> active_set c"
  shows "nat (numActiveNodes c) < length (nodes c)"
proof -
  let ?U = "{numInputs c ..< numInputs c + int (length (nodes c))}"
  have "active_set c \<subseteq> ?U - {a}" using assms(4) by (auto simp: active_set_def)
  then have "card (active_set c) \<le> card (?U - {a})" by (intro card_mono) auto
  also have "\<dots> = length (nodes c) - 1" using assms(2,3) by simp
  finally show ?thesis using act_inv_card[OF assms(1)] assms(2,3) by auto
qed

lemma mark_step:
  assumes st: "dfs_state c" and a: "numInputs c \<le> a" "a < numInputs c + numNodes c"
    and na: "a \<notin> active_set c"
  shows "\<exists>c2. recursivelySetActiveNodes (Suc f) c a = recursivelySetActiveNodes_inputs f c2 a 0 \<and>
           same_genes c c2 \<and> act_inv c2 \<and> arity_inv c2 \<and>
           active_set c2 = insert a (active_set c) \<and>
           numActiveNodes c2 = numActiveNodes c + 1 \<and>
           nat (numActiveNodes c) < length (nodes c) \<and>
           actArity (nodes c2 ! nat (a - numInputs c)) \<le> arity c"
proof -
  from st have wf: "wf_chromosome c" and ai: "act_inv c" and ari: "arity_inv c"
    by (simp_all add: dfs_state_def)
  have ln: "int (length (nodes c)) = numNodes c" and la: "int (length (activeNodes c)) = numNodes c"
    using wf by (simp_all add: wf_chromosome_def)
  define k where "k = nat (a - numInputs c)"
  have k: "k < length (nodes c)" "int k = a - numInputs c" using a ln by (simp_all add: k_def)
  define n where "n = nodes c ! k"
  have inact: "active n \<noteq> 1" using na a ln k by (simp add: active_set_def n_def k_def)
  obtain ar where ar: "getChromosomeNodeArity c (a - numInputs c) = Inr ar" "ar \<le> arity c"
    using arity_wf[OF wf, of "a - numInputs c"] a by auto
  have room: "nat (numActiveNodes c) < length (nodes c)"
    using room_for_inactive[OF ai a(1) _ na] a ln by simp
  have nn: "0 \<le> numActiveNodes c" using ai by (simp add: act_inv_def)
  have room': "numActiveNodes c < numNodes c" using room nn ln by linarith
  define c2 where "c2 = c\<lparr>activeNodes := (activeNodes c)[nat (numActiveNodes c) := a - numInputs c],
        numActiveNodes := numActiveNodes c + 1,
        nodes := (nodes c)[k := n\<lparr>active := 1, actArity := ar\<rparr>]\<rparr>"
  have sg: "same_genes c c2"
    by (simp add: same_genes_def c2_def map_update n_def map_update_same)
  have ar1: "getChromosomeNodeArity (c\<lparr>nodes := (nodes c)[k := n\<lparr>active := 1\<rparr>],
        activeNodes := (activeNodes c)[nat (numActiveNodes c) := a - numInputs c],
        numActiveNodes := numActiveNodes c + 1\<rparr>) (a - numInputs c) = Inr ar"
    (is "getChromosomeNodeArity ?c1 _ = _")
  proof -
    have "same_genes c ?c1" by (simp add: same_genes_def map_update n_def map_update_same)
    from same_genes_arity[OF this] ar(1) show ?thesis by simp
  qed
  have run: "recursivelySetActiveNodes (Suc f) c a = recursivelySetActiveNodes_inputs f c2 a 0"
    using a k inact room room' nn ln la ar1
    by (simp add: arr_get_def arr_set_def n_def[symmetric] k_def[symmetric] Let_def c2_def)
  have as: "active_set c2 = insert a (active_set c)"
  proof (rule set_eqI)
    fix x
    show "x \<in> active_set c2 \<longleftrightarrow> x \<in> insert a (active_set c)"
    proof (cases "x = a")
      case True
      have "a \<in> active_set c2"
        using a(1) a(2) ln k(1) by (simp add: active_set_def c2_def k_def[symmetric])
      then show ?thesis using True by simp
    next
      case False
      have "numInputs c \<le> x \<Longrightarrow> nat (x - numInputs c) \<noteq> k"
        using False k(2) by linarith
      then show ?thesis using False
        by (auto simp: active_set_def c2_def)
    qed
  qed
  have aa: "active_addresses c2 = active_addresses c @ [a]"
  proof -
    have "nat (numActiveNodes c + 1) = Suc (nat (numActiveNodes c))" using nn by simp
    moreover have "nat (numActiveNodes c) < length (activeNodes c)" using room ln la by simp
    ultimately show ?thesis
      by (simp add: active_addresses_def c2_def take_Suc_conv_app_nth)
  qed
  have ai2: "act_inv c2"
  proof -
    have "a \<notin> set (active_addresses c)" using ai na by (simp add: act_inv_def)
    moreover have "numActiveNodes c + 1 \<le> int (length (activeNodes c))" using room ln la by simp
    ultimately show ?thesis using ai as aa nn
      by (simp add: act_inv_def) (simp add: c2_def)
  qed
  have ari2: "arity_inv c2"
    unfolding arity_inv_def
  proof
    fix x assume x: "x \<in> active_set c2"
    have g: "getChromosomeNodeArity c2 (x - numInputs c2) = getChromosomeNodeArity c (x - numInputs c)"
      using same_genes_arity[OF sg] same_genes_fields(1)[OF sg] by simp
    show "getChromosomeNodeArity c2 (x - numInputs c2) = Inr (actArity (nodes c2 ! nat (x - numInputs c2)))"
    proof (cases "x = a")
      case True
      then show ?thesis using g ar(1) k by (simp add: c2_def k_def)
    next
      case False
      then have xa: "x \<in> active_set c" using x as by simp
      then have "nat (x - numInputs c) \<noteq> k" using False k active_set_bounds[OF xa] by auto
      then show ?thesis using g ari xa by (simp add: arity_inv_def c2_def)
    qed
  qed
  have "actArity (nodes c2 ! nat (a - numInputs c)) \<le> arity c"
    using ar(2) k by (simp add: c2_def k_def)
  with run sg ai2 ari2 as room show ?thesis
    by (intro exI[of _ c2]) (simp add: c2_def)
qed

lemma dfs_post_refl: "dfs_state c \<Longrightarrow> dfs_post c c"
  by (simp add: dfs_post_def same_genes_refl closed_in_def)

lemma dfs_post_trans:
  assumes "dfs_post a b" "dfs_post b c"
  shows "dfs_post a c"
proof -
  from assms have sg: "same_genes a b" "same_genes b c" by (simp_all add: dfs_post_def)
  have ni: "numInputs c = numInputs b" using same_genes_fields(1)[OF sg(2)] .
  have "closed_in c (active_set c - active_set a) (active_set c)"
    unfolding closed_in_def
  proof (intro ballI allI impI)
    fix x j y assume x: "x \<in> active_set c - active_set a" and r: "node_reads c x j y"
      and y: "numInputs c \<le> y"
    show "y \<in> active_set c"
    proof (cases "x \<in> active_set b")
      case True
      then have "x \<in> active_set b - active_set a" using x by simp
      moreover have "node_reads b x j y" using r same_genes_reads[OF sg(2)] by simp
      ultimately have "y \<in> active_set b" using assms(1) y ni
        by (auto simp: dfs_post_def closed_in_def)
      then show ?thesis using assms(2) by (auto simp: dfs_post_def)
    next
      case False
      then have "x \<in> active_set c - active_set b" using x by simp
      then show ?thesis using assms(2) r y by (auto simp: dfs_post_def closed_in_def)
    qed
  qed
  then show ?thesis using assms same_genes_trans[OF sg]
    by (auto simp: dfs_post_def)
qed

lemma dfs_post_inactive:
  assumes "dfs_post c c'"
  shows "inactive c' \<le> inactive c"
proof -
  from assms have "same_genes c c'" "numActiveNodes c \<le> numActiveNodes c'"
    by (simp_all add: dfs_post_def)
  then show ?thesis using same_genes_fields(7)[of c c'] by (simp add: inactive_def)
qed

lemma active_node_arity:
  assumes "dfs_state c" "a \<in> active_set c"
  shows "getChromosomeNodeArity c (a - numInputs c) = Inr (actArity (nodes c ! nat (a - numInputs c)))"
    "actArity (nodes c ! nat (a - numInputs c)) \<le> arity c"
proof -
  from assms show g: "getChromosomeNodeArity c (a - numInputs c) = Inr (actArity (nodes c ! nat (a - numInputs c)))"
    by (simp add: dfs_state_def arity_inv_def)
  from assms have wf: "wf_chromosome c" by (simp add: dfs_state_def)
  then have "int (length (nodes c)) = numNodes c" by (simp add: wf_chromosome_def)
  with active_set_bounds[OF assms(2)] arity_wf[OF wf, of "a - numInputs c"] g
  show "actArity (nodes c ! nat (a - numInputs c)) \<le> arity c" by auto
qed

lemma dfs_post_actArity:
  assumes "dfs_state c" "dfs_post c c'" "a \<in> active_set c"
  shows "actArity (nodes c' ! nat (a - numInputs c')) = actArity (nodes c ! nat (a - numInputs c))"
proof -
  from assms(2) have sg: "same_genes c c'" and st: "dfs_state c'" and sub: "active_set c \<subseteq> active_set c'"
    by (simp_all add: dfs_post_def)
  have "a \<in> active_set c'" using sub assms(3) by auto
  from active_node_arity(1)[OF st this] active_node_arity(1)[OF assms(1,3)]
    same_genes_arity[OF sg] same_genes_fields(1)[OF sg]
  show ?thesis by simp
qed

lemma dfs_correct:
  "(\<forall>(c :: 'g chromosome) a. dfs_state c \<longrightarrow> 0 \<le> a \<longrightarrow> a < numInputs c + numNodes c \<longrightarrow>
      (numInputs c \<le> a \<longrightarrow> a \<in> visits c) \<longrightarrow>
      Suc (inactive c * Suc (nat (arity c))) \<le> f \<longrightarrow>
      (\<exists>c'. recursivelySetActiveNodes f c a = Inr c' \<and> dfs_post c c' \<and>
            (numInputs c \<le> a \<longrightarrow> a \<in> active_set c'))) \<and>
   (\<forall>(c :: 'g chromosome) a i. dfs_state c \<longrightarrow> a \<in> active_set c \<longrightarrow> 0 \<le> i \<longrightarrow>
      inactive c * Suc (nat (arity c))
        + nat (actArity (nodes c ! nat (a - numInputs c)) - i) + 1 \<le> f \<longrightarrow>
      (\<exists>c'. recursivelySetActiveNodes_inputs f c a i = Inr c' \<and> dfs_post c c' \<and>
            (\<forall>j b. i \<le> j \<longrightarrow> node_reads c a j b \<longrightarrow> numInputs c \<le> b \<longrightarrow> b \<in> active_set c')))"
proof (induction f)
  case 0
  show ?case by simp
next
  case (Suc f)
  note IH1 = Suc.IH[THEN conjunct1, rule_format]
  note IH2 = Suc.IH[THEN conjunct2, rule_format]
  show ?case
  proof (intro conjI allI impI)
    fix c :: "'g chromosome" and a
    assume st: "dfs_state c" and a0: "0 \<le> a" and a1: "a < numInputs c + numNodes c"
      and ar: "numInputs c \<le> a \<longrightarrow> a \<in> visits c"
      and fuel: "Suc (inactive c * Suc (nat (arity c))) \<le> Suc f"
    from st have wf: "wf_chromosome c" by (simp add: dfs_state_def)
    have ln: "int (length (nodes c)) = numNodes c" using wf by (simp add: wf_chromosome_def)
    show "\<exists>c'. recursivelySetActiveNodes (Suc f) c a = Inr c' \<and> dfs_post c c' \<and>
            (numInputs c \<le> a \<longrightarrow> a \<in> active_set c')"
    proof (cases "a < numInputs c")
      case True
      then show ?thesis using dfs_post_refl[OF st] by simp
    next
      case False
      then have ge: "numInputs c \<le> a" by simp
      show ?thesis
      proof (cases "a \<in> active_set c")
        case True
        then have "active (nodes c ! nat (a - numInputs c)) = 1" by (simp add: active_set_def)
        then show ?thesis using True ge a1 ln dfs_post_refl[OF st]
          by (simp add: arr_get_def)
      next
        case na: False
        from mark_step[OF st ge a1 na, of f] obtain c2 where
          run: "recursivelySetActiveNodes (Suc f) c a = recursivelySetActiveNodes_inputs f c2 a 0"
          and sg: "same_genes c c2" and ai2: "act_inv c2" and ari2: "arity_inv c2"
          and as2: "active_set c2 = insert a (active_set c)"
          and n2: "numActiveNodes c2 = numActiveNodes c + 1"
          and room: "nat (numActiveNodes c) < length (nodes c)"
          and le: "actArity (nodes c2 ! nat (a - numInputs c)) \<le> arity c"
          by blast
        note f2 = same_genes_fields[OF sg]
        have st2: "dfs_state c2"
          using same_genes_wf[OF sg wf] ai2 ari2 as2 st ar ge same_genes_visits[OF sg]
          by (auto simp: dfs_state_def)
        have in2: "a \<in> active_set c2" using as2 by simp
        have nn: "0 \<le> numActiveNodes c" using st by (simp add: dfs_state_def act_inv_def)
        have inact: "Suc (inactive c2) = inactive c"
          using room n2 nn f2(7) by (simp add: inactive_def)
        have "nat (actArity (nodes c2 ! nat (a - numInputs c2)) - 0) \<le> nat (arity c)"
          using le f2(1) by simp
        then have "inactive c2 * Suc (nat (arity c2))
            + nat (actArity (nodes c2 ! nat (a - numInputs c2)) - 0) + 1
            \<le> Suc (inactive c2) * Suc (nat (arity c))"
          using f2(4) by simp
        also have "\<dots> \<le> f" using fuel inact by simp
        finally have fuel2: "inactive c2 * Suc (nat (arity c2))
            + nat (actArity (nodes c2 ! nat (a - numInputs c2)) - 0) + 1 \<le> f" .
        from IH2[of c2 a 0] st2 in2 fuel2 obtain c' where
          r: "recursivelySetActiveNodes_inputs f c2 a 0 = Inr c'" and p: "dfs_post c2 c'"
          and ch: "\<And>j b. 0 \<le> j \<Longrightarrow> node_reads c2 a j b \<Longrightarrow> numInputs c2 \<le> b \<Longrightarrow> b \<in> active_set c'"
          by auto
        from p have sg': "same_genes c2 c'" and st': "dfs_state c'"
          and sub': "active_set c2 \<subseteq> active_set c'" and nle: "numActiveNodes c2 \<le> numActiveNodes c'"
          and cl: "closed_in c' (active_set c' - active_set c2) (active_set c')"
          by (simp_all add: dfs_post_def)
        have cl': "closed_in c' (active_set c' - active_set c) (active_set c')"
          unfolding closed_in_def
        proof (intro ballI allI impI)
          fix x j y assume x: "x \<in> active_set c' - active_set c" and rd: "node_reads c' x j y"
            and y: "numInputs c' \<le> y"
          show "y \<in> active_set c'"
          proof (cases "x = a")
            case True
            have "node_reads c2 a j y" using rd True same_genes_reads[OF sg'] by simp
            moreover have "0 \<le> j" using rd by (auto simp: node_reads_def)
            ultimately show ?thesis using ch y same_genes_fields(1)[OF sg'] by simp
          next
            case False
            then have "x \<in> active_set c' - active_set c2" using x as2 by simp
            then show ?thesis using cl rd y by (auto simp: closed_in_def)
          qed
        qed
        have "dfs_post c c'"
          using same_genes_trans[OF sg sg'] st' sub' as2 nle n2 cl'
          by (auto simp: dfs_post_def)
        then show ?thesis using run r sub' in2 by auto
      qed
    qed
  next
    fix c :: "'g chromosome" and a i
    assume st: "dfs_state c" and ina: "a \<in> active_set c" and i0: "0 \<le> i"
      and fuel: "inactive c * Suc (nat (arity c))
        + nat (actArity (nodes c ! nat (a - numInputs c)) - i) + 1 \<le> Suc f"
    from st have wf: "wf_chromosome c" and sound: "active_set c \<subseteq> visits c"
      by (simp_all add: dfs_state_def)
    have ln: "int (length (nodes c)) = numNodes c" using wf by (simp add: wf_chromosome_def)
    note ab = active_set_bounds[OF ina]
    define k where "k = nat (a - numInputs c)"
    define n where "n = nodes c ! k"
    have k: "k < length (nodes c)" unfolding k_def using ab by linarith
    have get: "arr_get (nodes c) (a - numInputs c) = Inr n"
      using ab by (simp add: arr_get_def n_def k_def)
    note na = active_node_arity[OF st ina, folded k_def, folded n_def]
    show "\<exists>c'. recursivelySetActiveNodes_inputs (Suc f) c a i = Inr c' \<and> dfs_post c c' \<and>
            (\<forall>j b. i \<le> j \<longrightarrow> node_reads c a j b \<longrightarrow> numInputs c \<le> b \<longrightarrow> b \<in> active_set c')"
    proof (cases "i < actArity n")
      case False
      have "\<And>j b. i \<le> j \<Longrightarrow> node_reads c a j b \<Longrightarrow> False"
        using False na(1) by (auto simp: node_reads_def)
      then show ?thesis using False get dfs_post_refl[OF st] by auto
    next
      case True
      have li: "int (length (inputs n)) = arity c" using wf_node(1)[OF wf k] by (simp add: n_def)
      define b0 where "b0 = inputs n ! nat i"
      have ilen: "nat i < length (inputs n)" using True na(2) li i0 by linarith
      have getb: "arr_get (inputs n) i = Inr b0"
        using True na(2) li i0 by (simp add: arr_get_def b0_def)
      have b0: "0 \<le> b0" "b0 < numInputs c + numNodes c"
        using wf_node(4)[OF wf k, of "nat i"] ilen by (simp_all add: n_def b0_def)
      have rd0: "node_reads c a i b0"
        using get getb na(1) True i0 by (auto simp: node_reads_def)
      have b0r: "numInputs c \<le> b0 \<longrightarrow> b0 \<in> visits c"
        using visits_input[of a c n "actArity n" i b0] sound ina get na(1) i0 True getb by auto
      have fuel1: "Suc (inactive c * Suc (nat (arity c))) \<le> f"
        using fuel True by (simp add: k_def[symmetric] n_def[symmetric])
      from IH1[of c b0] st b0(1) b0(2) b0r fuel1 obtain c1 where
        r1: "recursivelySetActiveNodes f c b0 = Inr c1" and p1: "dfs_post c c1"
        and b1: "numInputs c \<le> b0 \<longrightarrow> b0 \<in> active_set c1"
        by auto
      from p1 have sg1: "same_genes c c1" and st1: "dfs_state c1"
        and sub1: "active_set c \<subseteq> active_set c1"
        by (simp_all add: dfs_post_def)
      have ina1: "a \<in> active_set c1" using sub1 ina by auto
      have aeq: "actArity (nodes c1 ! nat (a - numInputs c1)) = actArity n"
        using dfs_post_actArity[OF st p1 ina] by (simp add: n_def k_def)
      have "inactive c1 * Suc (nat (arity c1)) \<le> inactive c * Suc (nat (arity c))"
        using dfs_post_inactive[OF p1] same_genes_fields(4)[OF sg1]
        by (simp only: mult_le_mono1)
      moreover have "nat (actArity n - (i + 1)) + 1 = nat (actArity n - i)" using True by simp
      ultimately have fuel2: "inactive c1 * Suc (nat (arity c1))
          + nat (actArity (nodes c1 ! nat (a - numInputs c1)) - (i + 1)) + 1 \<le> f"
        using fuel aeq by (simp add: k_def[symmetric] n_def[symmetric])
      have i1: "0 \<le> i + 1" using i0 by simp
      from IH2[of c1 a "i + 1"] st1 ina1 i1 fuel2 obtain c' where
        r2: "recursivelySetActiveNodes_inputs f c1 a (i + 1) = Inr c'" and p2: "dfs_post c1 c'"
        and ch: "\<And>j b. i + 1 \<le> j \<Longrightarrow> node_reads c1 a j b \<Longrightarrow> numInputs c1 \<le> b \<Longrightarrow> b \<in> active_set c'"
        by auto
      have post: "dfs_post c c'" using dfs_post_trans[OF p1 p2] .
      from p2 have sub2: "active_set c1 \<subseteq> active_set c'" by (simp add: dfs_post_def)
      have run: "recursivelySetActiveNodes_inputs (Suc f) c a i = Inr c'"
        using get True getb r1 r2 by simp
      have "\<And>j b. i \<le> j \<Longrightarrow> node_reads c a j b \<Longrightarrow> numInputs c \<le> b \<Longrightarrow> b \<in> active_set c'"
      proof -
        fix j b assume j: "i \<le> j" and rd: "node_reads c a j b" and b: "numInputs c \<le> b"
        show "b \<in> active_set c'"
        proof (cases "j = i")
          case True
          then have "b = b0" using rd get getb by (auto simp: node_reads_def)
          then show ?thesis using b b1 sub2 by auto
        next
          case False
          then have "i + 1 \<le> j" using j by simp
          moreover have "node_reads c1 a j b" using rd same_genes_reads[OF sg1] by simp
          ultimately show ?thesis using ch b same_genes_fields(1)[OF sg1] by simp
        qed
      qed
      then show ?thesis using run post by blast
    qed
  qed
qed

lemma sorted_shift: "sorted xs \<Longrightarrow> sorted (map (\<lambda>k. k + (m :: int)) xs)"
  by (induction xs) auto

lemma reset_loop:
  assumes wf: "wf_chromosome c"
  shows "\<exists>c1. for_loop 0 (numNodes c)
            (\<lambda>i c. bnd (arr_get (nodes c) i) (\<lambda>n.
                     bnd (arr_set (nodes c) i (n\<lparr>active := 0\<rparr>)) (\<lambda>nds.
                     Inr (c\<lparr>nodes := nds\<rparr>))))
            (c\<lparr>numActiveNodes := 0\<rparr>) = Inr c1 \<and>
          same_genes c c1 \<and> numActiveNodes c1 = 0 \<and> active_set c1 = {}"
proof -
  let ?body = "\<lambda>i (c :: 'a chromosome). bnd (arr_get (nodes c) i) (\<lambda>n.
                     bnd (arr_set (nodes c) i (n\<lparr>active := 0\<rparr>)) (\<lambda>nds.
                     Inr (c\<lparr>nodes := nds\<rparr>)))"
  let ?P = "\<lambda>j t. same_genes c t \<and> numActiveNodes t = 0 \<and>
              (\<forall>k. int k < j \<longrightarrow> k < length (nodes t) \<longrightarrow> active (nodes t ! k) = 0)"
  have ln: "int (length (nodes c)) = numNodes c" using wf by (simp add: wf_chromosome_def)
  have "\<exists>s'. for_loop 0 (numNodes c) ?body (c\<lparr>numActiveNodes := 0\<rparr>) = Inr s' \<and> ?P (numNodes c) s'"
  proof (rule for_loop_rule[where P = ?P])
    show "?P 0 (c\<lparr>numActiveNodes := 0\<rparr>)" by (simp add: same_genes_def)
    show "0 \<le> numNodes c" using ln by simp
    fix j t assume j: "0 \<le> j" "j < numNodes c" and P: "?P j t"
    from P have sg: "same_genes c t" by simp
    have lt: "length (nodes t) = length (nodes c)" using same_genes_fields(7)[OF sg] .
    define t' where "t' = t\<lparr>nodes := (nodes t)[nat j := (nodes t ! nat j)\<lparr>active := 0\<rparr>]\<rparr>"
    have run: "?body j t = Inr t'" using j ln lt by (simp add: arr_get_def arr_set_def t'_def)
    have "same_genes t t'" by (simp add: same_genes_def t'_def map_update map_update_same)
    then have sg': "same_genes c t'" using same_genes_trans[OF sg] by simp
    have "\<And>k. int k < j + 1 \<Longrightarrow> k < length (nodes t') \<Longrightarrow> active (nodes t' ! k) = 0"
    proof -
      fix k assume k: "int k < j + 1" "k < length (nodes t')"
      show "active (nodes t' ! k) = 0"
      proof (cases "k = nat j")
        case True
        then show ?thesis using k by (simp add: t'_def)
      next
        case False
        then have "int k < j" using k(1) j(1) by linarith
        then show ?thesis using P False k(2) by (simp add: t'_def)
      qed
    qed
    then show "\<exists>t'. ?body j t = Inr t' \<and> ?P (j + 1) t'"
      using run sg' P by (intro exI[of _ t']) (simp add: t'_def)
  qed
  then obtain c1 where r: "for_loop 0 (numNodes c) ?body (c\<lparr>numActiveNodes := 0\<rparr>) = Inr c1"
    and P: "?P (numNodes c) c1" by blast
  from P have sg: "same_genes c c1" by simp
  have "active_set c1 = {}"
    using P same_genes_fields(7)[OF sg] ln
    by (auto simp: active_set_def)
  then show ?thesis using r P by blast
qed

lemma closed_visits_subset:
  assumes cl: "closed_in c (active_set c) (active_set c)"
    and outs: "\<And>i. 0 \<le> i \<Longrightarrow> i < numOutputs c \<Longrightarrow> i < int (length (outputNodes c)) \<Longrightarrow>
        numInputs c \<le> outputNodes c ! nat i \<Longrightarrow> outputNodes c ! nat i \<in> active_set c"
    and a: "a \<in> visits c"
  shows "a \<in> active_set c"
  using a
proof (induction rule: visits.induct)
  case (visits_output i a)
  then show ?case using outs[of i] by (auto simp: arr_get_Inr)
next
  case (visits_input a n ar j b)
  then have "node_reads c a j b" by (auto simp: node_reads_def)
  then show ?case using cl visits_input.IH visits_input.hyps by (auto simp: closed_in_def)
qed

lemma outputs_loop:
  assumes wf: "wf_chromosome c" and sg1: "same_genes c c1" and n1: "numActiveNodes c1 = 0"
    and e1: "active_set c1 = {}"
  shows "\<exists>c2. for_loop 0 (numOutputs c)
            (\<lambda>i c. bnd (arr_get (outputNodes c) i) (\<lambda>out.
                     if out < numInputs c then Inr c
                     else recursivelySetActiveNodes (recursion_budget c) c out))
            c1 = Inr c2 \<and>
          same_genes c c2 \<and> dfs_state c2 \<and> active_set c2 = visits c"
proof -
  let ?body = "\<lambda>i (c :: 'a chromosome). bnd (arr_get (outputNodes c) i) (\<lambda>out.
                     if out < numInputs c then Inr c
                     else recursivelySetActiveNodes (recursion_budget c) c out)"
  let ?P = "\<lambda>j t. same_genes c t \<and> dfs_state t \<and> closed_in t (active_set t) (active_set t) \<and>
              (\<forall>i. 0 \<le> i \<longrightarrow> i < j \<longrightarrow> numInputs c \<le> outputNodes c ! nat i \<longrightarrow>
                   outputNodes c ! nat i \<in> active_set t)"
  have lo: "int (length (outputNodes c)) = numOutputs c" using wf by (simp add: wf_chromosome_def)
  have ob: "\<And>i. i < length (outputNodes c) \<Longrightarrow>
      0 \<le> outputNodes c ! i \<and> outputNodes c ! i < numInputs c + numNodes c"
    using wf by (simp add: wf_chromosome_def all_set_conv_all_nth)
  have "\<exists>s'. for_loop 0 (numOutputs c) ?body c1 = Inr s' \<and> ?P (numOutputs c) s'"
  proof (rule for_loop_rule[where P = ?P])
    have "act_inv c1" using n1 e1 by (simp add: act_inv_def active_addresses_def)
    moreover have "arity_inv c1" using e1 by (simp add: arity_inv_def)
    ultimately have "dfs_state c1" using same_genes_wf[OF sg1 wf] e1 by (simp add: dfs_state_def)
    then show "?P 0 c1" using sg1 e1 by (simp add: closed_in_def)
    show "0 \<le> numOutputs c" using lo by simp
    fix j t assume j: "0 \<le> j" "j < numOutputs c" and P: "?P j t"
    from P have sg: "same_genes c t" and st: "dfs_state t"
      and cl: "closed_in t (active_set t) (active_set t)" by simp_all
    note f = same_genes_fields[OF sg]
    define out where "out = outputNodes c ! nat j"
    have jl: "nat j < length (outputNodes c)" using j lo by linarith
    have get: "arr_get (outputNodes t) j = Inr out" using j lo f by (simp add: arr_get_def out_def)
    show "\<exists>t'. ?body j t = Inr t' \<and> ?P (j + 1) t'"
    proof (cases "out < numInputs c")
      case True
      have "\<And>i. 0 \<le> i \<Longrightarrow> i < j + 1 \<Longrightarrow> numInputs c \<le> outputNodes c ! nat i \<Longrightarrow>
           outputNodes c ! nat i \<in> active_set t"
      proof -
        fix i assume i: "0 \<le> i" "i < j + 1" "numInputs c \<le> outputNodes c ! nat i"
        then have "i \<noteq> j" using True by (auto simp: out_def)
        then have "i < j" using i by simp
        then show "outputNodes c ! nat i \<in> active_set t" using P i by simp
      qed
      then show ?thesis using get True f P by (intro exI[of _ t]) simp
    next
      case False
      have wft: "wf_chromosome t" using st by (simp add: dfs_state_def)
      have "arr_get (outputNodes c) j = Inr out" using j lo by (simp add: arr_get_def out_def)
      then have "out \<in> visits c" using visits_output[of j c out] j False by simp
      then have r: "out \<in> visits t" using same_genes_visits[OF sg] by simp
      have "inactive t * Suc (nat (arity t)) \<le> length (nodes t) * Suc (nat (arity t))"
        by (rule mult_le_mono1) (simp add: inactive_def)
      then have fuel: "Suc (inactive t * Suc (nat (arity t))) \<le> recursion_budget t"
        by (simp add: recursion_budget_def del: mult_Suc_right)
      from dfs_correct[of "recursion_budget t", THEN conjunct1, rule_format, of t out]
        st ob[OF jl] r fuel f
      obtain t' where run: "recursivelySetActiveNodes (recursion_budget t) t out = Inr t'"
        and post: "dfs_post t t'" and oin: "out \<in> active_set t'"
        using False by (auto simp: out_def)
      from post have sg': "same_genes t t'" and st': "dfs_state t'"
        and sub: "active_set t \<subseteq> active_set t'"
        and cln: "closed_in t' (active_set t' - active_set t) (active_set t')"
        by (simp_all add: dfs_post_def)
      have cl': "closed_in t' (active_set t') (active_set t')"
        unfolding closed_in_def
      proof (intro ballI allI impI)
        fix x k y assume x: "x \<in> active_set t'" and rd: "node_reads t' x k y"
          and y: "numInputs t' \<le> y"
        show "y \<in> active_set t'"
        proof (cases "x \<in> active_set t")
          case True
          moreover have "node_reads t x k y" using rd same_genes_reads[OF sg'] by simp
          ultimately have "y \<in> active_set t" using cl y same_genes_fields(1)[OF sg']
            by (auto simp: closed_in_def)
          then show ?thesis using sub by auto
        next
          case False
          then show ?thesis using cln x rd y by (auto simp: closed_in_def)
        qed
      qed
      have "\<And>i. 0 \<le> i \<Longrightarrow> i < j + 1 \<Longrightarrow> numInputs c \<le> outputNodes c ! nat i \<Longrightarrow>
           outputNodes c ! nat i \<in> active_set t'"
      proof -
        fix i assume i: "0 \<le> i" "i < j + 1" "numInputs c \<le> outputNodes c ! nat i"
        show "outputNodes c ! nat i \<in> active_set t'"
        proof (cases "i = j")
          case True
          then show ?thesis using oin by (simp add: out_def)
        next
          case False
          then have "i < j" using i by simp
          then show ?thesis using P i sub by auto
        qed
      qed
      then show ?thesis using get False f run same_genes_trans[OF sg sg'] st' cl'
        by (intro exI[of _ t']) simp
    qed
  qed
  then obtain c2 where r: "for_loop 0 (numOutputs c) ?body c1 = Inr c2"
    and P: "?P (numOutputs c) c2" by blast
  from P have sg: "same_genes c c2" and st: "dfs_state c2"
    and cl: "closed_in c2 (active_set c2) (active_set c2)" by simp_all
  note f = same_genes_fields[OF sg]
  have "visits c2 \<subseteq> active_set c2"
  proof
    fix a assume "a \<in> visits c2"
    then show "a \<in> active_set c2"
      using closed_visits_subset[OF cl, of a] P f by simp
  qed
  moreover have "active_set c2 \<subseteq> visits c2" using st by (simp add: dfs_state_def)
  ultimately have "active_set c2 = visits c" using same_genes_visits[OF sg] by auto
  then show ?thesis using r sg st by blast
qed

text \<open>
  What the search marks, with the accesses and the arity of the code: on a well-formed
  chromosome \<^verbatim>\<open>setChromosomeActiveNodes\<close> returns, and the active nodes are the visited
  ones, in ascending order.
\<close>

lemma setChromosomeActiveNodes_visits:
  assumes "wf_chromosome c"
  shows "\<exists>c'. setChromosomeActiveNodes c = Inr c' \<and>
           sorted (active_addresses c') \<and> distinct (active_addresses c') \<and>
           set (active_addresses c') = visits c \<and>
           active_set c' = visits c \<and> same_genes c c'"
proof -
  from reset_loop[OF assms] obtain c1 where
    r1: "for_loop 0 (numNodes c)
            (\<lambda>i c. bnd (arr_get (nodes c) i) (\<lambda>n.
                     bnd (arr_set (nodes c) i (n\<lparr>active := 0\<rparr>)) (\<lambda>nds.
                     Inr (c\<lparr>nodes := nds\<rparr>))))
            (c\<lparr>numActiveNodes := 0\<rparr>) = Inr c1"
    and sg1: "same_genes c c1" and n1: "numActiveNodes c1 = 0" and e1: "active_set c1 = {}"
    by blast
  from outputs_loop[OF assms sg1 n1 e1] obtain c2 where
    r2: "for_loop 0 (numOutputs c)
            (\<lambda>i c. bnd (arr_get (outputNodes c) i) (\<lambda>out.
                     if out < numInputs c then Inr c
                     else recursivelySetActiveNodes (recursion_budget c) c out))
            c1 = Inr c2"
    and sg2: "same_genes c c2" and st2: "dfs_state c2" and a2: "active_set c2 = visits c"
    by blast
  from st2 have ai: "act_inv c2" by (simp add: dfs_state_def)
  then have nb: "0 \<le> numActiveNodes c2" "numActiveNodes c2 \<le> int (length (activeNodes c2))"
    and d2: "distinct (active_addresses c2)" and s2: "set (active_addresses c2) = active_set c2"
    by (simp_all add: act_inv_def)
  define n where "n = nat (numActiveNodes c2)"
  define acts where "acts = sort (take n (activeNodes c2)) @ drop n (activeNodes c2)"
  define c3 where "c3 = c2\<lparr>activeNodes := acts\<rparr>"
  have run: "setChromosomeActiveNodes c = Inr c3"
    using r1 r2 nb by (simp add: setChromosomeActiveNodes_def sortIntArray_def c3_def acts_def n_def)
  have nl: "n \<le> length (activeNodes c2)" using nb by (simp add: n_def)
  have tk: "take n acts = sort (take n (activeNodes c2))"
    using nl by (simp add: acts_def)
  have aa: "active_addresses c3 = map (\<lambda>k. k + numInputs c2) (sort (take n (activeNodes c2)))"
    using tk by (simp add: active_addresses_def c3_def n_def)
  have mono: "sorted (map (\<lambda>k. k + numInputs c2) (sort (take n (activeNodes c2))))"
    by (rule sorted_shift) simp
  have inj: "inj (\<lambda>k. k + numInputs c2)" by (simp add: inj_def)
  have d: "distinct (take n (activeNodes c2))"
    using d2 by (simp add: active_addresses_def n_def distinct_map)
  have srt: "sorted (active_addresses c3)" using aa mono by simp
  have dst: "distinct (active_addresses c3)"
    using aa d inj by (simp add: distinct_map inj_on_def)
  have st: "set (active_addresses c3) = visits c"
    using aa s2 a2 by (simp add: active_addresses_def n_def)
  have as3: "active_set c3 = active_set c2" by (simp add: active_set_def c3_def)
  have "same_genes c2 c3" using nl by (simp add: same_genes_def c3_def acts_def)
  then have "same_genes c c3" using same_genes_trans[OF sg2] by simp
  then show ?thesis using run srt dst st as3 a2 by blast
qed

text \<open>
  The arity that \<^verbatim>\<open>getChromosomeNodeArity\<close> returns is the actual arity of the
  specification, and on a well-formed chromosome what the search can visit is what
  the specification calls reachable.
\<close>

lemma getChromosomeNodeArity_actual:
  assumes "arr_get (nodes c) k = Inr n" "getChromosomeNodeArity c k = Inr ar"
  shows "ar = actual_arity c n"
  using assms
  by (auto simp: getChromosomeNodeArity_def actual_arity_def Let_def bnd_Inr arr_get_Inr
      split: if_splits)

lemma visits_subset_reach: "a \<in> visits c \<Longrightarrow> a \<in> reach c"
proof (induction rule: visits.induct)
  case (visits_output i a)
  then show ?case by (auto simp: arr_get_Inr intro: reach.reach_output)
next
  case (visits_input a n ar j b)
  from visits_input.hyps(2,3) have ar: "ar = actual_arity c n"
    by (rule getChromosomeNodeArity_actual)
  from visits_input.hyps(2) have n: "n = nodes c ! nat (a - numInputs c)"
    by (auto simp: arr_get_Inr)
  from visits_input.hyps(6) have b: "b = inputs n ! nat j" by (auto simp: arr_get_Inr)
  show ?case
    using reach.reach_input[OF visits_input.IH n visits_input.hyps(4) _ b visits_input.hyps(7)]
      visits_input.hyps(5) ar by simp
qed

lemma actual_arity_le: "actual_arity c n \<le> arity c"
  by (simp add: actual_arity_def Let_def)

lemma reach_bounds:
  assumes wf: "wf_chromosome c" and a: "a \<in> reach c"
  shows "numInputs c \<le> a \<and> a < numInputs c + numNodes c"
  using a
proof (induction rule: reach.induct)
  case (reach_output i a)
  then have "nat i < length (outputNodes c)" using wf by (auto simp: wf_chromosome_def)
  then have "a \<in> set (outputNodes c)" using reach_output by simp
  then show ?case using wf reach_output by (auto simp: wf_chromosome_def)
next
  case (reach_input a n j b)
  then have "nat (a - numInputs c) < length (nodes c)" using wf by (auto simp: wf_chromosome_def)
  then have n: "n \<in> set (nodes c)" using reach_input by simp
  then have len: "int (length (inputs n)) = arity c" using wf by (auto simp: wf_chromosome_def)
  have "j < arity c" using reach_input.hyps(4) actual_arity_le[of c n] by simp
  then have "nat j < length (inputs n)" using len reach_input.hyps(3) by linarith
  then have "b \<in> set (inputs n)" using reach_input by simp
  then show ?case using wf n reach_input by (auto simp: wf_chromosome_def)
qed

lemma reach_subset_visits:
  assumes wf: "wf_chromosome c" and a: "a \<in> reach c"
  shows "a \<in> visits c"
  using a
proof (induction rule: reach.induct)
  case (reach_output i a)
  then have "arr_get (outputNodes c) i = Inr a"
    using wf by (auto simp: arr_get_Inr wf_chromosome_def)
  then show ?case using reach_output by (auto intro: visits.visits_output)
next
  case (reach_input a n j b)
  from reach_bounds[OF wf reach_input.hyps(1)]
  have k: "0 \<le> a - numInputs c" "a - numInputs c < int (length (nodes c))"
    using wf by (auto simp: wf_chromosome_def)
  then have g: "arr_get (nodes c) (a - numInputs c) = Inr n"
    using reach_input.hyps(2) by (simp add: arr_get_Inr)
  from k have "nat (a - numInputs c) < length (nodes c)" by linarith
  then have n: "n \<in> set (nodes c)" using reach_input.hyps(2) by simp
  then have len: "int (length (inputs n)) = arity c"
    and f: "0 \<le> func n" "func n < int (length (maxNumInputs (chromosome.funcSet c)))"
    using wf by (auto simp: wf_chromosome_def)
  have ar: "getChromosomeNodeArity c (a - numInputs c) = Inr (actual_arity c n)"
    using g f by (auto simp: getChromosomeNodeArity_def actual_arity_def Let_def arr_get_def)
  have "j < arity c" using reach_input.hyps(4) actual_arity_le[of c n] by simp
  then have gb: "arr_get (inputs n) j = Inr b"
    using len reach_input.hyps(3,5) by (simp add: arr_get_Inr)
  show ?case
    by (rule visits.visits_input[OF reach_input.IH g ar reach_input.hyps(3,4) gb reach_input.hyps(6)])
qed

lemma reach_eq_visits: "wf_chromosome c \<Longrightarrow> reach c = visits c"
  using reach_subset_visits visits_subset_reach by blast

text \<open>
  C2. On a well-formed chromosome \<^verbatim>\<open>setChromosomeActiveNodes\<close> returns (the budget of
  the recursion is not used up, no array is left). Afterwards the list of active
  nodes, read as addresses, is in ascending order without repetition and holds
  exactly the addresses that the output genes reach through the inputs of the nodes,
  each node limited to its actual arity: the declared arity of its function clamped
  to the arity of the chromosome. The nodes flagged active are the same ones, and
  nothing but the flags, the stored arities and the list has changed.
\<close>

theorem setChromosomeActiveNodes_reachable:
  assumes "wf_chromosome c"
  shows "\<exists>c'. setChromosomeActiveNodes c = Inr c' \<and>
           sorted (active_addresses c') \<and> distinct (active_addresses c') \<and>
           set (active_addresses c') = reach c \<and>
           active_set c' = reach c \<and> same_genes c c'"
  using setChromosomeActiveNodes_visits[OF assms] reach_eq_visits[OF assms] by simp

theorem setChromosomeActiveNodes_reachable_witness:
  "wf_chromosome chromo_clamp \<and>
   map (actual_arity chromo_clamp) (nodes chromo_clamp) = [2, 2, 1] \<and>
   bnd (setChromosomeActiveNodes chromo_clamp) (\<lambda>c'. Inr (active_addresses c')) = Inr [2, 4] \<and>
   reach chromo_clamp = {2, 4}"
proof -
  have wf: "wf_chromosome chromo_clamp" by (simp add: wf_chromosome_def chromo_clamp_def)
  have ar: "map (actual_arity chromo_clamp) (nodes chromo_clamp) = [2, 2, 1]"
    by (simp add: actual_arity_def chromo_clamp_def)
  have ev: "bnd (setChromosomeActiveNodes chromo_clamp) (\<lambda>c'. Inr (active_addresses c')) = Inr [2, 4]"
    by (simp add: setChromosomeActiveNodes_def chromo_clamp_def for_loop.simps arr_get_def
          arr_set_def recursion_budget_def getChromosomeNodeArity_def sortIntArray_def
          Let_def eval_nat_numeral active_addresses_def)
  from setChromosomeActiveNodes_reachable[OF wf] obtain c' where
    "setChromosomeActiveNodes chromo_clamp = Inr c'"
    "set (active_addresses c') = reach chromo_clamp"
    by blast
  with ev have "reach chromo_clamp = {2, 4}" by auto
  with wf ar ev show ?thesis by simp
qed

section \<open>Point mutation\<close>

lemma finite_gene_slots: "finite (gene_slots c)"
proof -
  have "{(i, j). i < length (nodes c) \<and> j < length (inputs (nodes c ! i))}
          = Sigma {i. i < length (nodes c)} (\<lambda>i. {j. j < length (inputs (nodes c ! i))})"
    by auto
  then show ?thesis by (simp add: gene_slots_def)
qed

lemma gene_slots_cong:
  assumes "length (nodes c') = length (nodes c)"
    and "\<And>i. i < length (nodes c) \<Longrightarrow> length (inputs (nodes c' ! i)) = length (inputs (nodes c ! i))"
    and "length (outputNodes c') = length (outputNodes c)"
  shows "gene_slots c' = gene_slots c"
proof -
  have "{(i, j). i < length (nodes c') \<and> j < length (inputs (nodes c' ! i))}
      = {(i, j). i < length (nodes c) \<and> j < length (inputs (nodes c ! i))}"
    using assms(1,2) by auto
  then show ?thesis using assms(1,3) by (simp add: gene_slots_def)
qed

lemma set_function_gene_one:
  assumes "set_function_gene c i v = Inr c'"
  shows "one_gene c c'"
proof -
  from assms have i: "0 \<le> i" "i < int (length (nodes c))"
    and c': "c' = c\<lparr>nodes := (nodes c)[nat i := (nodes c ! nat i)\<lparr>func := v\<rparr>]\<rparr>"
    by (auto simp: set_function_gene_def bnd_Inr arr_get_Inr arr_set_Inr)
  have ni: "nat i < length (nodes c)" using i by linarith
  have "\<And>h. h \<noteq> FunctionGene (nat i) \<Longrightarrow> gene_value c' h = gene_value c h"
  proof -
    fix h assume "h \<noteq> FunctionGene (nat i)"
    then show "gene_value c' h = gene_value c h"
      using ni by (cases h) (auto simp: c' nth_list_update)
  qed
  moreover have "gene_slots c' = gene_slots c"
    using ni by (intro gene_slots_cong) (auto simp: c' nth_list_update)
  moreover have "map weights (nodes c') = map weights (nodes c)"
    by (simp add: c' map_update_other)
  ultimately show ?thesis unfolding one_gene_def by blast
qed

lemma set_input_gene_one:
  assumes "set_input_gene c i j v = Inr c'"
  shows "one_gene c c'"
proof -
  from assms have i: "0 \<le> i" "i < int (length (nodes c))"
    and j: "0 \<le> j" "j < int (length (inputs (nodes c ! nat i)))"
    and c': "c' = c\<lparr>nodes := (nodes c)[nat i := (nodes c ! nat i)\<lparr>inputs := (inputs (nodes c ! nat i))[nat j := v]\<rparr>]\<rparr>"
    by (auto simp: set_input_gene_def bnd_Inr arr_get_Inr arr_set_Inr)
  have ni: "nat i < length (nodes c)" using i by linarith
  have "\<And>h. h \<noteq> InputGene (nat i) (nat j) \<Longrightarrow> gene_value c' h = gene_value c h"
  proof -
    fix h assume "h \<noteq> InputGene (nat i) (nat j)"
    then show "gene_value c' h = gene_value c h"
      using ni by (cases h) (auto simp: c' nth_list_update)
  qed
  moreover have "gene_slots c' = gene_slots c"
    using ni by (intro gene_slots_cong) (auto simp: c' nth_list_update)
  moreover have "map weights (nodes c') = map weights (nodes c)"
    by (simp add: c' map_update_other)
  ultimately show ?thesis unfolding one_gene_def by blast
qed

lemma set_output_gene_one:
  assumes "set_output_gene c i v = Inr c'"
  shows "one_gene c c'"
proof -
  from assms have i: "0 \<le> i" "i < int (length (outputNodes c))"
    and c': "c' = c\<lparr>outputNodes := (outputNodes c)[nat i := v]\<rparr>"
    by (auto simp: set_output_gene_def bnd_Inr arr_set_Inr)
  have "\<And>h. h \<noteq> OutputGene (nat i) \<Longrightarrow> gene_value c' h = gene_value c h"
  proof -
    fix h assume "h \<noteq> OutputGene (nat i)"
    then show "gene_value c' h = gene_value c h"
      by (cases h) (auto simp: c' nth_list_update)
  qed
  moreover have "gene_slots c' = gene_slots c"
    by (intro gene_slots_cong) (auto simp: c')
  moreover have "map weights (nodes c') = map weights (nodes c)"
    by (simp add: c')
  ultimately show ?thesis unfolding one_gene_def by blast
qed

lemma pointMutation_redraw_one:
  assumes "pointMutation_redraw L params (c, s) = Inr (c', s')"
  shows "one_gene c c'"
  using assms
  unfolding pointMutation_redraw_def Let_def
  by (auto simp: bnd_Inr split: if_splits
      dest: set_function_gene_one set_input_gene_one set_output_gene_one)

lemma changed_genes_step:
  assumes "card (changed_genes c0 c) \<le> k" "one_gene c c'" "gene_slots c = gene_slots c0"
  shows "card (changed_genes c0 c') \<le> Suc k"
proof -
  from assms(2) obtain g where g: "\<And>h. h \<noteq> g \<Longrightarrow> gene_value c' h = gene_value c h"
    by (auto simp: one_gene_def)
  have sub: "changed_genes c0 c' \<subseteq> insert g (changed_genes c0 c)"
    using g by (auto simp: changed_genes_def)
  have fin: "finite (changed_genes c0 c)"
    using finite_gene_slots[of c0] by (simp add: changed_genes_def)
  have "card (changed_genes c0 c') \<le> card (insert g (changed_genes c0 c))"
    using sub fin by (intro card_mono) auto
  also have "\<dots> \<le> Suc (card (changed_genes c0 c))" using fin by (simp add: card_insert_if)
  finally show ?thesis using assms(1) by simp
qed

text \<open>Which gene an assignment sets, and to what.\<close>

lemma set_function_gene_slot:
  assumes "set_function_gene c i v = Inr c'"
  shows "0 \<le> i \<and> FunctionGene (nat i) \<in> gene_slots c \<and>
         gene_value c' (FunctionGene (nat i)) = v \<and>
         (\<forall>h. h \<noteq> FunctionGene (nat i) \<longrightarrow> gene_value c' h = gene_value c h)"
proof -
  from assms have i: "0 \<le> i" "i < int (length (nodes c))"
    and c': "c' = c\<lparr>nodes := (nodes c)[nat i := (nodes c ! nat i)\<lparr>func := v\<rparr>]\<rparr>"
    by (auto simp: set_function_gene_def bnd_Inr arr_get_Inr arr_set_Inr)
  have ni: "nat i < length (nodes c)" using i by linarith
  have "\<And>h. h \<noteq> FunctionGene (nat i) \<Longrightarrow> gene_value c' h = gene_value c h"
  proof -
    fix h assume "h \<noteq> FunctionGene (nat i)"
    then show "gene_value c' h = gene_value c h"
      using ni by (cases h) (auto simp: c' nth_list_update)
  qed
  moreover have "gene_value c' (FunctionGene (nat i)) = v" using ni by (simp add: c')
  moreover have "FunctionGene (nat i) \<in> gene_slots c" using ni by (simp add: gene_slots_def)
  ultimately show ?thesis using i by blast
qed

lemma set_input_gene_slot:
  assumes "set_input_gene c i j v = Inr c'"
  shows "0 \<le> i \<and> 0 \<le> j \<and> InputGene (nat i) (nat j) \<in> gene_slots c \<and>
         gene_value c' (InputGene (nat i) (nat j)) = v \<and>
         (\<forall>h. h \<noteq> InputGene (nat i) (nat j) \<longrightarrow> gene_value c' h = gene_value c h)"
proof -
  from assms have i: "0 \<le> i" "i < int (length (nodes c))"
    and j: "0 \<le> j" "j < int (length (inputs (nodes c ! nat i)))"
    and c': "c' = c\<lparr>nodes := (nodes c)[nat i := (nodes c ! nat i)\<lparr>inputs := (inputs (nodes c ! nat i))[nat j := v]\<rparr>]\<rparr>"
    by (auto simp: set_input_gene_def bnd_Inr arr_get_Inr arr_set_Inr)
  have ni: "nat i < length (nodes c)" using i by linarith
  have nj: "nat j < length (inputs (nodes c ! nat i))" using j by linarith
  have "\<And>h. h \<noteq> InputGene (nat i) (nat j) \<Longrightarrow> gene_value c' h = gene_value c h"
  proof -
    fix h assume "h \<noteq> InputGene (nat i) (nat j)"
    then show "gene_value c' h = gene_value c h"
      using ni by (cases h) (auto simp: c' nth_list_update)
  qed
  moreover have "gene_value c' (InputGene (nat i) (nat j)) = v" using ni nj by (simp add: c')
  moreover have "InputGene (nat i) (nat j) \<in> gene_slots c"
    using ni nj by (auto simp: gene_slots_def)
  ultimately show ?thesis using i j by blast
qed

lemma set_output_gene_slot:
  assumes "set_output_gene c i v = Inr c'"
  shows "0 \<le> i \<and> OutputGene (nat i) \<in> gene_slots c \<and>
         gene_value c' (OutputGene (nat i)) = v \<and>
         (\<forall>h. h \<noteq> OutputGene (nat i) \<longrightarrow> gene_value c' h = gene_value c h)"
proof -
  from assms have i: "0 \<le> i" "i < int (length (outputNodes c))"
    and c': "c' = c\<lparr>outputNodes := (outputNodes c)[nat i := v]\<rparr>"
    by (auto simp: set_output_gene_def bnd_Inr arr_set_Inr)
  have ni: "nat i < length (outputNodes c)" using i by linarith
  have "\<And>h. h \<noteq> OutputGene (nat i) \<Longrightarrow> gene_value c' h = gene_value c h"
  proof -
    fix h assume "h \<noteq> OutputGene (nat i)"
    then show "gene_value c' h = gene_value c h"
      by (cases h) (auto simp: c' nth_list_update)
  qed
  moreover have "gene_value c' (OutputGene (nat i)) = v" using ni by (simp add: c')
  moreover have "OutputGene (nat i) \<in> gene_slots c" using ni by (simp add: gene_slots_def)
  ultimately show ?thesis using i by blast
qed

text \<open>The quotient and the remainder of C, of a dividend that is not negative.\<close>

lemma c_div_rem:
  assumes "c_div a b = Inr q" "c_rem a b = Inr r" "0 \<le> a"
  shows "q * b + r = a \<and> 0 \<le> r \<and> r < \<bar>b\<bar>"
proof -
  from assms(1) have b: "b \<noteq> 0" and q: "q = sgn a * sgn b * (\<bar>a\<bar> div \<bar>b\<bar>)"
    by (auto simp: c_div_def split: if_splits)
  from assms(2) b have r: "r = sgn a * (\<bar>a\<bar> mod \<bar>b\<bar>)"
    by (auto simp: c_rem_def)
  show ?thesis
  proof (cases "a = 0")
    case True
    then show ?thesis using q r b by simp
  next
    case False
    with assms(3) have pos: "0 < a" by simp
    then have q': "q = sgn b * (a div \<bar>b\<bar>)" and r': "r = a mod \<bar>b\<bar>" using q r by simp_all
    have "q * b = (a div \<bar>b\<bar>) * \<bar>b\<bar>"
      unfolding q' by (simp add: abs_sgn mult.assoc mult.left_commute[of "sgn b"] mult.commute[of _ "sgn b"])
    then have "q * b + r = a" using r' by simp
    moreover have "0 \<le> r" "r < \<bar>b\<bar>" using r' b by simp_all
    ultimately show ?thesis by simp
  qed
qed

text \<open>One turn of the loop is one redraw.\<close>

lemma pointMutation_redraw_spec:
  assumes run: "pointMutation_redraw L params (c, s) = Inr (c', s')"
  shows "one_redraw L params (c, s) (c', s')"
proof -
  let ?nf = "parameters.numNodes params"
  let ?ni = "parameters.numNodes params * parameters.arity params"
  let ?G = "?nf + ?ni + parameters.numOutputs params"
  from run obtain g s1 where g: "randInt L ?G s = Inr (g, s1)"
    by (auto simp: pointMutation_redraw_def Let_def bnd_Inr)
  have og: "one_gene c c'" by (rule pointMutation_redraw_one[OF run])
  then have frame: "gene_slots c' = gene_slots c" "map weights (nodes c') = map weights (nodes c)"
    by (simp_all add: one_gene_def)
  have "\<exists>slot v. slot_of_index params c g slot \<and> slot \<in> gene_slots c \<and>
          redraw_value L params c slot s1 = Inr (v, s') \<and> gene_value c' slot = v \<and>
          (\<forall>h. h \<noteq> slot \<longrightarrow> gene_value c' h = gene_value c h)"
  proof (cases "g < ?nf")
    case True
    with run g obtain v where
      d: "getRandomFunction L (numFunctions (chromosome.funcSet c)) s1 = Inr (v, s')"
      and st: "set_function_gene c g v = Inr c'"
      by (auto simp: pointMutation_redraw_def Let_def bnd_Inr)
    from set_function_gene_slot[OF st] True d show ?thesis
      by (intro exI[of _ "FunctionGene (nat g)"] exI[of _ v])
         (simp add: slot_of_index_def redraw_value_def Let_def)
  next
    case False
    note nf = False
    show ?thesis
    proof (cases "g < ?nf + ?ni")
      case True
      with run g nf obtain q r v where
        q: "c_div (g - ?nf) (arity c) = Inr q" and r: "c_rem (g - ?nf) (arity c) = Inr r"
        and d: "getRandomNodeInput L (numInputs c) (numNodes c) q
                  (recurrentConnectionProbability params) s1 = Inr (v, s')"
        and st: "set_input_gene c q r v = Inr c'"
        by (auto simp: pointMutation_redraw_def Let_def bnd_Inr)
      from nf have "0 \<le> g - ?nf" by simp
      from c_div_rem[OF q r this] have id: "q * arity c + r = g - ?nf" "r < \<bar>arity c\<bar>" by simp_all
      from set_input_gene_slot[OF st] have qr: "0 \<le> q" "0 \<le> r" by simp_all
      have "slot_of_index params c g (InputGene (nat q) (nat r))"
        using nf True id qr by (auto simp: slot_of_index_def Let_def)
      moreover have "redraw_value L params c (InputGene (nat q) (nat r)) s1 = Inr (v, s')"
        using d qr by (simp add: redraw_value_def)
      ultimately show ?thesis using set_input_gene_slot[OF st]
        by (intro exI[of _ "InputGene (nat q) (nat r)"] exI[of _ v]) simp
    next
      case False
      with run g nf obtain v where
        d: "getRandomChromosomeOutput L (numInputs c) (numNodes c)
              (shortcutConnections params) s1 = Inr (v, s')"
        and st: "set_output_gene c (g - ?nf - ?ni) v = Inr c'"
        by (auto simp: pointMutation_redraw_def Let_def bnd_Inr)
      from set_output_gene_slot[OF st] nf False d show ?thesis
        by (intro exI[of _ "OutputGene (nat (g - ?nf - ?ni))"] exI[of _ v])
           (simp add: slot_of_index_def redraw_value_def Let_def)
    qed
  qed
  with g frame show ?thesis unfolding one_redraw_def by auto
qed

text \<open>A loop of \<open>n\<close> turns composes the relation of its turns \<open>n\<close> times.\<close>

lemma for_loop_relpow:
  assumes run: "for_loop 0 n body s = Inr s'"
    and step: "\<And>j t t'. body j t = Inr t' \<Longrightarrow> R t t'"
  shows "(R ^^ nat n) s s'"
proof (cases "0 \<le> n")
  case True
  show ?thesis
  proof (rule for_loop_inv[OF run, where P = "\<lambda>k t. (R ^^ nat k) s t"])
    show "(R ^^ nat 0) s s" by simp
    show "0 \<le> n" by fact
  next
    fix j t t' assume j: "0 \<le> j" and P: "(R ^^ nat j) s t" and b: "body j t = Inr t'"
    have "nat (j + 1) = Suc (nat j)" using j by simp
    then show "(R ^^ nat (j + 1)) s t'" using P step[OF b] by auto
  qed
next
  case False
  then have "for_loop 0 n body s = Inr s" by (simp add: for_loop_empty)
  with run False show ?thesis by simp
qed

text \<open>
  The rounding, evaluated: the exponent of a number between two powers of two, and
  two numbers of genes to mutate. Four genes at the rate one half are two genes. Five
  genes at the double nearest to 0.3, whose exact product is less than 1.5, are two
  genes as well: the product of doubles is 1.5.
\<close>

lemma pow2_pos: "0 < pow2 k"
  by (simp add: pow2_def)

lemma pow2_powr: "pow2 k = 2 powr real_of_int k"
proof (cases "0 \<le> k")
  case True
  then show ?thesis by (simp add: pow2_def powr_realpow[symmetric])
next
  case False
  then have r: "real (nat (- k)) = - real_of_int k" by simp
  have "(2 :: real) ^ nat (- k) = 2 powr real (nat (- k))" by (simp add: powr_realpow)
  then have "(2 :: real) ^ nat (- k) = 2 powr (- real_of_int k)" using r by simp
  then show ?thesis using False by (simp add: pow2_def powr_minus_divide)
qed

lemma floor_log2:
  assumes "pow2 k \<le> x" "x < pow2 (k + 1)"
  shows "\<lfloor>log 2 x\<rfloor> = k"
proof -
  have pos: "0 < x" using assms(1) pow2_pos[of k] by simp
  have "real_of_int k \<le> log 2 x" using assms(1) pos by (simp add: pow2_powr le_log_iff)
  moreover have "log 2 x < real_of_int k + 1"
    using assms(2) pos by (simp add: pow2_powr log_less_iff)
  ultimately show ?thesis by linarith
qed

lemma ieee_round_at:
  assumes "pow2 k \<le> \<bar>x\<bar>" "\<bar>x\<bar> < pow2 (k + 1)"
  shows "ieee_round p emin emax x =
     (let e = max k emin;
          ulp = pow2 (e - int p + 1);
          r = real_of_int (round_half_even (x / ulp)) * ulp
      in if pow2 (emax + 1) \<le> \<bar>r\<bar> then (if 0 < x then PInf else NInf) else Fin r)"
proof -
  have "x \<noteq> 0" using assms(1) pow2_pos[of k] by auto
  then show ?thesis by (simp add: ieee_round_def floor_log2[OF assms])
qed

lemma numGenesToMutate_params_half: "numGenesToMutate params_half = Inr 2"
proof -
  have d: "ieee_round 53 (- 1022) 1023 2 = Fin 2"
    by (subst ieee_round_at[where k = 1]) (simp_all add: pow2_def round_half_even_def Let_def)
  have f: "ieee_round 24 (- 126) 127 2 = Fin 2"
    by (subst ieee_round_at[where k = 1]) (simp_all add: pow2_def round_half_even_def Let_def)
  show ?thesis
    by (simp add: numGenesToMutate_def double_product_def double_to_float_def roundf_int_def
          params_half_def default_parameters_def of_c_int_def d f)
qed

lemma numGenesToMutate_five_genes:
  "numGenesToMutate ((default_parameters 2 1 2 2 :: unit parameters)
      \<lparr>mutationRate := Fin (5404319552844595 / 18014398509481984)\<rparr>) = Inr 2 \<and>
   \<lfloor>(5 :: real) * (5404319552844595 / 18014398509481984) + 1 / 2\<rfloor> = 1"
proof -
  have d: "ieee_round 53 (- 1022) 1023 (27021597764222975 / 18014398509481984) = Fin (3 / 2)"
    by (subst ieee_round_at[where k = 0]) (simp_all add: pow2_def round_half_even_def Let_def)
  have f: "ieee_round 24 (- 126) 127 (3 / 2) = Fin (3 / 2)"
    by (subst ieee_round_at[where k = 0]) (simp_all add: pow2_def round_half_even_def Let_def)
  have e: "\<lfloor>(5 :: real) * (5404319552844595 / 18014398509481984) + 1 / 2\<rfloor> = 1"
    by (simp add: floor_eq_iff)
  show ?thesis
    using e
    by (simp add: numGenesToMutate_def double_product_def double_to_float_def roundf_int_def
          default_parameters_def of_c_int_def d f)
qed

text \<open>
  C6, as the code has it. A call of \<^verbatim>\<open>pointMutation\<close> that returns has made
  \<^verbatim>\<open>(int)roundf(numGenes * mutationRate)\<close> redraws one after the other, from the
  chromosome and the seed it was given to the chromosome and the seed it leaves: each
  draws a number by \<^verbatim>\<open>randInt(numGenes)\<close>, whatever was drawn before, and gives the gene
  that the number stands for the value drawn next. The same gene can be drawn again,
  so at most that many structural genes differ afterwards; the slots are the same,
  and every weight is as it was.
\<close>

theorem pointMutation_redraws_with_replacement:
  assumes "pointMutation L params chromo type s = Inr (chromo', s')"
  shows "\<exists>n. numGenesToMutate params = Inr n \<and>
           (one_redraw L params ^^ nat n) (chromo, s) (chromo', s') \<and>
           card (changed_genes chromo chromo') \<le> nat n \<and>
           gene_slots chromo' = gene_slots chromo \<and>
           map weights (nodes chromo') = map weights (nodes chromo)"
proof -
  from assms obtain n where n: "numGenesToMutate params = Inr n"
    and loop: "for_loop 0 n (\<lambda>i cs. pointMutation_redraw L params cs) (chromo, s) = Inr (chromo', s')"
    by (auto simp: pointMutation_def bnd_Inr)
  have turns: "(one_redraw L params ^^ nat n) (chromo, s) (chromo', s')"
  proof (rule for_loop_relpow[OF loop])
    fix j :: int and t t' :: "'a chromosome \<times> seed"
    assume "pointMutation_redraw L params t = Inr t'"
    then show "one_redraw L params t t'"
      using pointMutation_redraw_spec[of L params "fst t" "snd t" "fst t'" "snd t'"] by simp
  qed
  let ?P = "\<lambda>j (cs :: 'a chromosome \<times> seed). card (changed_genes chromo (fst cs)) \<le> nat j \<and>
              gene_slots (fst cs) = gene_slots chromo \<and>
              map weights (nodes (fst cs)) = map weights (nodes chromo)"
  show ?thesis
  proof (cases "0 \<le> n")
    case True
    have "?P n (chromo', s')"
    proof (rule for_loop_inv[OF loop, where P = ?P])
      show "?P 0 (chromo, s)" by (simp add: changed_genes_def)
      show "0 \<le> n" by fact
      fix j t t' assume j: "0 \<le> j" "j < n" and P: "?P j t"
        and b: "pointMutation_redraw L params t = Inr t'"
      obtain c u where t: "t = (c, u)" by (cases t)
      obtain c' u' where t': "t' = (c', u')" by (cases t')
      have og: "one_gene c c'" using pointMutation_redraw_one b t t' by blast
      have "card (changed_genes chromo c') \<le> Suc (nat j)"
        using changed_genes_step[OF _ og] P t by simp
      moreover have "Suc (nat j) = nat (j + 1)" using j by simp
      ultimately show "?P (j + 1) t'" using og P t t' by (simp add: one_gene_def)
    qed
    then show ?thesis using n turns by simp
  next
    case False
    then have "for_loop 0 n (\<lambda>i cs. pointMutation_redraw L params cs) (chromo, s) = Inr (chromo, s)"
      by (simp add: for_loop_empty)
    with loop have "chromo' = chromo" by simp
    then show ?thesis using n turns by (simp add: changed_genes_def)
  qed
qed

lemma pointMutation_seed_57:
  "pointMutation unit_libc params_half chromo0 0 57
     = Inr (chromo0\<lparr>outputNodes := [0]\<rparr>, 3587663605)"
proof -
  have "pointMutation unit_libc params_half chromo0 0 57
      = for_loop 0 2 (\<lambda>i cs. pointMutation_redraw unit_libc params_half cs) (chromo0, 57)"
    by (simp add: pointMutation_def numGenesToMutate_params_half)
  also have "\<dots> = Inr (chromo0\<lparr>outputNodes := [0]\<rparr>, 3587663605)"
    by (simp add: pointMutation_redraw_def params_half_def default_parameters_def chromo0_def
          unit_libc_def draw_simps Let_def for_loop.simps)
  finally show ?thesis .
qed

theorem pointMutation_redraws_with_replacement_witness:
  "pointMutation unit_libc params_half chromo0 0 57
     = Inr (chromo0\<lparr>outputNodes := [0]\<rparr>, 3587663605) \<and>
   numGenesToMutate params_half = Inr 2 \<and>
   (one_redraw unit_libc params_half ^^ 2) (chromo0, 57)
     (chromo0\<lparr>outputNodes := [0]\<rparr>, 3587663605) \<and>
   card (changed_genes chromo0 (chromo0\<lparr>outputNodes := [0]\<rparr>)) \<le> 2 \<and>
   gene_slots (chromo0\<lparr>outputNodes := [0]\<rparr>) = gene_slots chromo0 \<and>
   map weights (nodes (chromo0\<lparr>outputNodes := [0]\<rparr>)) = map weights (nodes chromo0)"
proof -
  note n = numGenesToMutate_params_half
  from pointMutation_redraws_with_replacement[OF pointMutation_seed_57] n pointMutation_seed_57
  show ?thesis by simp
qed

text \<open>
  The claim as written fails: with the mutation rate one half \<open>chromo0\<close> has four
  structural genes and two are to be redrawn; started at seed 57, both turns draw
  the output gene, which goes from 2 to 1 and from 1 to 0. One slot has been
  redrawn, not two distinct ones.
\<close>

theorem pointMutation_redraws_same_slot_twice:
  "numGenesToMutate params_half = Inr 2 \<and>
   bnd (pointMutation_redraw unit_libc params_half (chromo0, 57)) (\<lambda>(c1, s1).
   bnd (pointMutation_redraw unit_libc params_half (c1, s1)) (\<lambda>(c2, s2). Inr (c1, c2)))
     = Inr (chromo0\<lparr>outputNodes := [1]\<rparr>, chromo0\<lparr>outputNodes := [0]\<rparr>) \<and>
   bnd (pointMutation unit_libc params_half chromo0 0 57) (\<lambda>(c, s). Inr c)
     = Inr (chromo0\<lparr>outputNodes := [0]\<rparr>) \<and>
   changed_genes chromo0 (chromo0\<lparr>outputNodes := [1]\<rparr>) = {OutputGene 0} \<and>
   changed_genes chromo0 (chromo0\<lparr>outputNodes := [0]\<rparr>) = {OutputGene 0}"
proof -
  note a = numGenesToMutate_params_half
  have b: "bnd (pointMutation_redraw unit_libc params_half (chromo0, 57)) (\<lambda>(c1, s1).
      bnd (pointMutation_redraw unit_libc params_half (c1, s1)) (\<lambda>(c2, s2). Inr (c1, c2)))
     = Inr (chromo0\<lparr>outputNodes := [1]\<rparr>, chromo0\<lparr>outputNodes := [0]\<rparr>)"
    by (simp add: pointMutation_redraw_def params_half_def default_parameters_def chromo0_def
          unit_libc_def draw_simps Let_def)
  have c: "changed_genes chromo0 (chromo0\<lparr>outputNodes := [1]\<rparr>) = {OutputGene 0}"
    by (auto simp: changed_genes_def gene_slots_def chromo0_def)
  have d: "changed_genes chromo0 (chromo0\<lparr>outputNodes := [0]\<rparr>) = {OutputGene 0}"
    by (auto simp: changed_genes_def gene_slots_def chromo0_def)
  show ?thesis using a b c d by (simp add: pointMutation_seed_57)
qed

section \<open>The sweeps of the differential evolution\<close>

lemma dle_trans: "dle a b \<Longrightarrow> dle b c \<Longrightarrow> dle a c"
  by (cases a; cases b; cases c) auto

lemma not_worse_refl: "not_worse a a"
  by (simp add: not_worse_def)

lemma not_worse_trans: "not_worse a b \<Longrightarrow> not_worse b c \<Longrightarrow> not_worse a c"
  by (auto simp: not_worse_def dest: dle_trans)

lemma dle_not_dlt: "dle a b \<Longrightarrow> \<not> dlt b a"
  by (cases a; cases b) auto

lemma dlt_irrefl: "\<not> dlt a a"
  by (cases a) auto

lemma not_worse_not_greater: "not_worse before after \<Longrightarrow> \<not> dgt after before"
  by (auto simp: not_worse_def dgt_def dlt_irrefl dle_not_dlt)

lemma copyChromosome_fitness:
  assumes "copyChromosome d src = Inr c"
  shows "fitness c = fitness src"
  using assms
  by (auto simp: copyChromosome_def bnd_Inr split: if_splits)

lemma runDE_target_effect:
  assumes "runDE_target L fp params dataTrain NP numWeights i st = Inr st'"
  shows "\<exists>di. arr_get (DEChromos st) i = Inr di \<and>
     (if dle (fitness (dechromo (DEChromo_u st'))) (fitness (dechromo di))
      then \<exists>d'. DEChromos st' = (DEChromos st)[nat i := d'] \<and>
                fitness (dechromo d') = fitness (dechromo (DEChromo_u st')) \<and>
                take (nat numWeights) (weightsVector d')
                  = take (nat numWeights) (weightsVector (DEChromo_u st'))
      else DEChromos st' = DEChromos st)"
proof -
  from assms obtain u1 s1 u2 cu g1 di where
    tr: "transferWeightsVectorToChromo params u1 = Inr u2"
    and di: "arr_get (DEChromos st) i = Inr di"
    and rest: "(if dle (fitness cu) (fitness (dechromo di)) then
         bnd (copyChromosome (dechromo di) cu) (\<lambda>ci.
         bnd (memcpy_doubles (weightsVector di) (weightsVector (u2\<lparr>dechromo := cu\<rparr>)) numWeights) (\<lambda>wv.
         bnd (arr_set (DEChromos st) i (di\<lparr>dechromo := ci, weightsVector := wv\<rparr>)) (\<lambda>ds.
         Inr (st\<lparr>DEChromos := ds, DEChromo_u := u2\<lparr>dechromo := cu\<rparr>, DEseed := s1, DEglobal := g1\<rparr>))))
       else Inr (st\<lparr>DEChromo_u := u2\<lparr>dechromo := cu\<rparr>, DEseed := s1, DEglobal := g1\<rparr>)) = Inr st'"
    unfolding runDE_target_def Let_def by (auto simp: bnd_Inr)
  show ?thesis
  proof (cases "dle (fitness cu) (fitness (dechromo di))")
    case True
    with rest obtain ci wv where ci: "copyChromosome (dechromo di) cu = Inr ci"
      and wv: "memcpy_doubles (weightsVector di) (weightsVector u2) numWeights = Inr wv"
      and st': "st' = st\<lparr>DEChromos := (DEChromos st)[nat i := di\<lparr>dechromo := ci, weightsVector := wv\<rparr>],
                DEChromo_u := u2\<lparr>dechromo := cu\<rparr>, DEseed := s1, DEglobal := g1\<rparr>"
      by (auto simp: bnd_Inr arr_set_Inr)
    from wv have tk: "take (nat numWeights) wv = take (nat numWeights) (weightsVector u2)"
      by (auto simp: memcpy_doubles_def split: if_splits)
    show ?thesis using di True copyChromosome_fitness[OF ci] tk
      by (intro exI[of _ di]) (auto simp: st')
  next
    case False
    with rest have "st' = st\<lparr>DEChromo_u := u2\<lparr>dechromo := cu\<rparr>, DEseed := s1, DEglobal := g1\<rparr>"
      by simp
    then show ?thesis using di False by (intro exI[of _ di]) simp
  qed
qed

lemma runDE_target_not_worse:
  assumes "runDE_target L fp params dataTrain NP numWeights i st = Inr st'"
  shows "length (DEChromos st') = length (DEChromos st) \<and>
    (\<forall>k < length (DEChromos st).
       not_worse (fitness (dechromo (DEChromos st ! k))) (fitness (dechromo (DEChromos st' ! k))))"
proof -
  from runDE_target_effect[OF assms] obtain di where di: "arr_get (DEChromos st) i = Inr di"
    and eff: "if dle (fitness (dechromo (DEChromo_u st'))) (fitness (dechromo di))
      then \<exists>d'. DEChromos st' = (DEChromos st)[nat i := d'] \<and>
                fitness (dechromo d') = fitness (dechromo (DEChromo_u st')) \<and>
                take (nat numWeights) (weightsVector d')
                  = take (nat numWeights) (weightsVector (DEChromo_u st'))
      else DEChromos st' = DEChromos st"
    by blast
  from di have i: "0 \<le> i" "nat i < length (DEChromos st)" and dv: "di = DEChromos st ! nat i"
    by (auto simp: arr_get_Inr)
  show ?thesis
  proof (cases "dle (fitness (dechromo (DEChromo_u st'))) (fitness (dechromo di))")
    case True
    with eff obtain d' where d: "DEChromos st' = (DEChromos st)[nat i := d']"
      "fitness (dechromo d') = fitness (dechromo (DEChromo_u st'))" by auto
    show ?thesis using d True dv i
      by (auto simp: nth_list_update not_worse_def)
  next
    case False
    with eff show ?thesis by (simp add: not_worse_def)
  qed
qed

text \<open>
  C4. Whatever the fitness function, the seed and the numbers of iterations and of
  individuals: when the sweeps of \<^verbatim>\<open>runDE\<close> return, the population has the size it had
  and the fitness stored for each individual is the one it had, or less or equal; it
  is never greater. And in the step for one target the trial, once evaluated,
  replaces the target exactly when its fitness is less than or equal to the target's
  (the stored fitness and the first \<^verbatim>\<open>numWeights\<close> weights become the trial's);
  otherwise the population is left as it was.
\<close>

theorem runDE_sweeps_monotone:
  "(runDE_sweeps L fp params dataTrain maxIter NP numWeights st = Inr st' \<longrightarrow>
      length (DEChromos st') = length (DEChromos st) \<and>
      (\<forall>k < length (DEChromos st).
         not_worse (fitness (dechromo (DEChromos st ! k))) (fitness (dechromo (DEChromos st' ! k))) \<and>
         \<not> dgt (fitness (dechromo (DEChromos st' ! k))) (fitness (dechromo (DEChromos st ! k))))) \<and>
   (runDE_target L fp params dataTrain NP numWeights i st = Inr st' \<longrightarrow>
      (\<exists>target. arr_get (DEChromos st) i = Inr target \<and>
         (if dle (fitness (dechromo (DEChromo_u st'))) (fitness (dechromo target))
          then \<exists>d'. DEChromos st' = (DEChromos st)[nat i := d'] \<and>
                fitness (dechromo d') = fitness (dechromo (DEChromo_u st')) \<and>
                take (nat numWeights) (weightsVector d')
                  = take (nat numWeights) (weightsVector (DEChromo_u st'))
          else DEChromos st' = DEChromos st)))"
proof (rule conjI; rule impI)
  assume run: "runDE_sweeps L fp params dataTrain maxIter NP numWeights st = Inr st'"
  let ?P = "\<lambda>(j :: int) (t :: 'a DEstate). length (DEChromos t) = length (DEChromos st) \<and>
      (\<forall>k < length (DEChromos st).
         not_worse (fitness (dechromo (DEChromos st ! k))) (fitness (dechromo (DEChromos t ! k))))"
  have inner: "\<And>t t'. for_loop 0 NP (\<lambda>i st. runDE_target L fp params dataTrain NP numWeights i st) t = Inr t'
      \<Longrightarrow> ?P 0 t \<Longrightarrow> ?P 0 t'"
  proof -
    fix t t' :: "'a DEstate"
    assume l: "for_loop 0 NP (\<lambda>i st. runDE_target L fp params dataTrain NP numWeights i st) t = Inr t'"
      and P: "?P 0 t"
    show "?P 0 t'"
    proof (cases "0 \<le> NP")
      case True
      have "(\<lambda>j. ?P 0) NP t'"
      proof (rule for_loop_inv[OF l, where P = "\<lambda>j. ?P 0"])
        show "?P 0 t" by fact
        show "0 \<le> NP" by fact
        fix j u u' assume Pu: "?P 0 u" and b: "runDE_target L fp params dataTrain NP numWeights j u = Inr u'"
        from runDE_target_not_worse[OF b] Pu show "?P 0 u'"
          by (auto intro: not_worse_trans)
      qed
      then show ?thesis .
    next
      case False
      then have "t' = t" using l by (simp add: for_loop_empty)
      then show ?thesis using P by simp
    qed
  qed
  have "?P 0 st'"
  proof (cases "0 \<le> maxIter")
    case True
    have "(\<lambda>j. ?P 0) maxIter st'"
    proof (rule for_loop_inv[OF run[unfolded runDE_sweeps_def], where P = "\<lambda>j. ?P 0"])
      show "?P 0 st" by (simp add: not_worse_refl)
      show "0 \<le> maxIter" by fact
      fix j u u' assume "?P 0 u"
        and "for_loop 0 NP (\<lambda>i st. runDE_target L fp params dataTrain NP numWeights i st) u = Inr u'"
      then show "?P 0 u'" using inner by blast
    qed
    then show ?thesis .
  next
    case False
    then have "st' = st" using run by (simp add: runDE_sweeps_def for_loop_empty)
    then show ?thesis by (simp add: not_worse_refl)
  qed
  then show "length (DEChromos st') = length (DEChromos st) \<and>
      (\<forall>k < length (DEChromos st).
         not_worse (fitness (dechromo (DEChromos st ! k))) (fitness (dechromo (DEChromos st' ! k))) \<and>
         \<not> dgt (fitness (dechromo (DEChromos st' ! k))) (fitness (dechromo (DEChromos st ! k))))"
    using not_worse_not_greater by blast
next
  assume "runDE_target L fp params dataTrain NP numWeights i st = Inr st'"
  from runDE_target_effect[OF this]
  show "\<exists>target. arr_get (DEChromos st) i = Inr target \<and>
         (if dle (fitness (dechromo (DEChromo_u st'))) (fitness (dechromo target))
          then \<exists>d'. DEChromos st' = (DEChromos st)[nat i := d'] \<and>
                fitness (dechromo d') = fitness (dechromo (DEChromo_u st')) \<and>
                take (nat numWeights) (weightsVector d')
                  = take (nat numWeights) (weightsVector (DEChromo_u st'))
          else DEChromos st' = DEChromos st)" .
qed

theorem runDE_sweeps_monotone_witness:
  "bnd (runDE_sweeps unit_libc (default_schemes unit_libc) params0 data1 1 4 2 de_st0)
       (\<lambda>st'. Inr (map (\<lambda>d. fitness (dechromo d)) (DEChromos st')))
     = Inr [Fin 0, Fin 0, Fin (- 1), Fin 0] \<and>
   map (\<lambda>d. fitness (dechromo d)) (DEChromos de_st0) = [Fin 7, Fin 0, Fin (- 1), Fin 3] \<and>
   (\<exists>st'. runDE_sweeps unit_libc (default_schemes unit_libc) params0 data1 1 4 2 de_st0 = Inr st' \<and>
      length (DEChromos st') = length (DEChromos de_st0) \<and>
      \<not> dgt (fitness (dechromo (DEChromos st' ! 0))) (fitness (dechromo (DEChromos de_st0 ! 0)))) \<and>
   (\<exists>st' target. runDE_target unit_libc (default_schemes unit_libc) params0 data1 4 2 0 de_st0 = Inr st' \<and>
      arr_get (DEChromos de_st0) 0 = Inr target \<and>
      dle (fitness (dechromo (DEChromo_u st'))) (fitness (dechromo target)) \<and>
      fitness (dechromo (DEChromos st' ! 0)) = Fin 0)"
proof -
  have ev: "bnd (runDE_sweeps unit_libc (default_schemes unit_libc) params0 data1 1 4 2 de_st0)
       (\<lambda>st'. Inr (map (\<lambda>d. fitness (dechromo d)) (DEChromos st')))
     = Inr [Fin 0, Fin 0, Fin (- 1), Fin 0]"
    by (simp add: runDE_sweeps_def runDE_target_def runDE_trial_def example_defs draw_simps
          run_simps cong: eval_congs)
  then obtain st1 where st1:
    "runDE_sweeps unit_libc (default_schemes unit_libc) params0 data1 1 4 2 de_st0 = Inr st1"
    by (auto simp: bnd_Inr)
  have tg: "bnd (runDE_target unit_libc (default_schemes unit_libc) params0 data1 4 2 0 de_st0)
       (\<lambda>st'. Inr (fitness (dechromo (DEChromo_u st')), fitness (dechromo (DEChromos st' ! 0))))
     = Inr (Fin 0, Fin 0)"
    by (simp add: runDE_target_def runDE_trial_def example_defs draw_simps run_simps
          cong: eval_congs)
  then obtain st2 where st2:
    "runDE_target unit_libc (default_schemes unit_libc) params0 data1 4 2 0 de_st0 = Inr st2"
    and f2: "fitness (dechromo (DEChromo_u st2)) = Fin 0" "fitness (dechromo (DEChromos st2 ! 0)) = Fin 0"
    by (auto simp: bnd_Inr)
  have p0: "map (\<lambda>d. fitness (dechromo d)) (DEChromos de_st0) = [Fin 7, Fin 0, Fin (- 1), Fin 3]"
    by (simp add: de_st0_def pop4_def)
  have t0: "arr_get (DEChromos de_st0) 0 = Inr (pop4 ! 0)"
    by (simp add: de_st0_def pop4_def arr_get_def)
  have l0: "0 < length (DEChromos de_st0)" by (simp add: de_st0_def pop4_def)
  from runDE_sweeps_monotone[of unit_libc "default_schemes unit_libc" params0 data1 1 4 2 de_st0 st1 0]
    st1 l0
  have a: "length (DEChromos st1) = length (DEChromos de_st0) \<and>
      \<not> dgt (fitness (dechromo (DEChromos st1 ! 0))) (fitness (dechromo (DEChromos de_st0 ! 0)))"
    by blast
  have b: "dle (fitness (dechromo (DEChromo_u st2))) (fitness (dechromo (pop4 ! 0)))"
    using f2 by (simp add: pop4_def)
  show ?thesis using ev p0 st1 a st2 t0 b f2 by blast
qed

section \<open>The trial vector of the differential evolution\<close>









section \<open>The reproduction in the generations of runCGPDE_OUT\<close>

text \<open>The assignments to the structural genes and the marking of the active nodes keep the weights.\<close>

lemma set_function_gene_weights:
  "set_function_gene c i v = Inr c' \<Longrightarrow> weights_of c' = weights_of c"
  by (auto simp: weights_of_def set_function_gene_def bnd_Inr arr_get_Inr arr_set_Inr map_update_other)

lemma set_input_gene_weights:
  "set_input_gene c i j v = Inr c' \<Longrightarrow> weights_of c' = weights_of c"
  by (auto simp: weights_of_def set_input_gene_def bnd_Inr arr_get_Inr arr_set_Inr map_update_other)

lemma set_output_gene_weights:
  "set_output_gene c i v = Inr c' \<Longrightarrow> weights_of c' = weights_of c"
  by (auto simp: weights_of_def set_output_gene_def bnd_Inr arr_get_Inr arr_set_Inr)

lemma rec_weights_aux:
  "\<forall>(c :: 'g chromosome) a i c'.
     (recursivelySetActiveNodes f c a = Inr c' \<longrightarrow> weights_of c' = weights_of c) \<and>
     (recursivelySetActiveNodes_inputs f c a i = Inr c' \<longrightarrow> weights_of c' = weights_of c)"
proof (induction f)
  case 0
  show ?case by simp
next
  case (Suc f)
  show ?case
  proof (intro allI conjI impI)
    fix c :: "'g chromosome" and a i c'
    assume run: "recursivelySetActiveNodes (Suc f) c a = Inr c'"
    show "weights_of c' = weights_of c"
    proof (cases "c' = c")
      case True then show ?thesis by simp
    next
      case False
      with run obtain c1 where c1: "recursivelySetActiveNodes_inputs f c1 a 0 = Inr c'"
        and w: "weights_of c1 = weights_of c"
        by (auto simp: bnd_Inr arr_get_Inr arr_set_Inr Let_def weights_of_def map_update_other
            nth_list_update split: if_splits)
      from Suc c1 have "weights_of c' = weights_of c1" by blast
      with w show ?thesis by simp
    qed
  next
    fix c :: "'g chromosome" and a i c'
    assume run: "recursivelySetActiveNodes_inputs (Suc f) c a i = Inr c'"
    show "weights_of c' = weights_of c"
    proof (cases "c' = c")
      case True then show ?thesis by simp
    next
      case False
      with run obtain b c1 where "recursivelySetActiveNodes f c b = Inr c1"
        "recursivelySetActiveNodes_inputs f c1 a (i + 1) = Inr c'"
        by (auto simp: bnd_Inr split: if_splits)
      with Suc have "weights_of c1 = weights_of c" "weights_of c' = weights_of c1" by blast+
      then show ?thesis by simp
    qed
  qed
qed

lemma recursivelySetActiveNodes_weights:
  "recursivelySetActiveNodes f c a = Inr c' \<Longrightarrow> weights_of c' = weights_of c"
  using rec_weights_aux by blast

lemma setChromosomeActiveNodes_weights:
  assumes "setChromosomeActiveNodes c = Inr c'"
  shows "weights_of c' = weights_of c"
proof -
  from assms obtain c1 c2 acts where
    l1: "for_loop 0 (numNodes c)
            (\<lambda>i c.
               bnd (arr_get (nodes c) i) (\<lambda>n.
               bnd (arr_set (nodes c) i (n\<lparr>active := 0\<rparr>)) (\<lambda>nds.
               Inr (c\<lparr>nodes := nds\<rparr>))))
            (c\<lparr>numActiveNodes := 0\<rparr>) = Inr c1"
    and l2: "for_loop 0 (numOutputs c)
            (\<lambda>i c.
               bnd (arr_get (outputNodes c) i) (\<lambda>out.
               if out < numInputs c then Inr c
               else recursivelySetActiveNodes (recursion_budget c) c out))
            c1 = Inr c2"
    and c': "c' = c2\<lparr>activeNodes := acts\<rparr>"
    by (auto simp: setChromosomeActiveNodes_def bnd_Inr)
  have "weights_of c1 = weights_of c"
    by (rule for_loop_keep[OF l1])
       (auto simp: weights_of_def bnd_Inr arr_get_Inr arr_set_Inr map_update_other)
  moreover have "weights_of c2 = weights_of c1"
    by (rule for_loop_keep[OF l2])
       (auto simp: bnd_Inr split: if_splits dest: recursivelySetActiveNodes_weights)
  ultimately show ?thesis by (simp add: c' weights_of_def)
qed

text \<open>
  The mutations. \<^verbatim>\<open>probabilisticMutation\<close> and \<^verbatim>\<open>probabilisticMutationOnlyActive\<close> redraw
  a weight only under \<^verbatim>\<open>type == 0\<close>; \<^verbatim>\<open>pointMutation\<close> and \<^verbatim>\<open>singleMutation\<close> never do.
\<close>

lemma probabilisticMutation_weights:
  "probabilisticMutation L params c type s = Inr (c', s') \<Longrightarrow> type \<noteq> 0 \<Longrightarrow>
     weights_of c' = weights_of c"
  unfolding probabilisticMutation_def
  apply (erule bnd_keep[where Q = "\<lambda>t. weights_of (fst t) = weights_of c"])
  subgoal for x
    apply (erule for_loop_keep[where Q = "\<lambda>t. weights_of (fst t) = weights_of c"])
     apply simp
    subgoal for j t t'
      apply (cases t; simp only: prod.case)
      apply (erule bnd_keep[where Q = "\<lambda>t. weights_of (fst t) = weights_of c"])
      subgoal
        by (auto simp: bnd_Inr split: if_splits prod.splits dest: set_function_gene_weights)
      subgoal for a b y
        apply (cases y; simp only: prod.case)
        apply (erule for_loop_keep[where Q = "\<lambda>t. weights_of (fst t) = weights_of c"])
         apply simp
        by (auto simp: bnd_Inr split: if_splits prod.splits dest: set_input_gene_weights)
      done
    done
  subgoal for x
    apply (cases x; simp only: prod.case)
    apply (erule for_loop_keepE[where Q = "\<lambda>t. weights_of (fst t) = weights_of c"])
      apply simp
     apply (auto simp: bnd_Inr split: if_splits prod.splits dest: set_output_gene_weights)
    done
  done


lemma probabilisticMutationOnlyActive_weights:
  "probabilisticMutationOnlyActive L params c type s = Inr (c', s') \<Longrightarrow> type \<noteq> 0 \<Longrightarrow>
     weights_of c' = weights_of c"
  unfolding probabilisticMutationOnlyActive_def
  apply (erule bnd_keep[where Q = "\<lambda>t. weights_of (fst t) = weights_of c"])
  subgoal for x
    apply (erule for_loop_keep[where Q = "\<lambda>t. weights_of (fst t) = weights_of c"])
     apply simp
    subgoal for j t t'
      apply (cases t; simp only: prod.case)
      apply (erule bnd_keep[where Q = "\<lambda>_. True"])
       apply simp
      apply (erule bnd_keep[where Q = "\<lambda>_. True"])
       apply simp
      subgoal for a b activeNode rs
        apply (cases rs; simp only: prod.case)
        apply (erule bnd_keep[where Q = "\<lambda>t. weights_of (fst t) = weights_of c"])
        subgoal
          by (auto simp: bnd_Inr split: if_splits prod.splits dest: set_function_gene_weights)
        subgoal for r s1 y
          apply (cases y; simp only: prod.case)
          apply (erule for_loop_keep[where Q = "\<lambda>t. weights_of (fst t) = weights_of c"])
           apply simp
          by (auto simp: bnd_Inr split: if_splits prod.splits dest: set_input_gene_weights)
        done
      done
    done
  subgoal for x
    apply (cases x; simp only: prod.case)
    apply (erule for_loop_keepE[where Q = "\<lambda>t. weights_of (fst t) = weights_of c"])
      apply simp
     apply (auto simp: bnd_Inr split: if_splits prod.splits dest: set_output_gene_weights)
    done
  done

lemma pointMutation_redraw_weights:
  "pointMutation_redraw L params (c, s) = Inr (c', s') \<Longrightarrow> weights_of c' = weights_of c"
  unfolding pointMutation_redraw_def Let_def
  by (auto simp: bnd_Inr split: if_splits
      dest: set_function_gene_weights set_input_gene_weights set_output_gene_weights)

lemma pointMutation_weights:
  "pointMutation L params c type s = Inr (c', s') \<Longrightarrow> weights_of c' = weights_of c"
  unfolding pointMutation_def
  apply (erule bnd_keep[where Q = "\<lambda>_. True"])
   apply simp
  apply (erule for_loop_keepE[where Q = "\<lambda>t. weights_of (fst t) = weights_of c"])
    apply simp
   apply (auto dest: pointMutation_redraw_weights)
  done

lemma singleMutation_weights:
  "singleMutation L params c type s = Inr (c', s') \<Longrightarrow> weights_of c' = weights_of c"
  unfolding singleMutation_def Let_def
  apply (erule bnd_keep[where Q = "\<lambda>t. weights_of (fst t) = weights_of c"])
  subgoal for x
    apply (erule while_do_keepE[where Q = "\<lambda>t. weights_of (fst t) = weights_of c"])
      apply simp
     apply (auto simp: bnd_Inr split: if_splits prod.splits
        dest: set_function_gene_weights set_input_gene_weights set_output_gene_weights)
    done
  by auto

lemma mutateChromosome_weights:
  assumes "mutateChromosome L params c type s = Inr (c', s')" "type \<noteq> 0"
    and "mutationType params \<noteq> PointMutationANN"
  shows "weights_of c' = weights_of c"
proof -
  from assms(1) obtain c1 where
    m: "(case mutationType params of
            ProbabilisticMutation \<Rightarrow> probabilisticMutation L params c type s
          | PointMutation \<Rightarrow> pointMutation L params c type s
          | PointMutationANN \<Rightarrow> pointMutationANN L params c type s
          | ProbabilisticMutationOnlyActive \<Rightarrow> probabilisticMutationOnlyActive L params c type s
          | SingleMutation \<Rightarrow> singleMutation L params c type s) = Inr (c1, s')"
    and a: "setChromosomeActiveNodes c1 = Inr c'"
    by (auto simp: mutateChromosome_def bnd_Inr)
  from m assms(2,3) have "weights_of c1 = weights_of c"
    by (cases "mutationType params")
       (auto dest: probabilisticMutation_weights probabilisticMutationOnlyActive_weights
          pointMutation_weights singleMutation_weights)
  with setChromosomeActiveNodes_weights[OF a] show ?thesis by simp
qed

text \<open>The copy of a parent has the parent's weights, and so has the child made of it.\<close>

lemma copyNode_weights:
  assumes run: "copyNode d src = Inr d'" and j: "0 \<le> j" "j < maxArity src"
  shows "nat j < length (weights src) \<and> nat j < length (weights d') \<and>
         weights d' ! nat j = weights src ! nat j"
proof -
  let ?P = "\<lambda>k (d :: node). \<forall>j. 0 \<le> j \<and> j < k \<longrightarrow>
      nat j < length (weights src) \<and> nat j < length (weights d) \<and>
      weights d ! nat j = weights src ! nat j"
  have "?P (maxArity src) d'"
  proof (rule for_loop_inv[OF run[unfolded copyNode_def], where P = ?P])
    show "?P 0 (d\<lparr>func := func src, active := active src, maxArity := maxArity src,
                  actArity := actArity src\<rparr>)" by auto
    show "0 \<le> maxArity src" using j by simp
  next
    fix k t t'
    assume k: "0 \<le> k" "k < maxArity src" and P: "?P k t"
      and body: "bnd (arr_get (inputs src) k) (\<lambda>v.
          bnd (arr_set (inputs t) k v) (\<lambda>ins.
          bnd (arr_get (weights src) k) (\<lambda>w.
          bnd (arr_set (weights t) k w) (\<lambda>ws.
          Inr (t\<lparr>inputs := ins, weights := ws\<rparr>))))) = Inr t'"
    from body k(1) have ks: "nat k < length (weights src)" and kt: "nat k < length (weights t)"
      and w: "weights t' = (weights t)[nat k := weights src ! nat k]"
      by (auto simp: bnd_Inr arr_get_Inr arr_set_Inr)
    show "?P (k + 1) t'"
    proof (intro allI impI)
      fix j assume j: "0 \<le> j \<and> j < k + 1"
      show "nat j < length (weights src) \<and> nat j < length (weights t') \<and>
         weights t' ! nat j = weights src ! nat j"
      proof (cases "j = k")
        case True
        with ks kt w show ?thesis by simp
      next
        case False
        with j have "j < k" by simp
        moreover from False j k(1) have "nat k \<noteq> nat j" by linarith
        ultimately show ?thesis using P j w by (simp add: nth_list_update)
      qed
    qed
  qed
  with j show ?thesis by simp
qed

lemma copyChromosome_weights_from:
  assumes run: "copyChromosome dest src = Inr clone"
  shows "weights_from src clone"
proof -
  from run obtain d1 d2 where
    l1: "for_loop 0 (numNodes src)
               (\<lambda>i d.
                  bnd (arr_get (nodes d) i) (\<lambda>nd.
                  bnd (arr_get (nodes src) i) (\<lambda>ns.
                  bnd (copyNode nd ns) (\<lambda>nd'.
                  bnd (arr_set (nodes d) i nd') (\<lambda>nds.
                  bnd (arr_get (activeNodes src) i) (\<lambda>a.
                  bnd (arr_set (activeNodes d) i a) (\<lambda>acts.
                  Inr (d\<lparr>nodes := nds, activeNodes := acts\<rparr>))))))))
               dest = Inr d1"
    and l2: "for_loop 0 (numOutputs src)
               (\<lambda>i d.
                  bnd (arr_get (outputNodes src) i) (\<lambda>out.
                  bnd (arr_set (outputNodes d) i out) (\<lambda>outs.
                  Inr (d\<lparr>outputNodes := outs\<rparr>))))
               (d1\<lparr>chromosome.funcSet := copyFunctionSet (chromosome.funcSet d1) (chromosome.funcSet src)\<rparr>)
             = Inr d2"
    and clone: "nodes clone = nodes d2"
    by (auto simp: copyChromosome_def bnd_Inr split: if_splits)
  let ?ok = "\<lambda>(d :: 'g chromosome) n. \<forall>j. 0 \<le> j \<and> j < maxArity (nodes src ! nat n) \<longrightarrow>
        nat n < length (nodes src) \<and> nat n < length (nodes d) \<and>
        nat j < length (weights (nodes src ! nat n)) \<and>
        nat j < length (weights (nodes d ! nat n)) \<and>
        weights (nodes d ! nat n) ! nat j = weights (nodes src ! nat n) ! nat j"
  let ?P = "\<lambda>k (d :: 'g chromosome). \<forall>n. 0 \<le> n \<and> n < k \<longrightarrow> ?ok d n"
  have P1: "?P (numNodes src) d1"
  proof (cases "0 \<le> numNodes src")
    case False
    then show ?thesis by auto
  next
    case True
    show ?thesis
    proof (rule for_loop_inv[OF l1, where P = ?P])
      show "?P 0 dest" by auto
      show "0 \<le> numNodes src" by (rule True)
    next
      fix k t t'
      assume k: "0 \<le> k" "k < numNodes src" and P: "?P k t"
        and body: "bnd (arr_get (nodes t) k) (\<lambda>nd.
                  bnd (arr_get (nodes src) k) (\<lambda>ns.
                  bnd (copyNode nd ns) (\<lambda>nd'.
                  bnd (arr_set (nodes t) k nd') (\<lambda>nds.
                  bnd (arr_get (activeNodes src) k) (\<lambda>a.
                  bnd (arr_set (activeNodes t) k a) (\<lambda>acts.
                  Inr (t\<lparr>nodes := nds, activeNodes := acts\<rparr>))))))) = Inr t'"
      from body k(1) obtain nd' where
        kt: "nat k < length (nodes t)" and ks: "nat k < length (nodes src)"
        and cn: "copyNode (nodes t ! nat k) (nodes src ! nat k) = Inr nd'"
        and t': "nodes t' = (nodes t)[nat k := nd']"
        by (auto simp: bnd_Inr arr_get_Inr arr_set_Inr)
      show "?P (k + 1) t'"
      proof (intro allI impI)
        fix n j assume n: "0 \<le> n \<and> n < k + 1" and j: "0 \<le> j \<and> j < maxArity (nodes src ! nat n)"
        show "nat n < length (nodes src) \<and> nat n < length (nodes t') \<and>
          nat j < length (weights (nodes src ! nat n)) \<and>
          nat j < length (weights (nodes t' ! nat n)) \<and>
          weights (nodes t' ! nat n) ! nat j = weights (nodes src ! nat n) ! nat j"
        proof (cases "n = k")
          case True
          from copyNode_weights[OF cn, of j] j True
          show ?thesis using kt ks t' by simp
        next
          case False
          with n have "n < k" by simp
          moreover from False n k(1) have "nat k \<noteq> nat n" by linarith
          ultimately show ?thesis using P n j t' by (simp add: nth_list_update)
        qed
      qed
    qed
  qed
  have "nodes d2 = nodes d1"
    by (rule for_loop_keepE[OF l2, where Q = "\<lambda>d. nodes d = nodes d1"])
       (auto simp: bnd_Inr)
  with P1 clone show ?thesis
    unfolding weights_from_def weights_of_def by (auto simp: nth_map)
qed

lemma weights_from_cong:
  "weights_from p c \<Longrightarrow> weights_of c' = weights_of c \<Longrightarrow> weights_from p c'"
  by (simp only: weights_from_def)

lemma mutateRandomParent_weights:
  fixes parents :: "'g chromosome list"
  assumes run: "mutateRandomParent L params parents children numParents numChildren type s = Inr (children', s')"
    and t: "type \<noteq> 0" and m: "mutationType params \<noteq> PointMutationANN"
    and i: "0 \<le> i" "i < numChildren"
  shows "\<exists>r. 0 \<le> r \<and> r < int (length parents) \<and> weights_from (parents ! nat r) (children' ! nat i)"
proof -
  let ?P = "\<lambda>k (cs :: 'g chromosome list \<times> seed). \<forall>i. 0 \<le> i \<and> i < k \<longrightarrow>
      (\<exists>r. 0 \<le> r \<and> r < int (length parents) \<and> weights_from (parents ! nat r) (fst cs ! nat i))"
  have "?P numChildren (children', s')"
  proof (rule for_loop_inv[OF run[unfolded mutateRandomParent_def], where P = ?P])
    show "?P 0 (children, s)" by auto
    show "0 \<le> numChildren" using i by simp
  next
    fix k t t'
    assume k: "0 \<le> k" "k < numChildren" and P: "?P k t"
      and body: "(case t of (children, s) \<Rightarrow>
          bnd (randInt L numParents s) (\<lambda>(r, s1).
          bnd (arr_get parents r) (\<lambda>parent.
          bnd (arr_get children k) (\<lambda>child.
          bnd (copyChromosome child parent) (\<lambda>clone.
          bnd (mutateChromosome L params clone type s1) (\<lambda>(child', s2).
          bnd (arr_set children k child') (\<lambda>children'.
          Inr (children', s2)))))))) = Inr t'"
    obtain cs s0 where tt: "t = (cs, s0)" by (cases t)
    from body tt k(1) obtain r s1 clone child' s2 where
      r: "0 \<le> r" "r < int (length parents)"
      and cp: "copyChromosome (cs ! nat k) (parents ! nat r) = Inr clone"
      and mu: "mutateChromosome L params clone type s1 = Inr (child', s2)"
      and kc: "nat k < length cs"
      and t': "fst t' = cs[nat k := child']"
      by (auto simp: bnd_Inr arr_get_Inr arr_set_Inr)
    have wf: "weights_from (parents ! nat r) child'"
      using copyChromosome_weights_from[OF cp] mutateChromosome_weights[OF mu t m]
      by (rule weights_from_cong)
    show "?P (k + 1) t'"
    proof (intro allI impI)
      fix i assume i: "0 \<le> i \<and> i < k + 1"
      show "\<exists>r. 0 \<le> r \<and> r < int (length parents) \<and> weights_from (parents ! nat r) (fst t' ! nat i)"
      proof (cases "i = k")
        case True
        with r wf kc t' show ?thesis by auto
      next
        case False
        with i have "i < k" by simp
        moreover from False i k(1) have "nat k \<noteq> nat i" by linarith
        ultimately show ?thesis using P i tt t' by (simp add: nth_list_update)
      qed
    qed
  qed
  with i show ?thesis by simp
qed

lemma generation_step_inherits:
  assumes run: "generation_step fp params dataTrain dataValid n type pop = Inr pop'"
    and rs: "reproductionScheme fp = mutateRandomParent L"
    and t: "type \<noteq> 0" and m: "mutationType params \<noteq> PointMutationANN"
  shows "inherits_weights params pop'"
proof -
  from run rs obtain children parents children' s' where
    rp: "mutateRandomParent L params parents children (mu params) (lambda params) type (seedOf pop)
           = Inr (children', s')"
    and p: "parentChromos pop' = parents" "childrenChromos pop' = children'"
    by (auto simp: generation_step_def bnd_Inr)
  show ?thesis
    unfolding inherits_weights_def p
    using mutateRandomParent_weights[OF rp t m] by blast
qed

lemmas gp_defs = params_gp_def parent_gp_def child_gp_def pop_gp_def
  generation_step_def getBestChromosome_def selectFittest_def sortChromosomeArray_def
  mutateRandomParent_def mutateChromosome_def probabilisticMutation_def weights_of_def

lemma runCGPDE_OUT_generations_pop_gp:
  "bnd (runCGPDE_OUT_generations (default_schemes unit_libc) params_gp data1 data1 2 1 pop_gp)
     (\<lambda>pop. Inr (map weights_of (childrenChromos pop), map weights_of (parentChromos pop)))
   = Inr ([[[Fin 3, Fin 4]]], [[[Fin 3, Fin 4]]])"
  by (simp add: runCGPDE_OUT_generations_def gp_defs example_defs draw_simps run_simps
        cong: eval_congs)

lemma runCGP_generations_pop_gp:
  "bnd (runCGP_generations (default_schemes unit_libc) params_gp data1 data1 2 1 pop_gp)
     (\<lambda>pop. Inr (map weights_of (childrenChromos pop), map weights_of (parentChromos pop)))
   = Inr ([[[Fin (- (494373 / 500000)), Fin (- (497251 / 500000))]]], [[[Fin 3, Fin 4]]])"
  by (simp add: runCGP_generations_def gp_defs example_defs draw_simps run_simps
        cong: eval_congs)

text \<open>
  After each generation with the type 1 the population inherits its weights, whatever
  the fitness function and the selection scheme are.
\<close>

lemma runCGPDE_OUT_generations_inherit:
  assumes run: "runCGPDE_OUT_generations fp params dataTrain dataValid n numGens pop0 = Inr pop"
    and rs: "reproductionScheme fp = mutateRandomParent L"
    and g: "0 < numGens" and m: "mutationType params \<noteq> PointMutationANN"
  shows "inherits_weights params pop"
proof -
  let ?P = "\<lambda>(k :: int) p. 0 < k \<longrightarrow> inherits_weights params p"
  have "?P numGens pop"
  proof (rule for_loop_inv[OF run[unfolded runCGPDE_OUT_generations_def], where P = ?P])
    show "?P 0 pop0" by simp
    show "0 \<le> numGens" using g by simp
  next
    fix k t t'
    assume "generation_step fp params dataTrain dataValid n 1 t = Inr t'"
    from generation_step_inherits[OF this rs _ m] show "?P (k + 1) t'" by simp
  qed
  with g show ?thesis by simp
qed

lemma runCGPDE_OUT_generations_each:
  assumes run: "runCGPDE_OUT_generations fp params dataTrain dataValid n numGens pop0 = Inr pop"
    and rs: "reproductionScheme fp = mutateRandomParent L"
    and m: "mutationType params \<noteq> PointMutationANN"
    and k: "0 < k" "k \<le> numGens"
  shows "\<exists>pop_k. runCGPDE_OUT_generations fp params dataTrain dataValid n k pop0 = Inr pop_k \<and>
           inherits_weights params pop_k"
proof -
  from for_loop_prefix[OF run[unfolded runCGPDE_OUT_generations_def], of k] k
  obtain pop_k where
    pk: "runCGPDE_OUT_generations fp params dataTrain dataValid n k pop0 = Inr pop_k"
    by (auto simp: runCGPDE_OUT_generations_def)
  from runCGPDE_OUT_generations_inherit[OF pk rs k(1) m] pk show ?thesis by blast
qed

lemmas full_defs = runCGPDE_OUT_def params_out_def runCGPDE_OUT_generations_def runDE_def
  runDE_sweeps_def runDE_target_def runDE_trial_def initialiseDEPopulation_def
  initialiseDEChromosome_def NP_of_def maxIter_of_def getNumChromosomeWeights_def
  initialiseChromosome_def initialiseNode_def initialiseChromosomeFromChromosome_def
  replicate_numeral_unfold

lemma runCGPDE_OUT_params_out:
  "bnd (runCGPDE_OUT unit_libc (default_schemes unit_libc) params_out data1 data1 1 1 ())
     (\<lambda>(cs, s, g). Inr (map weights_of cs, s))
   = Inr ([[[Fin (- (252523 / 250000)), Fin (- (472063 / 500000))]],
           [[Fin (- (65901 / 62500)), Fin (- (466951 / 500000))]],
           [[Fin (- (90499 / 100000)), Fin (- (49709 / 50000))]],
           [[Fin (- (579759 / 500000)), Fin (- (110481 / 125000))]]], 3361651730)"
  by (simp add: full_defs gp_defs example_defs draw_norm run_simps Let_def cong: eval_congs)

text \<open>
  C3, as the code has it. The loop over the generations of \<^verbatim>\<open>runCGPDE_OUT\<close> gives the
  reproduction scheme the type 1. With the reproduction scheme \<^verbatim>\<open>mutateRandomParent\<close>,
  any fitness function, any selection scheme and any mutation but \<^verbatim>\<open>pointMutationANN\<close>,
  a call of \<^verbatim>\<open>runCGPDE_OUT\<close> that returns has run its generations from a first
  population; after each generation, the first one and every later one, every child
  has the connection weights of one of the parents selected in that generation, the
  reproduction having drawn no weight; and what the call returns is what the one call
  of \<^verbatim>\<open>runDE\<close> with the type 2 returns for the best chromosome of the last population.
\<close>

theorem runCGPDE_OUT_reproduction_keeps_weights:
  assumes run: "runCGPDE_OUT L fp params dataTrain dataValid numGens s0 g0 = Inr res"
    and rs: "reproductionScheme fp = mutateRandomParent L"
    and m: "mutationType params \<noteq> PointMutationANN"
  shows "\<exists>n pop0 pop.
     runCGPDE_OUT_generations fp params dataTrain dataValid n numGens pop0 = Inr pop \<and>
     runDE L fp params (bestChromo pop) dataTrain dataValid 2 (seedOf pop) (globalOf pop) = Inr res \<and>
     (\<forall>k. 0 < k \<and> k \<le> numGens \<longrightarrow>
        (\<exists>pop_k. runCGPDE_OUT_generations fp params dataTrain dataValid n k pop0 = Inr pop_k \<and>
           inherits_weights params pop_k))"
proof -
  from run obtain n pop0 pop where
    gen: "runCGPDE_OUT_generations fp params dataTrain dataValid n numGens pop0 = Inr pop"
    and de: "runDE L fp params (bestChromo pop) dataTrain dataValid 2 (seedOf pop) (globalOf pop)
       = Inr res"
    unfolding runCGPDE_OUT_def
    by (auto simp: bnd_Inr split: if_splits)
  from runCGPDE_OUT_generations_each[OF gen rs m] gen de show ?thesis by blast
qed

theorem runCGPDE_OUT_reproduction_keeps_weights_witness:
  "reproductionScheme (default_schemes unit_libc) = mutateRandomParent unit_libc \<and>
   mutationType params_out \<noteq> PointMutationANN \<and>
   (\<exists>res. runCGPDE_OUT unit_libc (default_schemes unit_libc) params_out data1 data1 1 1 () = Inr res \<and>
      (\<exists>n pop0 pop.
         runCGPDE_OUT_generations (default_schemes unit_libc) params_out data1 data1 n 1 pop0 = Inr pop \<and>
         inherits_weights params_out pop \<and>
         runDE unit_libc (default_schemes unit_libc) params_out (bestChromo pop) data1 data1 2
           (seedOf pop) (globalOf pop) = Inr res))"
proof -
  from runCGPDE_OUT_params_out obtain res where
    run: "runCGPDE_OUT unit_libc (default_schemes unit_libc) params_out data1 data1 1 1 () = Inr res"
    by (auto simp: bnd_Inr)
  have rs: "reproductionScheme (default_schemes unit_libc) = mutateRandomParent unit_libc"
    by (simp add: default_schemes_def)
  have m: "mutationType params_out \<noteq> PointMutationANN"
    by (simp add: params_out_def params_gp_def default_parameters_def)
  from runCGPDE_OUT_reproduction_keeps_weights[OF run rs m] obtain n pop0 pop where
    a: "runCGPDE_OUT_generations (default_schemes unit_libc) params_out data1 data1 n 1 pop0 = Inr pop"
      "runDE unit_libc (default_schemes unit_libc) params_out (bestChromo pop) data1 data1 2
           (seedOf pop) (globalOf pop) = Inr res"
    and b: "\<forall>k. 0 < k \<and> k \<le> 1 \<longrightarrow>
        (\<exists>pop_k. runCGPDE_OUT_generations (default_schemes unit_libc) params_out data1 data1 n k pop0 = Inr pop_k \<and>
           inherits_weights params_out pop_k)"
    by blast
  from b[rule_format, of 1] a(1) have "inherits_weights params_out pop" by auto
  with run rs m a show ?thesis by blast
qed

text \<open>
  C3 as the specification has it fails: one generation from the same population, with
  the same seed and the mutation rate 1. The generation of \<^verbatim>\<open>runCGPDE_OUT\<close> leaves the
  child with the weights 3 and 4 of its parent; the generation of \<^verbatim>\<open>runCGP\<close> does not:
  it redraws them.
\<close>

theorem runCGPDE_OUT_generation_mutates_no_weight:
  "bnd (runCGPDE_OUT_generations (default_schemes unit_libc) params_gp data1 data1 2 1 pop_gp)
     (\<lambda>pop. Inr (map weights_of (childrenChromos pop) = [[[Fin 3, Fin 4]]])) = Inr True \<and>
   bnd (runCGP_generations (default_schemes unit_libc) params_gp data1 data1 2 1 pop_gp)
     (\<lambda>pop. Inr (map weights_of (childrenChromos pop) = [[[Fin 3, Fin 4]]])) = Inr False"
  using runCGPDE_OUT_generations_pop_gp runCGP_generations_pop_gp by (auto simp: bnd_Inr)

end
